theory Spec2Isabelle
  imports Main "HOL-Library.Sublist"
begin

section \<open>Values\<close>

text \<open>
  The proxy is a Node.js program. A JavaScript string is represented by the list of its
  UTF-8 bytes, so that encoding a string into a Buffer (\<^verbatim>\<open>Buffer.from(s)\<close>) keeps the
  list as it is. The contents of a Buffer are a list of bytes as well.
\<close>

type_synonym bytes = string

text \<open>
  The values \<^verbatim>\<open>JSON.parse\<close> produces. \<open>JNum\<close> carries the integral numbers; the
  proxy only tests a number for truthiness and identity. A JavaScript value that may be
  \<^verbatim>\<open>undefined\<close> is a \<open>json option\<close>, with \<open>None\<close> for \<^verbatim>\<open>undefined\<close>.
\<close>

datatype json =
    JNull
  | JBool bool
  | JNum int
  | JStr string
  | JArr "json list"
  | JObj "(string \<times> json) list"

type_synonym jsval = "json option"

text \<open>The exceptions that can travel through the code.\<close>

datatype exn =
    TypeError
  | RangeError
  | FetchError string

fun truthy :: "json \<Rightarrow> bool" where
  "truthy JNull = False"
| "truthy (JBool b) = b"
| "truthy (JNum n) = (n \<noteq> 0)"
| "truthy (JStr s) = (s \<noteq> [])"
| "truthy (JArr xs) = True"
| "truthy (JObj fs) = True"

definition truthy_val :: "jsval \<Rightarrow> bool" where
  "truthy_val v = (case v of None \<Rightarrow> False | Some x \<Rightarrow> truthy x)"

text \<open>
  Reading a named property of a value that is neither \<^verbatim>\<open>null\<close> nor \<^verbatim>\<open>undefined\<close>.
  The proxy reads the names entry, changes, value, messages, type, from, text, body, reply
  and summary: none of them is a property of the prototypes of arrays, strings, numbers
  or booleans, so only an object can have one.
\<close>

fun property :: "json \<Rightarrow> string \<Rightarrow> jsval" where
  "property (JObj fs) k = map_of fs k"
| "property v k = None"

text \<open>\<^verbatim>\<open>v[0]\<close>: the first element of an array, the first character of a string, the
  property named 0 of an object.\<close>

fun index0 :: "json \<Rightarrow> jsval" where
  "index0 (JArr xs) = (case xs of [] \<Rightarrow> None | x # rest \<Rightarrow> Some x)"
| "index0 (JStr s) = (case s of [] \<Rightarrow> None | c # rest \<Rightarrow> Some (JStr [c]))"
| "index0 (JObj fs) = map_of fs ''0''"
| "index0 v = None"

text \<open>Optional chaining: \<^verbatim>\<open>x?.k\<close> and \<^verbatim>\<open>x?.[0]\<close> are \<^verbatim>\<open>undefined\<close> when \<open>x\<close> is
  \<^verbatim>\<open>null\<close> or \<^verbatim>\<open>undefined\<close>.\<close>

definition opt_prop :: "jsval \<Rightarrow> string \<Rightarrow> jsval" where
  "opt_prop x k = (case x of None \<Rightarrow> None | Some JNull \<Rightarrow> None | Some v \<Rightarrow> property v k)"

definition opt_index0 :: "jsval \<Rightarrow> jsval" where
  "opt_index0 x = (case x of None \<Rightarrow> None | Some JNull \<Rightarrow> None | Some v \<Rightarrow> index0 v)"

text \<open>Plain member access \<^verbatim>\<open>x.k\<close> on a parsed value throws a TypeError on \<^verbatim>\<open>null\<close>.\<close>

definition get_prop :: "json \<Rightarrow> string \<Rightarrow> exn + jsval" where
  "get_prop x k = (case x of JNull \<Rightarrow> Inl TypeError | v \<Rightarrow> Inr (property v k))"

section \<open>The platform and the configuration\<close>

text \<open>
  The functions of Node.js the proxy calls are not code of the repository; the model
  takes them as a record of functions, and the theorems hold for every such record.
  \<^item> \<open>hmac_sha256_hex key data\<close> is
    \<^verbatim>\<open>crypto.createHmac("sha256", key).update(data).digest("hex")\<close>;
  \<^item> \<open>toString_utf8\<close> is \<^verbatim>\<open>buffer.toString("utf8")\<close>;
  \<^item> \<open>JSON_parse\<close> is \<^verbatim>\<open>JSON.parse\<close>, with \<open>None\<close> when it throws a SyntaxError;
  \<^item> \<open>JSON_stringify\<close> is \<^verbatim>\<open>JSON.stringify\<close>;
  \<^item> \<open>base64\<close> is \<^verbatim>\<open>Buffer.from(s).toString("base64")\<close>;
  \<^item> \<open>ToString\<close> is the conversion of a value inside a template literal;
  \<^item> \<open>RegExp_test source text\<close> is \<^verbatim>\<open>new RegExp(source, "i").test(text)\<close>.
\<close>

record runtime =
  hmac_sha256_hex :: "string \<Rightarrow> bytes \<Rightarrow> string"
  toString_utf8 :: "bytes \<Rightarrow> string"
  JSON_parse :: "string \<Rightarrow> json option"
  JSON_stringify :: "json \<Rightarrow> string"
  base64 :: "string \<Rightarrow> string"
  ToString :: "json \<Rightarrow> string"
  RegExp_test :: "string \<Rightarrow> string \<Rightarrow> bool"

text \<open>
  \<^verbatim>\<open>process.env\<close>, as the three servers destructure it. A variable that is not set is
  \<open>None\<close>; the defaults of the destructuring apply to \<open>None\<close> only.
\<close>

record process_env =
  VERIFY_TOKEN :: "string option"
  META_APP_SECRET :: "string option"
  META_PERM_TOKEN :: "string option"
  META_PHONE_NUMBER_ID :: "string option"
  CHATWOOT_WEBHOOK_URL :: "string option"
  CHATWOOT_WEBHOOK_TOKEN :: "string option"
  OPENAI_ENDPOINT :: "string option"
  OPENAI_SUMMARY_ENDPOINT :: "string option"
  N8N_BASIC_USER :: "string option"
  N8N_BASIC_PASS :: "string option"
  HANDOFF_KEYWORDS :: "string option"
  THREE_CX_WEBHOOK_URL :: "string option"
  THREE_CX_META_PHONE_NUMBER_ID :: "string option"
  THREE_CX_META_PERM_TOKEN :: "string option"
  HANDOFF_TEMPLATE_NAME :: "string option"
  HANDOFF_TEMPLATE_LANG :: "string option"

text \<open>Truthiness of a string that may be \<^verbatim>\<open>undefined\<close>: set and not empty.\<close>

definition is_set :: "string option \<Rightarrow> bool" where
  "is_set v = (case v of None \<Rightarrow> False | Some s \<Rightarrow> s \<noteq> [])"

text \<open>A variable inside a template literal: \<^verbatim>\<open>undefined\<close> prints as that word.\<close>

definition interpolate :: "string option \<Rightarrow> string" where
  "interpolate v = (case v of None \<Rightarrow> ''undefined'' | Some s \<Rightarrow> s)"

text \<open>The guard at the top of each server: the process exits unless it holds.\<close>

definition required_env_present :: "process_env \<Rightarrow> bool" where
  "required_env_present env =
     (is_set (VERIFY_TOKEN env) \<and> is_set (META_APP_SECRET env) \<and> is_set (META_PERM_TOKEN env)
      \<and> is_set (META_PHONE_NUMBER_ID env) \<and> is_set (OPENAI_ENDPOINT env))"

section \<open>Signature verification\<close>

text \<open>
  The objects the proxy passes by reference: a Buffer with its bytes, and the empty
  object \<^verbatim>\<open>{}\<close>. The latter is what body-parser leaves in \<^verbatim>\<open>req.body\<close> when it parses
  nothing: a request without a body, or without a Content-Type.
\<close>

datatype object = Buffer bytes | EmptyObject

text \<open>\<^verbatim>\<open>raw.toString("utf8")\<close>: the method of a Buffer decodes its bytes; the empty object
  has the method of \<^verbatim>\<open>Object.prototype\<close>.\<close>

fun toString :: "runtime \<Rightarrow> object \<Rightarrow> string" where
  "toString rt (Buffer b) = toString_utf8 rt b"
| "toString rt EmptyObject = ''[object Object]''"

text \<open>\<^verbatim>\<open>crypto.timingSafeEqual\<close> throws a RangeError when the byte lengths differ.\<close>

definition timingSafeEqual :: "bytes \<Rightarrow> bytes \<Rightarrow> exn + bool" where
  "timingSafeEqual a b = (if length a \<noteq> length b then Inl RangeError else Inr (a = b))"

definition Buffer_from_string :: "string \<Rightarrow> bytes" where
  "Buffer_from_string s = s"

text \<open>
  \<open>verifySignature\<close> (the same text in all three servers). The result is a sum: an
  exception that leaves the function is \<open>Inl\<close>. The digest is computed before the
  \<^verbatim>\<open>try\<close> block, and \<^verbatim>\<open>hmac.update(rawBody)\<close> throws a TypeError unless \<open>rawBody\<close> is a
  string, a Buffer, a TypedArray or a DataView. The \<^verbatim>\<open>try\<close> block turns the exception of
  \<open>timingSafeEqual\<close> into \<open>false\<close>.
\<close>

definition verifySignature ::
  "runtime \<Rightarrow> process_env \<Rightarrow> object \<Rightarrow> string option \<Rightarrow> exn + bool" where
  "verifySignature rt env rawBody headerSig =
     (if \<not> is_set headerSig \<or> \<not> is_set (META_APP_SECRET env) then Inr False
      else
        (case rawBody of
           EmptyObject \<Rightarrow> Inl TypeError
         | Buffer data \<Rightarrow>
             let expected = ''sha256='' @ hmac_sha256_hex rt (interpolate (META_APP_SECRET env)) data
             in (case timingSafeEqual (Buffer_from_string (interpolate headerSig))
                        (Buffer_from_string expected) of
                   Inr equal \<Rightarrow> Inr equal
                 | Inl e \<Rightarrow> Inr False)))"

section \<open>State, effects and the network\<close>

text \<open>
  The body of an outbound request is either an object given by reference (the Buffer of
  the event or of its annotated copy), or the \<^verbatim>\<open>JSON.stringify\<close> of a value; \<open>JsonBody v\<close>
  stands for the string \<^verbatim>\<open>JSON.stringify(v)\<close>. Every request of the proxy is a POST.
\<close>

datatype body = BufferBody nat | JsonBody json

record request =
  req_url :: string
  req_headers :: "(string \<times> string) list"
  req_body :: body

text \<open>What \<^verbatim>\<open>fetch\<close> gives back: a response with a status and a body text, or a
  rejection (a transport failure, with its message).\<close>

datatype response = Response nat string | Unreachable string

definition ok :: "nat \<Rightarrow> bool" where
  "ok status = (200 \<le> status \<and> status \<le> 299)"

text \<open>The observable effects of a handler, in the order the code starts them:
  the status written to the webhook source and the outbound requests.\<close>

datatype effect = Respond nat | Fetch request

text \<open>
  The state of the process: the \<open>handoff\<close> map, the objects passed by reference (a
  reference is an index into the list) and the effects so far.
\<close>

record state =
  handoff :: "json \<rightharpoonup> bool"
  objects :: "object list"
  trace :: "effect list"

definition contents :: "state \<Rightarrow> nat \<Rightarrow> object" where
  "contents st a = (if a < length (objects st) then objects st ! a else Buffer [])"

text \<open>\<^verbatim>\<open>Buffer.from(s)\<close> where the result is kept: a new Buffer.\<close>

definition Buffer_from :: "string \<Rightarrow> state \<Rightarrow> nat \<times> state" where
  "Buffer_from s st =
     (length (objects st), st\<lparr>objects := objects st @ [Buffer (Buffer_from_string s)]\<rparr>)"

text \<open>
  The network is any function from the state of the process at the time of the call
  (which holds every earlier effect) and the request to what \<^verbatim>\<open>fetch\<close> gives back.
\<close>

type_synonym network = "state \<Rightarrow> request \<Rightarrow> response"

definition respond :: "nat \<Rightarrow> state \<Rightarrow> state" where
  "respond status st = st\<lparr>trace := trace st @ [Respond status]\<rparr>"

definition js_fetch :: "network \<Rightarrow> request \<Rightarrow> state \<Rightarrow> (exn + nat \<times> string) \<times> state" where
  "js_fetch net req st =
     (let st1 = st\<lparr>trace := trace st @ [Fetch req]\<rparr>
      in case net st req of
           Unreachable msg \<Rightarrow> (Inl (FetchError msg), st1)
         | Response status txt \<Rightarrow> (Inr (status, txt), st1))"

fun message :: "exn \<Rightarrow> string" where
  "message (FetchError msg) = msg"
| "message TypeError = ''TypeError''"
| "message RangeError = ''RangeError''"

section \<open>Helpers of the servers\<close>

text \<open>\<open>maybeAuthHeader\<close>.\<close>

definition maybeAuthHeader :: "runtime \<Rightarrow> process_env \<Rightarrow> (string \<times> string) list" where
  "maybeAuthHeader rt env =
     (if is_set (N8N_BASIC_USER env) \<and> is_set (N8N_BASIC_PASS env)
      then [(''Authorization'', ''Basic '' @
              base64 rt (interpolate (N8N_BASIC_USER env) @ '':'' @ interpolate (N8N_BASIC_PASS env)))]
      else [])"

text \<open>The object \<open>forwardRawJSON\<close> resolves to: \<^verbatim>\<open>{skipped: true}\<close>, \<^verbatim>\<open>{ok: true}\<close>,
  \<^verbatim>\<open>{ok: false, status}\<close> or \<^verbatim>\<open>{ok: false, error}\<close>.\<close>

datatype forward_result = Skipped | Delivered | Refused nat | Failed string

text \<open>\<open>forwardRawJSON\<close>: the \<^verbatim>\<open>try\<close> block spans the request and the reading of the
  response, so the rejection of \<^verbatim>\<open>fetch\<close> becomes a result.\<close>

definition forward_request :: "string option \<Rightarrow> nat \<Rightarrow> (string \<times> string) list \<Rightarrow> request" where
  "forward_request target rawBody extraHeaders =
     \<lparr>req_url = interpolate target,
      req_headers = (''Content-Type'', ''application/json'') # extraHeaders,
      req_body = BufferBody rawBody\<rparr>"

definition forwardRawJSON ::
  "network \<Rightarrow> string option \<Rightarrow> nat \<Rightarrow> (string \<times> string) list \<Rightarrow> state
     \<Rightarrow> (exn + forward_result) \<times> state" where
  "forwardRawJSON net target rawBody extraHeaders st =
     (if \<not> is_set target then (Inr Skipped, st)
      else
        (case js_fetch net (forward_request target rawBody extraHeaders) st of
           (Inr (status, txt), st1) \<Rightarrow>
             if \<not> ok status then (Inr (Refused status), st1) else (Inr Delivered, st1)
         | (Inl e, st1) \<Rightarrow> (Inr (Failed (message e)), st1)))"

text \<open>The request of \<open>sendWaText\<close> (server.js and the second server of part\_002) and of
  \<open>sendWaTextFromMain\<close> (the first server of part\_002): the same text but for the log line.\<close>

definition wa_text_request :: "process_env \<Rightarrow> json \<Rightarrow> json \<Rightarrow> request" where
  "wa_text_request env waId msg =
     \<lparr>req_url = ''https://graph.facebook.com/v21.0/'' @ interpolate (META_PHONE_NUMBER_ID env)
                  @ ''/messages'',
      req_headers = [(''Authorization'', ''Bearer '' @ interpolate (META_PERM_TOKEN env)),
                     (''Content-Type'', ''application/json'')],
      req_body = JsonBody (JObj [(''messaging_product'', JStr ''whatsapp''), (''to'', waId),
                                 (''type'', JStr ''text''), (''text'', JObj [(''body'', msg)])])\<rparr>"

text \<open>\<open>sendWaText\<close>: no \<^verbatim>\<open>try\<close> block, so a rejection of \<^verbatim>\<open>fetch\<close> leaves the
  function as an exception. A response that is not ok is only logged.\<close>

definition sendWaText ::
  "process_env \<Rightarrow> network \<Rightarrow> json \<Rightarrow> json \<Rightarrow> state \<Rightarrow> (exn + unit) \<times> state" where
  "sendWaText env net waId msg st =
     (case js_fetch net (wa_text_request env waId msg) st of
        (Inr r, st1) \<Rightarrow> (Inr (), st1)
      | (Inl e, st1) \<Rightarrow> (Inl e, st1))"

definition sendWaTextFromMain ::
  "process_env \<Rightarrow> network \<Rightarrow> json \<Rightarrow> json \<Rightarrow> state \<Rightarrow> (exn + unit) \<times> state" where
  "sendWaTextFromMain env net waId msg st =
     (case js_fetch net (wa_text_request env waId msg) st of
        (Inr r, st1) \<Rightarrow> (Inr (), st1)
      | (Inl e, st1) \<Rightarrow> (Inl e, st1))"

text \<open>The request of \<open>getAIReply\<close>.\<close>

definition ai_request :: "runtime \<Rightarrow> process_env \<Rightarrow> json \<Rightarrow> string \<Rightarrow> request" where
  "ai_request rt env waId txt =
     \<lparr>req_url = interpolate (OPENAI_ENDPOINT env),
      req_headers = (''Content-Type'', ''application/json'') # maybeAuthHeader rt env,
      req_body = JsonBody (JObj [(''waId'', waId), (''text'', JStr txt)])\<rparr>"

text \<open>\<open>getAIReply\<close>: everything is inside the \<^verbatim>\<open>try\<close> block. The result is \<open>None\<close> for
  \<^verbatim>\<open>null\<close>, and otherwise the truthy value of the property reply.\<close>

definition getAIReply ::
  "runtime \<Rightarrow> process_env \<Rightarrow> network \<Rightarrow> json \<Rightarrow> string \<Rightarrow> state
     \<Rightarrow> (exn + json option) \<times> state" where
  "getAIReply rt env net waId txt st =
     (case js_fetch net (ai_request rt env waId txt) st of
        (Inr (status, bodyText), st1) \<Rightarrow>
          if \<not> ok status then (Inr None, st1)
          else (case JSON_parse rt bodyText of
                  None \<Rightarrow> (Inr None, st1)
                | Some data \<Rightarrow>
                    (case get_prop data ''reply'' of
                       Inr reply \<Rightarrow> (Inr (if truthy_val reply then reply else None), st1)
                     | Inl e \<Rightarrow> (Inr None, st1)))
      | (Inl e, st1) \<Rightarrow> (Inr None, st1))"

text \<open>\<open>getAISummary\<close> (the second server of part\_002).\<close>

definition summary_request :: "runtime \<Rightarrow> process_env \<Rightarrow> json \<Rightarrow> request" where
  "summary_request rt env waId =
     \<lparr>req_url = interpolate (OPENAI_SUMMARY_ENDPOINT env),
      req_headers = (''Content-Type'', ''application/json'') # maybeAuthHeader rt env,
      req_body = JsonBody (JObj [(''waId'', waId)])\<rparr>"

definition getAISummary ::
  "runtime \<Rightarrow> process_env \<Rightarrow> network \<Rightarrow> json \<Rightarrow> state \<Rightarrow> (exn + json) \<times> state" where
  "getAISummary rt env net waId st =
     (if \<not> is_set (OPENAI_SUMMARY_ENDPOINT env) then (Inr (JStr ''Summary not available.''), st)
      else
        (case js_fetch net (summary_request rt env waId) st of
           (Inr (status, txt), st1) \<Rightarrow>
             if \<not> ok status then (Inr (JStr ''Summary not available.''), st1)
             else (case JSON_parse rt txt of
                     None \<Rightarrow> (Inr (JStr ''Summary not available.''), st1)
                   | Some data \<Rightarrow>
                       (case get_prop data ''summary'' of
                          Inr (Some summary) \<Rightarrow>
                            (Inr (if truthy summary then summary else JStr ''Summary not available.''), st1)
                        | Inr None \<Rightarrow> (Inr (JStr ''Summary not available.''), st1)
                        | Inl e \<Rightarrow> (Inr (JStr ''Summary not available.''), st1)))
         | (Inl e, st1) \<Rightarrow> (Inr (JStr ''Summary not available.''), st1)))"

section \<open>The messages of a payload\<close>

text \<open>\<^verbatim>\<open>x?.entry?.[0]?.changes?.[0]?.value?.messages\<close>, as the three handlers and
  \<open>injectSummaryIntoPayload\<close> write it.\<close>

definition messages_in :: "json \<Rightarrow> jsval" where
  "messages_in x =
     opt_prop (opt_prop (opt_index0 (opt_prop (opt_index0 (opt_prop (Some x) ''entry''))
       ''changes'')) ''value'') ''messages''"

text \<open>\<^verbatim>\<open>... || []\<close>, and what \<^verbatim>\<open>for (const m of messages)\<close> runs over: the elements of
  an array, the characters of a string; any other truthy value is not iterable.\<close>

definition or_empty :: "jsval \<Rightarrow> json" where
  "or_empty v = (case v of None \<Rightarrow> JArr [] | Some x \<Rightarrow> if truthy x then x else JArr [])"

definition or_else_empty_string :: "jsval \<Rightarrow> json" where
  "or_else_empty_string v = (case v of None \<Rightarrow> JStr [] | Some x \<Rightarrow> if truthy x then x else JStr [])"

fun iterate :: "json \<Rightarrow> exn + json list" where
  "iterate (JArr xs) = Inr xs"
| "iterate (JStr s) = Inr (map (\<lambda>c. JStr [c]) s)"
| "iterate v = Inl TypeError"

text \<open>
  \<^verbatim>\<open>String.prototype.trim\<close> removes the code points WhiteSpace and LineTerminator of
  ECMAScript from both ends of the string. In UTF-8 they are: U+0009 to U+000D, U+0020,
  U+00A0, U+1680, U+2000 to U+200A, U+2028, U+2029, U+202F, U+205F, U+3000 and U+FEFF.
\<close>

definition white_space :: "string list" where
  "white_space =
     [[CHR 0x09], [CHR 0x0A], [CHR 0x0B], [CHR 0x0C], [CHR 0x0D], [CHR 0x20],
      [CHR 0xC2, CHR 0xA0], [CHR 0xE1, CHR 0x9A, CHR 0x80],
      [CHR 0xE2, CHR 0x80, CHR 0x80], [CHR 0xE2, CHR 0x80, CHR 0x81],
      [CHR 0xE2, CHR 0x80, CHR 0x82], [CHR 0xE2, CHR 0x80, CHR 0x83],
      [CHR 0xE2, CHR 0x80, CHR 0x84], [CHR 0xE2, CHR 0x80, CHR 0x85],
      [CHR 0xE2, CHR 0x80, CHR 0x86], [CHR 0xE2, CHR 0x80, CHR 0x87],
      [CHR 0xE2, CHR 0x80, CHR 0x88], [CHR 0xE2, CHR 0x80, CHR 0x89],
      [CHR 0xE2, CHR 0x80, CHR 0x8A], [CHR 0xE2, CHR 0x80, CHR 0xA8],
      [CHR 0xE2, CHR 0x80, CHR 0xA9], [CHR 0xE2, CHR 0x80, CHR 0xAF],
      [CHR 0xE2, CHR 0x81, CHR 0x9F], [CHR 0xE3, CHR 0x80, CHR 0x80],
      [CHR 0xEF, CHR 0xBB, CHR 0xBF]]"

text \<open>Removing from the start of a string, as long as there is one, the code point
  whose encoding is in the list: \<open>w\<close> starts with \<open>c\<close>, and the rest of \<open>w\<close> is dropped
  from \<open>s\<close>.\<close>

fun strip :: "string list \<Rightarrow> string \<Rightarrow> string" where
  "strip ws [] = []"
| "strip ws (c # s) =
     (case find (\<lambda>w. prefix w (c # s)) ws of
        None \<Rightarrow> c # s
      | Some w \<Rightarrow> strip ws (drop (length w - 1) s))"

text \<open>The end of the string is trimmed on the reversed string, with the encodings
  reversed: in well-formed UTF-8 a string ends with the bytes of a code point only if
  that code point is its last one.\<close>

definition js_trim :: "string \<Rightarrow> string" where
  "js_trim s = rev (strip (map rev white_space) (rev (strip white_space s)))"

text \<open>
  The head of the loop body, the same in the three handlers:
  \<^verbatim>\<open>if (m.type !== "text") continue; const waId = m.from;
  const text = (m.text?.body || "").trim(); if (!waId || !text) continue;\<close>
  The result is an exception (\<open>m\<close> is \<^verbatim>\<open>null\<close>, or the body is a truthy value without
  a method trim), \<open>None\<close> for \<^verbatim>\<open>continue\<close>, or the pair of \<open>waId\<close> and \<open>text\<close>.
\<close>

definition text_message :: "json \<Rightarrow> exn + (json \<times> string) option" where
  "text_message m =
     (case get_prop m ''type'' of
        Inl e \<Rightarrow> Inl e
      | Inr ty \<Rightarrow>
          if ty \<noteq> Some (JStr ''text'') then Inr None
          else
            (case or_else_empty_string (opt_prop (property m ''text'') ''body'') of
               JStr s \<Rightarrow>
                 (case property m ''from'' of
                    None \<Rightarrow> Inr None
                  | Some waId \<Rightarrow>
                      if \<not> truthy waId \<or> js_trim s = [] then Inr None
                      else Inr (Some (waId, js_trim s)))
             | v \<Rightarrow> Inl TypeError))"

section \<open>Injection of the summary\<close>

text \<open>
  \<^verbatim>\<open>JSON.parse\<close> gives a tree of fresh objects, and the assignment
  \<^verbatim>\<open>m.text.body = ...\<close> changes the object \<open>m\<close> inside it. In the model the change is
  written back along the path the message was read from.
\<close>

fun assign :: "string \<Rightarrow> json \<Rightarrow> (string \<times> json) list \<Rightarrow> (string \<times> json) list" where
  "assign k v [] = [(k, v)]"
| "assign k v ((k', v') # fs) = (if k' = k then (k, v) # fs else (k', v') # assign k v fs)"

fun modify_prop :: "string \<Rightarrow> (json \<Rightarrow> json) \<Rightarrow> json \<Rightarrow> json" where
  "modify_prop k f (JObj fs) =
     (case map_of fs k of None \<Rightarrow> JObj fs | Some v \<Rightarrow> JObj (assign k (f v) fs))"
| "modify_prop k f v = v"

fun modify_index0 :: "(json \<Rightarrow> json) \<Rightarrow> json \<Rightarrow> json" where
  "modify_index0 f (JArr xs) = (case xs of [] \<Rightarrow> JArr [] | x # rest \<Rightarrow> JArr (f x # rest))"
| "modify_index0 f (JObj fs) = modify_prop ''0'' f (JObj fs)"
| "modify_index0 f v = v"

definition modify_messages :: "(json \<Rightarrow> json) \<Rightarrow> json \<Rightarrow> json" where
  "modify_messages f x =
     modify_prop ''entry'' (modify_index0 (modify_prop ''changes'' (modify_index0
       (modify_prop ''value'' (modify_prop ''messages'' f))))) x"

text \<open>A value inside a template literal.\<close>

definition js_String :: "runtime \<Rightarrow> json \<Rightarrow> string" where
  "js_String rt v = (case v of JStr s \<Rightarrow> s | other \<Rightarrow> ToString rt other)"

text \<open>The test \<^verbatim>\<open>m?.type === "text" && m?.text?.body\<close> and the assignment to
  \<^verbatim>\<open>m.text.body\<close>.\<close>

definition has_text_body :: "json \<Rightarrow> bool" where
  "has_text_body m =
     (opt_prop (Some m) ''type'' = Some (JStr ''text'')
      \<and> truthy_val (opt_prop (opt_prop (Some m) ''text'') ''body''))"

definition annotate :: "runtime \<Rightarrow> string \<Rightarrow> json \<Rightarrow> json" where
  "annotate rt placeholderSummary m =
     modify_prop ''text'' (modify_prop ''body'' (\<lambda>b. JStr (js_String rt b
        @ [CHR 0x0A, CHR 0x0A] @ ''---'' @ [CHR 0x0A] @ ''[Summary for agents]'' @ [CHR 0x0A]
        @ placeholderSummary))) m"

text \<open>The loop over \<open>msgs\<close>: the first text message is changed, then \<^verbatim>\<open>break\<close>.\<close>

fun inject_first :: "runtime \<Rightarrow> string \<Rightarrow> json list \<Rightarrow> json list" where
  "inject_first rt placeholderSummary [] = []"
| "inject_first rt placeholderSummary (m # ms) =
     (if has_text_body m then annotate rt placeholderSummary m # ms
      else m # inject_first rt placeholderSummary ms)"

definition inject_object :: "runtime \<Rightarrow> string \<Rightarrow> json \<Rightarrow> json" where
  "inject_object rt placeholderSummary obj =
     (case messages_in obj of
        Some (JArr msgs) \<Rightarrow>
          modify_messages (\<lambda>old. JArr (inject_first rt placeholderSummary msgs)) obj
      | other \<Rightarrow> obj)"

text \<open>\<open>injectSummaryIntoPayload\<close>: the result is a new Buffer, or \<open>rawBuffer\<close> itself when
  the \<^verbatim>\<open>catch\<close> block runs.\<close>

definition injectSummaryIntoPayload :: "runtime \<Rightarrow> nat \<Rightarrow> string \<Rightarrow> state \<Rightarrow> nat \<times> state" where
  "injectSummaryIntoPayload rt rawBuffer placeholderSummary st =
     (case JSON_parse rt (toString rt (contents st rawBuffer)) of
        Some obj \<Rightarrow> Buffer_from (JSON_stringify rt (inject_object rt placeholderSummary obj)) st
      | None \<Rightarrow> (rawBuffer, st))"

section \<open>Handoff\<close>

text \<open>
  \<open>handoffRegex\<close>: the source of the pattern is computed from the variable once, at
  start. \<^verbatim>\<open>split\<close> gives one field more than there are commas.
\<close>

fun split_on :: "char \<Rightarrow> string \<Rightarrow> string list" where
  "split_on c [] = [[]]"
| "split_on c (x # xs) =
     (if x = c then [] # split_on c xs
      else (case split_on c xs of [] \<Rightarrow> [[x]] | w # ws \<Rightarrow> (x # w) # ws))"

fun join :: "string \<Rightarrow> string list \<Rightarrow> string" where
  "join sep [] = []"
| "join sep [w] = w"
| "join sep (w # v # ws) = w @ sep @ join sep (v # ws)"

definition handoff_keywords :: "process_env \<Rightarrow> string" where
  "handoff_keywords env =
     (case HANDOFF_KEYWORDS env of
        None \<Rightarrow> ''human,agent,representative,support,help''
      | Some s \<Rightarrow> s)"

definition handoffRegex_source :: "process_env \<Rightarrow> string" where
  "handoffRegex_source env =
     join ''|'' (filter (\<lambda>s. s \<noteq> []) (map js_trim (split_on CHR '','' (handoff_keywords env))))"

definition handoffRegex_test :: "runtime \<Rightarrow> process_env \<Rightarrow> string \<Rightarrow> bool" where
  "handoffRegex_test rt env txt = RegExp_test rt (handoffRegex_source env) txt"

text \<open>
  The \<open>handoff\<close> Map compares keys as \<^verbatim>\<open>===\<close> does. An array or an object is equal to
  itself only, and every parse makes new ones: an entry under such a key is never found
  again, and the model leaves it out.
\<close>

fun by_identity :: "json \<Rightarrow> bool" where
  "by_identity (JArr xs) = True"
| "by_identity (JObj fs) = True"
| "by_identity v = False"

definition Map_set :: "(json \<rightharpoonup> bool) \<Rightarrow> json \<Rightarrow> bool \<Rightarrow> (json \<rightharpoonup> bool)" where
  "Map_set m k v = (if by_identity k then m else m(k \<mapsto> v))"

definition Map_get :: "(json \<rightharpoonup> bool) \<Rightarrow> json \<Rightarrow> bool option" where
  "Map_get m k = (if by_identity k then None else m k)"

definition in_handoff :: "state \<Rightarrow> json \<Rightarrow> bool" where
  "in_handoff st waId = (Map_get (handoff st) waId = Some True)"

text \<open>\<open>sendTemplateFrom3cxNumber\<close> (the first server of part\_002): neither request is
  inside a \<^verbatim>\<open>try\<close> block.\<close>

definition three_cx_request :: "process_env \<Rightarrow> json \<Rightarrow> request" where
  "three_cx_request env payload =
     \<lparr>req_url = ''https://graph.facebook.com/v21.0/''
                  @ interpolate (THREE_CX_META_PHONE_NUMBER_ID env) @ ''/messages'',
      req_headers = [(''Authorization'', ''Bearer '' @ interpolate (THREE_CX_META_PERM_TOKEN env)),
                     (''Content-Type'', ''application/json'')],
      req_body = JsonBody payload\<rparr>"

definition template_payload :: "process_env \<Rightarrow> json \<Rightarrow> json" where
  "template_payload env to =
     JObj [(''messaging_product'', JStr ''whatsapp''), (''to'', to), (''type'', JStr ''template''),
           (''template'', JObj [(''name'', JStr (interpolate (HANDOFF_TEMPLATE_NAME env))),
              (''language'', JObj [(''code'',
                 JStr (if is_set (HANDOFF_TEMPLATE_LANG env)
                       then interpolate (HANDOFF_TEMPLATE_LANG env) else ''en''))])])]"

definition free_form_payload :: "json \<Rightarrow> json" where
  "free_form_payload to =
     JObj [(''messaging_product'', JStr ''whatsapp''), (''to'', to), (''type'', JStr ''text''),
           (''text'', JObj [(''body'', JStr ''A human will assist you shortly.'')])]"

definition send_free_form ::
  "process_env \<Rightarrow> network \<Rightarrow> json \<Rightarrow> state \<Rightarrow> (exn + bool) \<times> state" where
  "send_free_form env net to st =
     (case js_fetch net (three_cx_request env (free_form_payload to)) st of
        (Inr (status, txt), st1) \<Rightarrow> if \<not> ok status then (Inr False, st1) else (Inr True, st1)
      | (Inl e, st1) \<Rightarrow> (Inl e, st1))"

definition sendTemplateFrom3cxNumber ::
  "process_env \<Rightarrow> network \<Rightarrow> json \<Rightarrow> state \<Rightarrow> (exn + bool) \<times> state" where
  "sendTemplateFrom3cxNumber env net to st =
     (if \<not> is_set (THREE_CX_META_PHONE_NUMBER_ID env) \<or> \<not> is_set (THREE_CX_META_PERM_TOKEN env)
      then (Inr False, st)
      else if is_set (HANDOFF_TEMPLATE_NAME env) then
        (case js_fetch net (three_cx_request env (template_payload env to)) st of
           (Inr (status, txt), st1) \<Rightarrow>
             if \<not> ok status then send_free_form env net to st1 else (Inr True, st1)
         | (Inl e, st1) \<Rightarrow> (Inl e, st1))
      else send_free_form env net to st)"

section \<open>The webhook handlers\<close>

text \<open>
  \<^verbatim>\<open>for (const m of messages) { ... }\<close> with a body that awaits: an exception in the body
  ends the loop and the handler; \<^verbatim>\<open>continue\<close> is the body returning early.
\<close>

fun for_of ::
  "('a \<Rightarrow> state \<Rightarrow> (exn + unit) \<times> state) \<Rightarrow> 'a list \<Rightarrow> state \<Rightarrow> (exn + unit) \<times> state" where
  "for_of step [] st = (Inr (), st)"
| "for_of step (m # ms) st =
     (case step m st of
        (Inr u, st1) \<Rightarrow> for_of step ms st1
      | (Inl e, st1) \<Rightarrow> (Inl e, st1))"

text \<open>\<^verbatim>\<open>Promise.allSettled([forwardRawJSON(...), ...])\<close>: the calls are made one after the
  other while the array is built, each up to its \<^verbatim>\<open>fetch\<close>; none waits for another.\<close>

fun fan_out ::
  "network \<Rightarrow> (string option \<times> (string \<times> string) list) list \<Rightarrow> nat \<Rightarrow> state
     \<Rightarrow> (exn + forward_result) list \<times> state" where
  "fan_out net [] raw st = ([], st)"
| "fan_out net ((target, extraHeaders) # targets) raw st =
     (case forwardRawJSON net target raw extraHeaders st of
        (r, st1) \<Rightarrow> (case fan_out net targets raw st1 of (rs, st2) \<Rightarrow> (r # rs, st2)))"

definition chatwoot_headers :: "process_env \<Rightarrow> (string \<times> string) list" where
  "chatwoot_headers env =
     (if is_set (CHATWOOT_WEBHOOK_TOKEN env)
      then [(''X-Chatwoot-Webhook-Token'', interpolate (CHATWOOT_WEBHOOK_TOKEN env))]
      else [])"

text \<open>
  The process serves the events one after the other. For each one body-parser makes a
  new object of the body (a Buffer, or the empty object when it parses nothing) and the
  handler runs; what the handler returns is dropped. (The handlers of two events are not
  interleaved here.)
\<close>

fun serve ::
  "(string option \<Rightarrow> nat \<Rightarrow> state \<Rightarrow> (exn + unit) \<times> state) \<Rightarrow> (string option \<times> object) list
     \<Rightarrow> state \<Rightarrow> state" where
  "serve handler [] st = st"
| "serve handler ((sig, rawBody) # events) st =
     serve handler events
       (snd (handler sig (length (objects st)) (st\<lparr>objects := objects st @ [rawBody]\<rparr>)))"

subsection \<open>src/server.js\<close>

definition route_message_n8n ::
  "runtime \<Rightarrow> process_env \<Rightarrow> network \<Rightarrow> json \<Rightarrow> state \<Rightarrow> (exn + unit) \<times> state" where
  "route_message_n8n rt env net m st =
     (case text_message m of
        Inl e \<Rightarrow> (Inl e, st)
      | Inr None \<Rightarrow> (Inr (), st)
      | Inr (Some (waId, txt)) \<Rightarrow>
          (case getAIReply rt env net waId txt st of
             (Inr None, st1) \<Rightarrow> (Inr (), st1)
           | (Inr (Some reply), st1) \<Rightarrow> sendWaText env net waId reply st1
           | (Inl e, st1) \<Rightarrow> (Inl e, st1)))"

definition post_wa_n8n ::
  "runtime \<Rightarrow> process_env \<Rightarrow> network \<Rightarrow> string option \<Rightarrow> nat \<Rightarrow> state \<Rightarrow> (exn + unit) \<times> state" where
  "post_wa_n8n rt env net sig raw st =
     (case verifySignature rt env (contents st raw) sig of
        Inl e \<Rightarrow> (Inl e, st)
      | Inr False \<Rightarrow> (Inr (), respond 401 st)
      | Inr True \<Rightarrow>
          (let st1 = respond 200 st;
               st2 = (if is_set (CHATWOOT_WEBHOOK_URL env)
                      then snd (forwardRawJSON net (CHATWOOT_WEBHOOK_URL env) raw
                                  (chatwoot_headers env) st1)
                      else st1)
           in case JSON_parse rt (toString rt (contents st2 raw)) of
                None \<Rightarrow> (Inr (), st2)
              | Some payload \<Rightarrow>
                  (case iterate (or_empty (messages_in payload)) of
                     Inl e \<Rightarrow> (Inl e, st2)
                   | Inr messages \<Rightarrow> for_of (route_message_n8n rt env net) messages st2)))"

subsection \<open>src/unnamed/part\_002, first server: handoff to 3CX\<close>

definition route_message_3cx ::
  "runtime \<Rightarrow> process_env \<Rightarrow> network \<Rightarrow> nat \<Rightarrow> json \<Rightarrow> state \<Rightarrow> (exn + unit) \<times> state" where
  "route_message_3cx rt env net raw m st =
     (case text_message m of
        Inl e \<Rightarrow> (Inl e, st)
      | Inr None \<Rightarrow> (Inr (), st)
      | Inr (Some (waId, txt)) \<Rightarrow>
          if handoffRegex_test rt env txt then
            (let st1 = st\<lparr>handoff := Map_set (handoff st) waId True\<rparr>
             in case (if is_set (THREE_CX_WEBHOOK_URL env)
                      then (case injectSummaryIntoPayload rt raw ''this is the summary'' st1 of
                              (injectedRaw, st2) \<Rightarrow>
                                forwardRawJSON net (THREE_CX_WEBHOOK_URL env) injectedRaw [] st2)
                      else (Inr Skipped, st1)) of
                  (Inl e, st3) \<Rightarrow> (Inl e, st3)
                | (Inr forwarded, st3) \<Rightarrow>
                    (case sendTemplateFrom3cxNumber env net waId st3 of
                       (Inr sent, st4) \<Rightarrow> (Inr (), st4)
                     | (Inl e, st4) \<Rightarrow> (Inl e, st4)))
          else if Map_get (handoff st) waId \<noteq> Some True then
            (case getAIReply rt env net waId txt st of
               (Inr None, st1) \<Rightarrow> (Inr (), st1)
             | (Inr (Some reply), st1) \<Rightarrow> sendWaTextFromMain env net waId reply st1
             | (Inl e, st1) \<Rightarrow> (Inl e, st1))
          else (Inr (), st))"

definition post_wa_3cx ::
  "runtime \<Rightarrow> process_env \<Rightarrow> network \<Rightarrow> string option \<Rightarrow> nat \<Rightarrow> state \<Rightarrow> (exn + unit) \<times> state" where
  "post_wa_3cx rt env net sig raw st =
     (case verifySignature rt env (contents st raw) sig of
        Inl e \<Rightarrow> (Inl e, st)
      | Inr False \<Rightarrow> (Inr (), respond 401 st)
      | Inr True \<Rightarrow>
          (let st1 = respond 200 st;
               st2 = snd (fan_out net [(CHATWOOT_WEBHOOK_URL env, chatwoot_headers env)] raw st1)
           in case JSON_parse rt (toString rt (contents st2 raw)) of
                None \<Rightarrow> (Inr (), st2)
              | Some payload \<Rightarrow>
                  (case iterate (or_empty (messages_in payload)) of
                     Inl e \<Rightarrow> (Inl e, st2)
                   | Inr messages \<Rightarrow> for_of (route_message_3cx rt env net raw) messages st2)))"

subsection \<open>src/unnamed/part\_002, second server: handoff with a summary\<close>

text \<open>The text of the first handoff message, as the bytes the source file holds.\<close>

definition connecting_text :: string where
  "connecting_text =
     ''Okay '' @ [CHR 0xC3, CHR 0xA2, CHR 0xE2, CHR 0x82, CHR 0xAC, CHR 0xE2, CHR 0x80, CHR 0x9D]
     @ '' connecting you with a human.''"

definition route_message_summary ::
  "runtime \<Rightarrow> process_env \<Rightarrow> network \<Rightarrow> json \<Rightarrow> state \<Rightarrow> (exn + unit) \<times> state" where
  "route_message_summary rt env net m st =
     (case text_message m of
        Inl e \<Rightarrow> (Inl e, st)
      | Inr None \<Rightarrow> (Inr (), st)
      | Inr (Some (waId, txt)) \<Rightarrow>
          if handoffRegex_test rt env txt then
            (let st1 = st\<lparr>handoff := Map_set (handoff st) waId True\<rparr>
             in case sendWaText env net waId (JStr connecting_text) st1 of
                  (Inl e, st2) \<Rightarrow> (Inl e, st2)
                | (Inr u, st2) \<Rightarrow>
                    (case getAISummary rt env net waId st2 of
                       (Inl e, st3) \<Rightarrow> (Inl e, st3)
                     | (Inr summary, st3) \<Rightarrow>
                         sendWaText env net waId
                           (JStr (''Summary so far:'' @ [CHR 0x0A] @ js_String rt summary)) st3))
          else if Map_get (handoff st) waId \<noteq> Some True then
            (case getAIReply rt env net waId txt st of
               (Inr None, st1) \<Rightarrow> (Inr (), st1)
             | (Inr (Some reply), st1) \<Rightarrow> sendWaText env net waId reply st1
             | (Inl e, st1) \<Rightarrow> (Inl e, st1))
          else (Inr (), st))"

definition post_wa_summary ::
  "runtime \<Rightarrow> process_env \<Rightarrow> network \<Rightarrow> string option \<Rightarrow> nat \<Rightarrow> state \<Rightarrow> (exn + unit) \<times> state" where
  "post_wa_summary rt env net sig raw st =
     (case verifySignature rt env (contents st raw) sig of
        Inl e \<Rightarrow> (Inl e, st)
      | Inr False \<Rightarrow> (Inr (), respond 401 st)
      | Inr True \<Rightarrow>
          (let st1 = respond 200 st;
               st2 = snd (fan_out net [(THREE_CX_WEBHOOK_URL env, []),
                                       (CHATWOOT_WEBHOOK_URL env, chatwoot_headers env)] raw st1)
           in case JSON_parse rt (toString rt (contents st2 raw)) of
                None \<Rightarrow> (Inr (), st2)
              | Some payload \<Rightarrow>
                  (case iterate (or_empty (messages_in payload)) of
                     Inl e \<Rightarrow> (Inl e, st2)
                   | Inr messages \<Rightarrow> for_of (route_message_summary rt env net) messages st2)))"

section \<open>A runtime for examples\<close>

text \<open>
  To run the handlers on concrete events the platform functions are given for a fragment
  of their inputs: JSON texts of objects (no key made of digits only, which JavaScript
  would reorder), arrays, strings (with the short escapes), integers of at most fifteen
  digits and the three literals; patterns that are alternatives of literal characters;
  Buffers holding well-formed UTF-8. The digest is a stand-in (the key, a stroke, the
  data), not a hash: the examples only need a header that verifies. The general theorems
  do not use this runtime: they hold for every runtime.
\<close>

definition json_space :: "char \<Rightarrow> bool" where
  "json_space c = List.member [CHR 0x20, CHR 0x09, CHR 0x0A, CHR 0x0D] c"

definition skip_ws :: "string \<Rightarrow> string" where
  "skip_ws s = dropWhile json_space s"

definition unescape :: "char \<Rightarrow> char option" where
  "unescape e =
     (if e = CHR 0x22 then Some (CHR 0x22)
      else if e = CHR 0x5C then Some (CHR 0x5C)
      else if e = CHR ''/'' then Some (CHR ''/'')
      else if e = CHR ''b'' then Some (CHR 0x08)
      else if e = CHR ''f'' then Some (CHR 0x0C)
      else if e = CHR ''n'' then Some (CHR 0x0A)
      else if e = CHR ''r'' then Some (CHR 0x0D)
      else if e = CHR ''t'' then Some (CHR 0x09)
      else None)"

text \<open>The characters of a string literal after its opening quote, and what follows the
  closing quote.\<close>

fun scan_string :: "string \<Rightarrow> (string \<times> string) option" where
  "scan_string [] = None"
| "scan_string [c] = (if c = CHR 0x22 then Some ([], []) else None)"
| "scan_string (c # d # cs) =
     (if c = CHR 0x22 then Some ([], d # cs)
      else if c = CHR 0x5C then
        (case unescape d of
           None \<Rightarrow> None
         | Some x \<Rightarrow> (case scan_string cs of None \<Rightarrow> None | Some (s, r) \<Rightarrow> Some (x # s, r)))
      else if (of_char c :: nat) < 0x20 then None
      else (case scan_string (d # cs) of None \<Rightarrow> None | Some (s, r) \<Rightarrow> Some (c # s, r)))"

definition is_digit :: "char \<Rightarrow> bool" where
  "is_digit c = (48 \<le> (of_char c :: nat) \<and> (of_char c :: nat) \<le> 57)"

definition digits_value :: "string \<Rightarrow> int" where
  "digits_value ds = foldl (\<lambda>n d. 10 * n + (int (of_char d) - 48)) 0 ds"

definition scan_digits :: "string \<Rightarrow> (int \<times> string) option" where
  "scan_digits cs =
     (let ds = takeWhile is_digit cs; rest = dropWhile is_digit cs
      in if ds = [] \<or> 15 < length ds \<or> (1 < length ds \<and> hd ds = CHR ''0'') then None
         else (case rest of
                 [] \<Rightarrow> Some (digits_value ds, [])
               | c # r \<Rightarrow> if List.member ''.eE'' c then None else Some (digits_value ds, rest)))"

definition scan_number :: "string \<Rightarrow> (json \<times> string) option" where
  "scan_number cs =
     (case cs of
        [] \<Rightarrow> None
      | c # rest \<Rightarrow>
          if c = CHR ''-'' then map_option (\<lambda>(n, r). (JNum (- n), r)) (scan_digits rest)
          else map_option (\<lambda>(n, r). (JNum n, r)) (scan_digits cs))"

definition scan_literal :: "string \<Rightarrow> (json \<times> string) option" where
  "scan_literal cs =
     (if take 4 cs = ''true'' then Some (JBool True, drop 4 cs)
      else if take 5 cs = ''false'' then Some (JBool False, drop 5 cs)
      else if take 4 cs = ''null'' then Some (JNull, drop 4 cs)
      else scan_number cs)"

text \<open>A key that comes again keeps its first place and takes the later value.\<close>

definition add_member :: "string \<Rightarrow> json \<Rightarrow> (string \<times> json) list \<Rightarrow> (string \<times> json) list" where
  "add_member k v later =
     (case map_of later k of
        None \<Rightarrow> (k, v) # later
      | Some w \<Rightarrow> (k, w) # filter (\<lambda>p. fst p \<noteq> k) later)"

text \<open>Recursive descent; the first argument bounds the number of nested calls, and twice
  the length of the text is always enough.\<close>

fun parse_value :: "nat \<Rightarrow> string \<Rightarrow> (json \<times> string) option"
  and parse_elements :: "nat \<Rightarrow> string \<Rightarrow> (json list \<times> string) option"
  and parse_members :: "nat \<Rightarrow> string \<Rightarrow> ((string \<times> json) list \<times> string) option" where
  "parse_value 0 cs = None"
| "parse_value (Suc n) cs =
     (case skip_ws cs of
        [] \<Rightarrow> None
      | c # rest \<Rightarrow>
          if c = CHR ''['' then
            (case skip_ws rest of
               [] \<Rightarrow> None
             | d # r \<Rightarrow>
                 if d = CHR '']'' then Some (JArr [], r)
                 else map_option (\<lambda>(xs, r'). (JArr xs, r')) (parse_elements n (d # r)))
          else if c = CHR ''{'' then
            (case skip_ws rest of
               [] \<Rightarrow> None
             | d # r \<Rightarrow>
                 if d = CHR ''}'' then Some (JObj [], r)
                 else map_option (\<lambda>(fs, r'). (JObj fs, r')) (parse_members n (d # r)))
          else if c = CHR 0x22 then map_option (\<lambda>(s, r). (JStr s, r)) (scan_string rest)
          else scan_literal (c # rest))"
| "parse_elements 0 cs = None"
| "parse_elements (Suc n) cs =
     (case parse_value n cs of
        None \<Rightarrow> None
      | Some (x, rest) \<Rightarrow>
          (case skip_ws rest of
             [] \<Rightarrow> None
           | c # r \<Rightarrow>
               if c = CHR '']'' then Some ([x], r)
               else if c = CHR '','' then
                 map_option (\<lambda>(xs, r'). (x # xs, r')) (parse_elements n r)
               else None))"
| "parse_members 0 cs = None"
| "parse_members (Suc n) cs =
     (case skip_ws cs of
        [] \<Rightarrow> None
      | q # afterq \<Rightarrow>
          if q \<noteq> CHR 0x22 then None
          else
            (case scan_string afterq of
               None \<Rightarrow> None
             | Some (k, afterk) \<Rightarrow>
                 if k \<noteq> [] \<and> list_all is_digit k then None
                 else
                   (case skip_ws afterk of
                      [] \<Rightarrow> None
                    | colon # afterc \<Rightarrow>
                        if colon \<noteq> CHR '':'' then None
                        else
                          (case parse_value n afterc of
                             None \<Rightarrow> None
                           | Some (v, rest) \<Rightarrow>
                               (case skip_ws rest of
                                  [] \<Rightarrow> None
                                | c # r \<Rightarrow>
                                    if c = CHR ''}'' then Some ([(k, v)], r)
                                    else if c = CHR '','' then
                                      map_option (\<lambda>(fs, r'). (add_member k v fs, r'))
                                        (parse_members n r)
                                    else None)))))"

definition JSON_parse_lite :: "string \<Rightarrow> json option" where
  "JSON_parse_lite s =
     (case parse_value (length s + length s) s of
        None \<Rightarrow> None
      | Some (v, rest) \<Rightarrow> if skip_ws rest = [] then Some v else None)"

text \<open>\<^verbatim>\<open>JSON.stringify\<close>: no whitespace, and the escapes it writes inside a string.\<close>

definition hex_digit :: "nat \<Rightarrow> char" where
  "hex_digit n = ''0123456789abcdef'' ! (n mod 16)"

definition escape_char :: "char \<Rightarrow> string" where
  "escape_char c =
     (if c = CHR 0x22 then [CHR 0x5C, CHR 0x22]
      else if c = CHR 0x5C then [CHR 0x5C, CHR 0x5C]
      else if c = CHR 0x08 then [CHR 0x5C, CHR ''b'']
      else if c = CHR 0x0C then [CHR 0x5C, CHR ''f'']
      else if c = CHR 0x0A then [CHR 0x5C, CHR ''n'']
      else if c = CHR 0x0D then [CHR 0x5C, CHR ''r'']
      else if c = CHR 0x09 then [CHR 0x5C, CHR ''t'']
      else if (of_char c :: nat) < 0x20
        then [CHR 0x5C, CHR ''u'', CHR ''0'', CHR ''0'', hex_digit (of_char c div 16), hex_digit (of_char c)]
      else [c])"

definition quote :: "string \<Rightarrow> string" where
  "quote s = [CHR 0x22] @ concat (map escape_char s) @ [CHR 0x22]"

fun decimal_digits :: "nat \<Rightarrow> nat \<Rightarrow> string" where
  "decimal_digits 0 n = []"
| "decimal_digits (Suc fuel) n =
     (if n < 10 then [hex_digit n] else decimal_digits fuel (n div 10) @ [hex_digit (n mod 10)])"

definition decimal :: "int \<Rightarrow> string" where
  "decimal n = (if n < 0 then ''-'' @ decimal_digits 16 (nat (- n)) else decimal_digits 16 (nat n))"

fun stringify_lite :: "json \<Rightarrow> string" where
  "stringify_lite JNull = ''null''"
| "stringify_lite (JBool b) = (if b then ''true'' else ''false'')"
| "stringify_lite (JNum n) = decimal n"
| "stringify_lite (JStr s) = quote s"
| "stringify_lite (JArr xs) = ''['' @ join '','' (map stringify_lite xs) @ '']''"
| "stringify_lite (JObj fs) =
     ''{'' @ join '','' (map (\<lambda>(k, v). quote k @ '':'' @ stringify_lite v) fs) @ ''}''"

text \<open>The string a value becomes inside a template literal.\<close>

fun ToString_lite :: "json \<Rightarrow> string" where
  "ToString_lite JNull = ''null''"
| "ToString_lite (JBool b) = (if b then ''true'' else ''false'')"
| "ToString_lite (JNum n) = decimal n"
| "ToString_lite (JStr s) = s"
| "ToString_lite (JArr xs) =
     join '','' (map (\<lambda>x. if x = JNull then [] else ToString_lite x) xs)"
| "ToString_lite (JObj fs) = ''[object Object]''"

text \<open>A pattern of literal alternatives, matched without regard to the case of ASCII
  letters: one alternative has to occur somewhere in the text. The empty pattern has the
  empty alternative, which occurs in every text.\<close>

definition lower :: "char \<Rightarrow> char" where
  "lower c = (if 65 \<le> (of_char c :: nat) \<and> (of_char c :: nat) \<le> 90 then char_of (of_char c + 32 :: nat) else c)"

definition RegExp_test_lite :: "string \<Rightarrow> string \<Rightarrow> bool" where
  "RegExp_test_lite source txt =
     list_ex (\<lambda>alternative. sublist (map lower alternative) (map lower txt))
       (split_on CHR ''|'' source)"

definition base64_digit :: "nat \<Rightarrow> char" where
  "base64_digit n =
     ''ABCDEFGHIJKLMNOPQRSTUVWXYZabcdefghijklmnopqrstuvwxyz0123456789+/'' ! (n mod 64)"

fun base64_lite :: "string \<Rightarrow> string" where
  "base64_lite [] = []"
| "base64_lite [a] =
     (let x = of_char a :: nat
      in [base64_digit (x div 4), base64_digit ((x mod 4) * 16), CHR ''='', CHR ''=''])"
| "base64_lite [a, b] =
     (let x = of_char a :: nat; y = of_char b :: nat
      in [base64_digit (x div 4), base64_digit ((x mod 4) * 16 + y div 16),
          base64_digit ((y mod 16) * 4), CHR ''=''])"
| "base64_lite (a # b # c # rest) =
     (let x = of_char a :: nat; y = of_char b :: nat; z = of_char c :: nat
      in [base64_digit (x div 4), base64_digit ((x mod 4) * 16 + y div 16),
          base64_digit ((y mod 16) * 4 + z div 64), base64_digit (z mod 64)] @ base64_lite rest)"

definition digest_stand_in :: "string \<Rightarrow> bytes \<Rightarrow> string" where
  "digest_stand_in k d = k @ ''/'' @ d"

definition lite :: runtime where
  "lite =
     \<lparr>hmac_sha256_hex = digest_stand_in,
      toString_utf8 = (\<lambda>bs. bs),
      JSON_parse = JSON_parse_lite,
      JSON_stringify = stringify_lite,
      base64 = base64_lite,
      ToString = ToString_lite,
      RegExp_test = RegExp_test_lite\<rparr>"

text \<open>A configuration for the examples: every integration is switched on.\<close>

definition example_env :: process_env where
  "example_env =
     \<lparr>VERIFY_TOKEN = Some ''verify-me'',
      META_APP_SECRET = Some ''s3cret'',
      META_PERM_TOKEN = Some ''main-token'',
      META_PHONE_NUMBER_ID = Some ''100'',
      CHATWOOT_WEBHOOK_URL = Some ''http://chatwoot/hook'',
      CHATWOOT_WEBHOOK_TOKEN = Some ''cw-token'',
      OPENAI_ENDPOINT = Some ''http://n8n/reply'',
      OPENAI_SUMMARY_ENDPOINT = Some ''http://n8n/summary'',
      N8N_BASIC_USER = None,
      N8N_BASIC_PASS = None,
      HANDOFF_KEYWORDS = None,
      THREE_CX_WEBHOOK_URL = Some ''http://3cx/hook'',
      THREE_CX_META_PHONE_NUMBER_ID = Some ''200'',
      THREE_CX_META_PERM_TOKEN = Some ''3cx-token'',
      HANDOFF_TEMPLATE_NAME = None,
      HANDOFF_TEMPLATE_LANG = None\<rparr>"

text \<open>A process that has just received one event: the body is its only Buffer.\<close>

definition fresh :: "bytes \<Rightarrow> state" where
  "fresh b = \<lparr>handoff = Map.empty, objects = [Buffer b], trace = []\<rparr>"

text \<open>A process that has just received a request whose body was not parsed.\<close>

definition unparsed :: state where
  "unparsed = \<lparr>handoff = Map.empty, objects = [EmptyObject], trace = []\<rparr>"

text \<open>The header that verifies for a body under the secret of \<open>example_env\<close>.\<close>

definition signed :: "bytes \<Rightarrow> string option" where
  "signed b = Some (''sha256=s3cret/'' @ b)"

text \<open>The payload with the given messages in its first entry's first change, and a text
  message.\<close>

definition event_of :: "json list \<Rightarrow> json" where
  "event_of msgs =
     JObj [(''entry'', JArr [JObj [(''changes'', JArr [JObj [(''value'',
       JObj [(''messages'', JArr msgs)])]])]])]"

definition text_msg :: "string \<Rightarrow> string \<Rightarrow> json" where
  "text_msg sender txt =
     JObj [(''type'', JStr ''text''), (''from'', JStr sender), (''text'', JObj [(''body'', JStr txt)])]"

text \<open>An event with one image message, written with a space before its last brace.\<close>

definition image_event :: bytes where
  \<open>image_event = ''{"entry":[{"changes":[{"value":{"messages":[{"type":"image"}]}}]}] }''\<close>

text \<open>An event with two text messages, from two senders.\<close>

definition two_messages :: bytes where
  \<open>two_messages =
     ''{"entry":[{"changes":[{"value":{"messages":[{"type":"text","from":"111","text":{"body":"hi"}},{"type":"text","from":"222","text":{"body":"yo"}}]}}]}]}''\<close>

text \<open>A network in which the AI backend answers with a reply, the Chatwoot sink accepts,
  and every other request (the messaging API among them) fails in transport.\<close>

definition send_fails :: network where
  \<open>send_fails st r =
     (if req_url r = ''http://n8n/reply'' then Response 200 ''{"reply":"ok"}''
      else if req_url r = ''http://chatwoot/hook'' then Response 200 []
      else Unreachable ''ECONNREFUSED'')\<close>

text \<open>The claim's words "a payload containing no message of kind text": the messages of
  the payload are not an array, or no element of the array has the type text.\<close>

definition no_text_message :: "json \<Rightarrow> bool" where
  "no_text_message obj =
     (case messages_in obj of
        Some (JArr msgs) \<Rightarrow>
          list_all (\<lambda>m. opt_prop (Some m) ''type'' \<noteq> Some (JStr ''text'')) msgs
      | other \<Rightarrow> True)"

text \<open>Three more networks: one in which no call gets through, one in which every call is
  answered with a reply, and one in which only the 3CX sink answers with an error.\<close>

definition all_down :: network where
  "all_down st r = Unreachable ''ETIMEDOUT''"

definition all_ok :: network where
  \<open>all_ok st r = Response 200 ''{"reply":"ok"}''\<close>

definition bridge_down :: network where
  "bridge_down st r =
     (if req_url r = ''http://3cx/hook'' then Response 500 ''Internal Server Error''
      else Response 200 [])"

text \<open>An event whose one text message asks for a human, and an event with a second change
  and a second entry, each holding a text message that asks for a human.\<close>

definition human_event :: bytes where
  \<open>human_event =
     ''{"entry":[{"changes":[{"value":{"messages":[{"type":"text","from":"111","text":{"body":"I need a human"}}]}}]}]}''\<close>

definition later_entries_event :: bytes where
  \<open>later_entries_event =
     ''{"entry":[{"changes":[{"value":{"messages":[{"type":"text","from":"111","text":{"body":"hi"}}]}},{"value":{"messages":[{"type":"text","from":"888","text":{"body":"human"}}]}}]},{"changes":[{"value":{"messages":[{"type":"text","from":"999","text":{"body":"human"}}]}}]}]}''\<close>

text \<open>The same event without the later change and the later entry.\<close>

definition first_change_event :: bytes where
  \<open>first_change_event =
     ''{"entry":[{"changes":[{"value":{"messages":[{"type":"text","from":"111","text":{"body":"hi"}}]}}]}]}''\<close>

definition later_entries_payload :: json where
  "later_entries_payload =
     JObj [(''entry'', JArr [
       JObj [(''changes'', JArr [
         JObj [(''value'', JObj [(''messages'', JArr [text_msg ''111'' ''hi''])])],
         JObj [(''value'', JObj [(''messages'', JArr [text_msg ''888'' ''human''])])]])],
       JObj [(''changes'', JArr [
         JObj [(''value'', JObj [(''messages'', JArr [text_msg ''999'' ''human''])])]])]])]"

text \<open>A process before its first event, and the same process after it has served
  \<open>human_event\<close> with the first server of part\_002.\<close>

definition idle :: state where
  "idle = \<lparr>handoff = Map.empty, objects = [], trace = []\<rparr>"

definition after_handoff :: state where
  "after_handoff = serve (post_wa_3cx lite example_env all_ok) [(signed human_event, Buffer human_event)] idle"

text \<open>A process that holds the Buffer of an earlier event and has just received
  \<open>human_event\<close>, in its second Buffer.\<close>

definition second_event :: state where
  "second_event =
     \<lparr>handoff = Map.empty, objects = [Buffer two_messages, Buffer human_event], trace = []\<rparr>"

text \<open>The two fan-out targets of the second server of part\_002.\<close>

definition example_targets :: "(string option \<times> (string \<times> string) list) list" where
  "example_targets =
     [(THREE_CX_WEBHOOK_URL example_env, []),
      (CHATWOOT_WEBHOOK_URL example_env, chatwoot_headers example_env)]"

section \<open>Describing what a handler does\<close>

text \<open>
  The definitions of this section belong to the statements and proofs, not to the
  program. The requests a handler starts after the acknowledgment are the fan-out of the
  raw Buffer to the configured targets, and then what the loop over the messages starts.
\<close>

fun is_fetch :: "effect \<Rightarrow> bool" where
  "is_fetch (Fetch r) = True"
| "is_fetch (Respond status) = False"

definition fan_out_effects :: "(string option \<times> (string \<times> string) list) list \<Rightarrow> nat \<Rightarrow> effect list" where
  "fan_out_effects targets raw =
     map (\<lambda>(target, extraHeaders). Fetch (forward_request target raw extraHeaders))
       (filter (\<lambda>(target, extraHeaders). is_set target) targets)"

text \<open>The state right after the acknowledgment and the start of the fan-out.\<close>

definition acknowledged ::
  "(string option \<times> (string \<times> string) list) list \<Rightarrow> nat \<Rightarrow> state \<Rightarrow> state" where
  "acknowledged targets raw st = st\<lparr>trace := trace st @ Respond 200 # fan_out_effects targets raw\<rparr>"

text \<open>What \<open>forwardRawJSON\<close> makes of an answer of the network.\<close>

definition settle :: "response \<Rightarrow> forward_result" where
  "settle answer =
     (case answer of
        Response status body \<Rightarrow> if ok status then Delivered else Refused status
      | Unreachable msg \<Rightarrow> Failed msg)"

text \<open>The list the loop of a handler runs over, from the parsed payload and from the
  Buffer.\<close>

definition routed_messages :: "json \<Rightarrow> json list" where
  "routed_messages payload =
     (case iterate (or_empty (messages_in payload)) of Inr ms \<Rightarrow> ms | Inl e \<Rightarrow> [])"

definition loop_messages :: "runtime \<Rightarrow> nat \<Rightarrow> state \<Rightarrow> json list" where
  "loop_messages rt raw st =
     (case JSON_parse rt (toString rt (contents st raw)) of
        None \<Rightarrow> []
      | Some payload \<Rightarrow> routed_messages payload)"

text \<open>
  The requests the loop body can start for a text message with sender \<open>waId\<close> and text
  \<open>txt\<close>: on the AI path the request to the AI backend and the reply to the sender; on the
  handoff path the forward of a Buffer (\<open>raw\<close> itself or the copy made by the injection) to
  the 3CX sink, the template or the free-form text from the 3CX number, the request for
  a summary and messages to the sender.
\<close>

definition ai_effects :: "runtime \<Rightarrow> process_env \<Rightarrow> json \<Rightarrow> string \<Rightarrow> effect set" where
  "ai_effects rt env waId txt =
     insert (Fetch (ai_request rt env waId txt)) (range (\<lambda>reply. Fetch (wa_text_request env waId reply)))"

definition handoff_effects :: "runtime \<Rightarrow> process_env \<Rightarrow> nat \<Rightarrow> nat \<Rightarrow> json \<Rightarrow> effect set" where
  "handoff_effects rt env raw copy waId =
     {Fetch (forward_request (THREE_CX_WEBHOOK_URL env) raw []),
      Fetch (forward_request (THREE_CX_WEBHOOK_URL env) copy []),
      Fetch (three_cx_request env (template_payload env waId)),
      Fetch (three_cx_request env (free_form_payload waId)),
      Fetch (summary_request rt env waId)}
     \<union> range (\<lambda>msg. Fetch (wa_text_request env waId msg))"

text \<open>
  One run of a loop body on the message \<open>m\<close>, from \<open>st\<close> to \<open>st'\<close>: nothing happens; or
  \<open>m\<close> is a text message and the AI path runs (when \<open>gated\<close>, only for a sender that is
  not in handoff) and leaves the map and the Buffers alone; or the handoff path runs and
  sets the flag of the sender. \<open>routed\<close> is any number of such runs on messages of \<open>ms\<close>.
\<close>

definition message_step ::
  "bool \<Rightarrow> runtime \<Rightarrow> process_env \<Rightarrow> nat \<Rightarrow> json \<Rightarrow> state \<Rightarrow> state \<Rightarrow> bool" where
  "message_step gated rt env raw m st st' =
     (st' = st
      \<or> (\<exists>waId txt es. text_message m = Inr (Some (waId, txt))
            \<and> ((set es \<subseteq> ai_effects rt env waId txt
                  \<and> (gated \<longrightarrow> Map_get (handoff st) waId \<noteq> Some True)
                  \<and> st' = st\<lparr>trace := trace st @ es\<rparr>)
               \<or> (\<exists>bs. set es \<subseteq> handoff_effects rt env raw (length (objects st)) waId
                     \<and> st' = st\<lparr>handoff := Map_set (handoff st) waId True,
                                objects := objects st @ bs, trace := trace st @ es\<rparr>))))"

inductive routed ::
  "bool \<Rightarrow> runtime \<Rightarrow> process_env \<Rightarrow> nat \<Rightarrow> json list \<Rightarrow> state \<Rightarrow> state \<Rightarrow> bool"
  for gated rt env raw ms where
    routed_none: "routed gated rt env raw ms st st"
  | routed_more: "routed gated rt env raw ms st st1 \<Longrightarrow> m \<in> set ms \<Longrightarrow>
       message_step gated rt env raw m st1 st2 \<Longrightarrow> routed gated rt env raw ms st st2"

text \<open>An effect that the message of \<open>waId\<close> with text \<open>txt\<close> can account for.\<close>

definition caused_by :: "runtime \<Rightarrow> process_env \<Rightarrow> json \<Rightarrow> string \<Rightarrow> effect \<Rightarrow> bool" where
  "caused_by rt env waId txt e =
     (e = Fetch (ai_request rt env waId txt)
      \<or> (\<exists>msg. e = Fetch (wa_text_request env waId msg))
      \<or> e = Fetch (summary_request rt env waId)
      \<or> (\<exists>buffer. e = Fetch (forward_request (THREE_CX_WEBHOOK_URL env) buffer []))
      \<or> e = Fetch (three_cx_request env (template_payload env waId))
      \<or> e = Fetch (three_cx_request env (free_form_payload waId)))"

text \<open>
  Two states of the process that look alike but for the contents of the objects: the
  same effects so far, the same handoff flags, as many objects. Two networks give the
  same answers when, in states that are alike, they answer alike to every request whose
  body is not a Buffer (the forwards of a Buffer may be answered differently: the bytes
  differ). \<open>parses\<close>: the object \<open>raw\<close> exists and its text is JSON.
\<close>

definition alike :: "state \<Rightarrow> state \<Rightarrow> bool" where
  "alike st st' =
     (trace st = trace st' \<and> handoff st = handoff st' \<and> length (objects st) = length (objects st'))"

definition carries_json :: "request \<Rightarrow> bool" where
  "carries_json r = (case req_body r of JsonBody v \<Rightarrow> True | BufferBody a \<Rightarrow> False)"

definition same_answers :: "network \<Rightarrow> network \<Rightarrow> bool" where
  "same_answers net net' =
     (\<forall>st st' r. alike st st' \<and> carries_json r \<longrightarrow> net st r = net' st' r)"

definition parses :: "runtime \<Rightarrow> nat \<Rightarrow> state \<Rightarrow> bool" where
  "parses rt raw st =
     (raw < length (objects st) \<and> JSON_parse rt (toString rt (contents st raw)) \<noteq> None)"

section \<open>Signature verification: properties\<close>

lemma verifySignature_compares:
  "is_set headerSig \<Longrightarrow> is_set (META_APP_SECRET env) \<Longrightarrow>
   verifySignature rt env (Buffer data) headerSig =
     Inr (interpolate headerSig =
            ''sha256='' @ hmac_sha256_hex rt (interpolate (META_APP_SECRET env)) data)"
  by (auto simp: verifySignature_def timingSafeEqual_def Buffer_from_string_def Let_def)

lemma verifySignature_Buffer_returns:
  "\<exists>b. verifySignature rt env (Buffer data) headerSig = Inr b"
  by (auto simp: verifySignature_def timingSafeEqual_def Let_def)

lemma missing_header_or_secret:
  "\<not> is_set headerSig \<or> \<not> is_set (META_APP_SECRET env) \<Longrightarrow>
   verifySignature rt env rawBody headerSig = Inr False"
  by (auto simp: verifySignature_def)

lemma verifySignature_EmptyObject:
  "is_set headerSig \<Longrightarrow> is_set (META_APP_SECRET env) \<Longrightarrow>
   verifySignature rt env EmptyObject headerSig = Inl TypeError"
  by (simp add: verifySignature_def)

lemma verifySignature_cases:
  obtains (accepted) data where "rawBody = Buffer data"
      "verifySignature rt env rawBody headerSig = Inr True"
  | (refused) "verifySignature rt env rawBody headerSig = Inr False"
  | (threw) "rawBody = EmptyObject" "verifySignature rt env rawBody headerSig = Inl TypeError"
proof (cases rawBody)
  case (Buffer data)
  obtain b where "verifySignature rt env (Buffer data) headerSig = Inr b"
    using verifySignature_Buffer_returns by blast
  then show ?thesis
    using Buffer accepted refused by (cases b) auto
next
  case EmptyObject
  show ?thesis
  proof (cases "is_set headerSig \<and> is_set (META_APP_SECRET env)")
    case True
    then show ?thesis
      using EmptyObject threw by (simp add: verifySignature_EmptyObject)
  next
    case False
    then show ?thesis
      using refused by (simp add: missing_header_or_secret)
  qed
qed

text \<open>
  For a body that is a Buffer the verifier returns a boolean, and the boolean says
  whether the header is \<open>sha256=\<close> followed by the digest of the body under the secret.
  So the genuine header is accepted, and that header with one character replaced is
  refused. A changed body is refused exactly when its digest is another one: whether
  the digests of two bodies that differ in one byte can coincide is a question about
  HMAC-SHA256, not about the proxy.
\<close>

lemma genuine_header_accepted:
  assumes "META_APP_SECRET env = Some secret" "secret \<noteq> []"
  shows "verifySignature rt env (Buffer data)
           (Some (''sha256='' @ hmac_sha256_hex rt secret data)) = Inr True"
  using assms by (simp add: verifySignature_compares is_set_def interpolate_def)

lemma changed_header_refused:
  assumes "META_APP_SECRET env = Some secret" "secret \<noteq> []"
    and "genuine = ''sha256='' @ hmac_sha256_hex rt secret data"
    and "i < length genuine" "c \<noteq> genuine ! i"
  shows "verifySignature rt env (Buffer data) (Some (genuine[i := c])) = Inr False"
proof -
  have "genuine[i := c] \<noteq> genuine"
    using assms(4,5) by (metis nth_list_update_eq)
  moreover have "genuine \<noteq> []"
    using assms(3) by simp
  then have "is_set (Some (genuine[i := c]))"
    by (simp add: is_set_def)
  ultimately show ?thesis
    using assms(1,2,3) by (simp add: verifySignature_compares is_set_def interpolate_def)
qed

lemma changed_body_refused_iff:
  assumes "META_APP_SECRET env = Some secret" "secret \<noteq> []"
  shows "verifySignature rt env (Buffer other)
           (Some (''sha256='' @ hmac_sha256_hex rt secret data))
         = Inr (hmac_sha256_hex rt secret other = hmac_sha256_hex rt secret data)"
  using assms by (auto simp: verifySignature_compares is_set_def interpolate_def)

lemma other_header_refused:
  "h \<noteq> ''sha256='' @ hmac_sha256_hex rt (interpolate (META_APP_SECRET env)) data \<Longrightarrow>
   verifySignature rt env (Buffer data) (Some h) = Inr False"
  by (cases "is_set (Some h) \<and> is_set (META_APP_SECRET env)")
     (auto simp: verifySignature_compares interpolate_def missing_header_or_secret)

text \<open>
  C8. The verifier is not total. The digest is computed outside the \<^verbatim>\<open>try\<close> block, so
  for a request whose body body-parser did not parse (\<^verbatim>\<open>req.body\<close> is the empty
  object), with a header and with the secret set, \<^verbatim>\<open>hmac.update\<close> throws a TypeError
  and the verifier throws it on, whatever the header says. The three handlers call the
  verifier outside any \<^verbatim>\<open>try\<close> block: each ends with the exception and writes no
  status at all, neither 401 nor 200.
\<close>

theorem verifySignature_throws_without_Buffer:
  "is_set headerSig \<Longrightarrow> is_set (META_APP_SECRET env) \<Longrightarrow> contents st raw = EmptyObject \<Longrightarrow>
   verifySignature rt env (contents st raw) headerSig = Inl TypeError
   \<and> post_wa_n8n rt env net headerSig raw st = (Inl TypeError, st)
   \<and> post_wa_3cx rt env net headerSig raw st = (Inl TypeError, st)
   \<and> post_wa_summary rt env net headerSig raw st = (Inl TypeError, st)"
  by (simp add: verifySignature_def post_wa_n8n_def post_wa_3cx_def post_wa_summary_def)

theorem verifySignature_throws_without_Buffer_witness:
  "verifySignature lite example_env EmptyObject (Some ''sha256=00'') = Inl TypeError
   \<and> fst (post_wa_n8n lite example_env all_ok (Some ''sha256=00'') 0 unparsed) = Inl TypeError
   \<and> trace (snd (post_wa_n8n lite example_env all_ok (Some ''sha256=00'') 0 unparsed)) = []
   \<and> fst (post_wa_3cx lite example_env all_ok (Some ''sha256=00'') 0 unparsed) = Inl TypeError
   \<and> trace (snd (post_wa_3cx lite example_env all_ok (Some ''sha256=00'') 0 unparsed)) = []
   \<and> fst (post_wa_summary lite example_env all_ok (Some ''sha256=00'') 0 unparsed) = Inl TypeError
   \<and> trace (snd (post_wa_summary lite example_env all_ok (Some ''sha256=00'') 0 unparsed)) = []"
proof -
  have header: "is_set (Some ''sha256=00'')"
    by (simp add: is_set_def)
  have secret: "is_set (META_APP_SECRET example_env)"
    by (simp add: example_env_def is_set_def)
  have body: "contents unparsed 0 = EmptyObject"
    by (simp add: unparsed_def contents_def)
  show ?thesis
    using verifySignature_throws_without_Buffer
      [OF header secret body, where rt = lite and net = all_ok]
    unfolding body by (simp add: unparsed_def)
qed

section \<open>The intent classifier\<close>

text \<open>
  C3. With the variable HANDOFF\_KEYWORDS set to the empty string, or to entries of
  whitespace only, the source of \<open>handoffRegex\<close> is the empty pattern, and the classifier
  answers \<open>true\<close> for every text: the code does the opposite of the claim.
\<close>

theorem empty_keywords_match_every_text:
  "handoffRegex_test lite (example_env\<lparr>HANDOFF_KEYWORDS := Some []\<rparr>) txt
   \<and> handoffRegex_test lite (example_env\<lparr>HANDOFF_KEYWORDS := Some '' , ''\<rparr>) txt"
proof -
  have none: "handoffRegex_source (example_env\<lparr>HANDOFF_KEYWORDS := Some []\<rparr>) = []"
    by code_simp
  have spaces: "handoffRegex_source (example_env\<lparr>HANDOFF_KEYWORDS := Some '' , ''\<rparr>) = []"
    by code_simp
  show ?thesis
    by (simp add: handoffRegex_test_def none spaces lite_def RegExp_test_lite_def)
qed

section \<open>Injection: properties\<close>

lemma opt_prop_Some: "opt_prop (Some v) k = property v k"
  by (cases v) (simp_all add: opt_prop_def)

lemma opt_index0_Some: "opt_index0 (Some v) = index0 v"
  by (cases v) (simp_all add: opt_index0_def)

lemma assign_same: "map_of fs k = Some v \<Longrightarrow> assign k v fs = fs"
  by (induction fs) (auto split: if_splits)

lemma modify_prop_id: "(\<And>v. property x k = Some v \<Longrightarrow> f v = v) \<Longrightarrow> modify_prop k f x = x"
  by (cases x) (auto simp: assign_same split: option.splits)

lemma modify_index0_id: "(\<And>v. index0 x = Some v \<Longrightarrow> f v = v) \<Longrightarrow> modify_index0 f x = x"
proof (cases x)
  case (JObj fs)
  assume "\<And>v. index0 x = Some v \<Longrightarrow> f v = v"
  then have "modify_prop ''0'' f (JObj fs) = JObj fs"
    using JObj by (intro modify_prop_id) simp
  then show ?thesis using JObj by simp
qed (auto split: list.splits)

text \<open>Writing back the messages that were read leaves the payload as it was.\<close>

lemma modify_messages_same:
  assumes "messages_in obj = Some msgs"
  shows "modify_messages (\<lambda>old. msgs) obj = obj"
  unfolding modify_messages_def
proof (rule modify_prop_id)
  fix e assume e: "property obj ''entry'' = Some e"
  show "modify_index0 (modify_prop ''changes'' (modify_index0 (modify_prop ''value''
          (modify_prop ''messages'' (\<lambda>old. msgs))))) e = e"
  proof (rule modify_index0_id)
    fix e0 assume e0: "index0 e = Some e0"
    show "modify_prop ''changes'' (modify_index0 (modify_prop ''value''
            (modify_prop ''messages'' (\<lambda>old. msgs)))) e0 = e0"
    proof (rule modify_prop_id)
      fix c assume c: "property e0 ''changes'' = Some c"
      show "modify_index0 (modify_prop ''value'' (modify_prop ''messages'' (\<lambda>old. msgs))) c = c"
      proof (rule modify_index0_id)
        fix c0 assume c0: "index0 c = Some c0"
        show "modify_prop ''value'' (modify_prop ''messages'' (\<lambda>old. msgs)) c0 = c0"
        proof (rule modify_prop_id)
          fix v assume v: "property c0 ''value'' = Some v"
          show "modify_prop ''messages'' (\<lambda>old. msgs) v = v"
          proof (rule modify_prop_id)
            fix w assume "property v ''messages'' = Some w"
            then show "msgs = w"
              using assms e e0 c c0 v
              by (simp add: messages_in_def opt_prop_Some opt_index0_Some)
          qed
        qed
      qed
    qed
  qed
qed

lemma inject_first_none:
  "list_all (\<lambda>m. \<not> has_text_body m) msgs \<Longrightarrow> inject_first rt s msgs = msgs"
  by (induction msgs) simp_all

lemma inject_object_none:
  "(case messages_in obj of
      Some (JArr msgs) \<Rightarrow> list_all (\<lambda>m. \<not> has_text_body m) msgs
    | other \<Rightarrow> True)
   \<Longrightarrow> inject_object rt s obj = obj"
  by (auto simp: inject_object_def inject_first_none modify_messages_same
           split: option.splits json.splits)

lemma no_text_message_no_body:
  "no_text_message obj \<Longrightarrow>
   (case messages_in obj of
      Some (JArr msgs) \<Rightarrow> list_all (\<lambda>m. \<not> has_text_body m) msgs
    | other \<Rightarrow> True)"
  by (auto simp: no_text_message_def has_text_body_def list_all_iff
           split: option.splits json.splits)

text \<open>
  C4, as the claim states it, fails: the event \<open>image_event\<close> parses, it has no text
  message, and the result of the injection is the payload serialised again, without the
  space the input has before its last brace.
\<close>

theorem inject_reserialises_image_event:
  \<open>JSON_parse lite (toString lite (contents (fresh image_event) 0))
     = Some (event_of [JObj [(''type'', JStr ''image'')]])
   \<and> no_text_message (event_of [JObj [(''type'', JStr ''image'')]])
   \<and> (case injectSummaryIntoPayload lite 0 ''this is the summary'' (fresh image_event) of
        (r, st) \<Rightarrow> contents st r)
       = Buffer ''{"entry":[{"changes":[{"value":{"messages":[{"type":"image"}]}}]}]}''
   \<and> (case injectSummaryIntoPayload lite 0 ''this is the summary'' (fresh image_event) of
        (r, st) \<Rightarrow> contents st r)
       \<noteq> contents (fresh image_event) 0\<close>
  by code_simp

text \<open>
  C4, amended. When the bytes do not parse, the injection returns the Buffer it was
  given and changes nothing. When they parse to a payload with no message of kind text,
  it returns a new Buffer that holds \<^verbatim>\<open>JSON.stringify\<close> of the parsed payload, the payload
  itself unchanged.
\<close>

theorem inject_without_text_message:
  "(JSON_parse rt (toString rt (contents st rawBuffer)) = None
      \<longrightarrow> injectSummaryIntoPayload rt rawBuffer s st = (rawBuffer, st))
   \<and> (\<forall>obj. JSON_parse rt (toString rt (contents st rawBuffer)) = Some obj
            \<and> no_text_message obj
      \<longrightarrow> (case injectSummaryIntoPayload rt rawBuffer s st of
             (r, st') \<Rightarrow> r = length (objects st) \<and> contents st' r = Buffer (JSON_stringify rt obj)))"
  by (auto simp: injectSummaryIntoPayload_def Buffer_from_def Buffer_from_string_def
        contents_def inject_object_none no_text_message_no_body)

theorem inject_without_text_message_witness:
  \<open>injectSummaryIntoPayload lite 0 ''this is the summary'' (fresh ''not json'')
     = (0, fresh ''not json'')
   \<and> (case injectSummaryIntoPayload lite 0 ''this is the summary'' (fresh image_event) of
        (r, st') \<Rightarrow> r = 1 \<and> contents st' r
           = Buffer (JSON_stringify lite (event_of [JObj [(''type'', JStr ''image'')]])))\<close>
proof -
  have unparsed: "JSON_parse lite (toString lite (contents (fresh ''not json'') 0)) = None"
    by code_simp
  have parsed:
    "JSON_parse lite (toString lite (contents (fresh image_event) 0))
       = Some (event_of [JObj [(''type'', JStr ''image'')]])"
    by code_simp
  have no_text: "no_text_message (event_of [JObj [(''type'', JStr ''image'')]])"
    by code_simp
  have first: "injectSummaryIntoPayload lite 0 ''this is the summary'' (fresh ''not json'')
     = (0, fresh ''not json'')"
    using inject_without_text_message [of lite "fresh ''not json''" 0 "''this is the summary''"]
      unparsed by simp
  have second:
    "case injectSummaryIntoPayload lite 0 ''this is the summary'' (fresh image_event) of
       (r, st') \<Rightarrow> r = length (objects (fresh image_event))
          \<and> contents st' r
                = Buffer (JSON_stringify lite (event_of [JObj [(''type'', JStr ''image'')]]))"
    using inject_without_text_message [of lite "fresh image_event" 0 "''this is the summary''"]
      parsed no_text by simp
  have "length (objects (fresh image_event)) = 1"
    by (simp add: fresh_def)
  then show ?thesis
    using first second by simp
qed

section \<open>Failures of the outbound calls\<close>

text \<open>
  C5. The handler of src/server.js on the event \<open>two_messages\<close>, in a network where the
  AI backend answers and the messaging API cannot be reached: the rejection of
  \<^verbatim>\<open>fetch\<close> in \<open>sendWaText\<close> ends the handler with that exception after the first message.
  The acknowledgment is in place, but the second message (from 222) is never processed:
  no request is made for it.
\<close>

theorem send_failure_aborts_remaining_messages:
  \<open>(case post_wa_n8n lite example_env send_fails (signed two_messages) 0 (fresh two_messages) of
      (outcome, st) \<Rightarrow> (outcome, trace st))
   = (Inl (FetchError ''ECONNREFUSED''),
      [Respond 200,
       Fetch \<lparr>req_url = ''http://chatwoot/hook'',
              req_headers = [(''Content-Type'', ''application/json''),
                             (''X-Chatwoot-Webhook-Token'', ''cw-token'')],
              req_body = BufferBody 0\<rparr>,
       Fetch (ai_request lite example_env (JStr ''111'') ''hi''),
       Fetch (wa_text_request example_env (JStr ''111'') (JStr ''ok''))])\<close>
  by code_simp

section \<open>What one call does to the state\<close>

lemma js_fetch_cases:
  obtains (rejected) msg where
      "js_fetch net req st = (Inl (FetchError msg), st\<lparr>trace := trace st @ [Fetch req]\<rparr>)"
  | (answered) status answer where
      "js_fetch net req st = (Inr (status, answer), st\<lparr>trace := trace st @ [Fetch req]\<rparr>)"
  by (cases "net st req") (auto simp: js_fetch_def Let_def)

lemma forwardRawJSON_result:
  "\<exists>r. forwardRawJSON net target raw hs st =
       (Inr r, if is_set target
               then st\<lparr>trace := trace st @ [Fetch (forward_request target raw hs)]\<rparr> else st)"
  by (cases rule: js_fetch_cases [of net "forward_request target raw hs" st])
     (auto simp: forwardRawJSON_def)

lemma sendWaText_result:
  "\<exists>r. sendWaText env net waId msg st =
       (r, st\<lparr>trace := trace st @ [Fetch (wa_text_request env waId msg)]\<rparr>)"
  by (cases rule: js_fetch_cases [of net "wa_text_request env waId msg" st])
     (auto simp: sendWaText_def)

lemma sendWaTextFromMain_result:
  "\<exists>r. sendWaTextFromMain env net waId msg st =
       (r, st\<lparr>trace := trace st @ [Fetch (wa_text_request env waId msg)]\<rparr>)"
  by (cases rule: js_fetch_cases [of net "wa_text_request env waId msg" st])
     (auto simp: sendWaTextFromMain_def)

lemma getAIReply_result:
  "\<exists>r. getAIReply rt env net waId txt st =
       (Inr r, st\<lparr>trace := trace st @ [Fetch (ai_request rt env waId txt)]\<rparr>)"
  by (cases rule: js_fetch_cases [of net "ai_request rt env waId txt" st])
     (auto simp: getAIReply_def split: option.splits sum.splits)

lemma getAISummary_result:
  "\<exists>r. getAISummary rt env net waId st =
       (Inr r, if is_set (OPENAI_SUMMARY_ENDPOINT env)
               then st\<lparr>trace := trace st @ [Fetch (summary_request rt env waId)]\<rparr> else st)"
  by (cases rule: js_fetch_cases [of net "summary_request rt env waId" st])
     (auto simp: getAISummary_def split: option.splits sum.splits)

lemma send_free_form_result:
  "\<exists>r. send_free_form env net to st =
       (r, st\<lparr>trace := trace st @ [Fetch (three_cx_request env (free_form_payload to))]\<rparr>)"
  by (cases rule: js_fetch_cases [of net "three_cx_request env (free_form_payload to)" st])
     (auto simp: send_free_form_def)

lemma sendTemplateFrom3cxNumber_cases:
  obtains r es where
    "sendTemplateFrom3cxNumber env net to st = (r, st\<lparr>trace := trace st @ es\<rparr>)"
    "set es \<subseteq> {Fetch (three_cx_request env (template_payload env to)),
                Fetch (three_cx_request env (free_form_payload to))}"
proof (cases "\<not> is_set (THREE_CX_META_PHONE_NUMBER_ID env) \<or> \<not> is_set (THREE_CX_META_PERM_TOKEN env)")
  case True
  then have "sendTemplateFrom3cxNumber env net to st = (Inr False, st\<lparr>trace := trace st @ []\<rparr>)"
    by (auto simp: sendTemplateFrom3cxNumber_def)
  then show ?thesis
    using that [of "Inr False" "[]"] by simp
next
  case configured: False
  show ?thesis
  proof (cases "is_set (HANDOFF_TEMPLATE_NAME env)")
    case False
    obtain r where "send_free_form env net to st =
        (r, st\<lparr>trace := trace st @ [Fetch (three_cx_request env (free_form_payload to))]\<rparr>)"
      using send_free_form_result by blast
    then show ?thesis
      using that [of r "[Fetch (three_cx_request env (free_form_payload to))]"] configured False
      by (simp add: sendTemplateFrom3cxNumber_def)
  next
    case True
    let ?st1 = "st\<lparr>trace := trace st @ [Fetch (three_cx_request env (template_payload env to))]\<rparr>"
    show ?thesis
    proof (cases rule: js_fetch_cases [of net "three_cx_request env (template_payload env to)" st])
      case (rejected msg)
      then show ?thesis
        using that [of "Inl (FetchError msg)" "[Fetch (three_cx_request env (template_payload env to))]"]
          configured True
        by (simp add: sendTemplateFrom3cxNumber_def)
    next
      case (answered status answer)
      show ?thesis
      proof (cases "ok status")
        case True
        then show ?thesis
          using that [of "Inr True" "[Fetch (three_cx_request env (template_payload env to))]"]
            configured \<open>is_set (HANDOFF_TEMPLATE_NAME env)\<close> answered
          by (simp add: sendTemplateFrom3cxNumber_def)
      next
        case False
        obtain r where "send_free_form env net to ?st1 =
            (r, ?st1\<lparr>trace := trace ?st1 @ [Fetch (three_cx_request env (free_form_payload to))]\<rparr>)"
          using send_free_form_result by blast
        then show ?thesis
          using that [of r "[Fetch (three_cx_request env (template_payload env to)),
                           Fetch (three_cx_request env (free_form_payload to))]"]
            configured \<open>is_set (HANDOFF_TEMPLATE_NAME env)\<close> answered False
          by (simp add: sendTemplateFrom3cxNumber_def)
      qed
    qed
  qed
qed

lemma inject_cases:
  obtains (same) "injectSummaryIntoPayload rt raw s st = (raw, st)"
  | (copy) b where
      "injectSummaryIntoPayload rt raw s st = (length (objects st), st\<lparr>objects := objects st @ [b]\<rparr>)"
  by (cases "JSON_parse rt (toString rt (contents st raw))")
     (simp_all add: injectSummaryIntoPayload_def Buffer_from_def)

section \<open>What one message does to the state\<close>

lemma message_step_skip: "message_step gated rt env raw m st st"
  by (simp add: message_step_def)

lemma message_step_ai:
  "text_message m = Inr (Some (waId, txt)) \<Longrightarrow>
   (gated \<longrightarrow> Map_get (handoff st) waId \<noteq> Some True) \<Longrightarrow>
   set es \<subseteq> ai_effects rt env waId txt \<Longrightarrow>
   message_step gated rt env raw m st (st\<lparr>trace := trace st @ es\<rparr>)"
  unfolding message_step_def by blast

lemma message_step_handoff:
  "text_message m = Inr (Some (waId, txt)) \<Longrightarrow>
   set es \<subseteq> handoff_effects rt env raw (length (objects st)) waId \<Longrightarrow>
   message_step gated rt env raw m st
     (st\<lparr>handoff := Map_set (handoff st) waId True, objects := objects st @ bs,
         trace := trace st @ es\<rparr>)"
  unfolding message_step_def by blast

lemma ai_path_step:
  assumes m: "text_message m = Inr (Some (waId, txt))"
    and free: "gated \<longrightarrow> Map_get (handoff st) waId \<noteq> Some True"
    and send: "\<And>reply st1. \<exists>r. send waId reply st1
                  = (r, st1\<lparr>trace := trace st1 @ [Fetch (wa_text_request env waId reply)]\<rparr>)"
  shows "message_step gated rt env raw m st
           (snd (case getAIReply rt env net waId txt st of
                   (Inr None, st1) \<Rightarrow> (Inr (), st1)
                 | (Inr (Some reply), st1) \<Rightarrow> send waId reply st1
                 | (Inl e, st1) \<Rightarrow> (Inl e, st1)))"
proof -
  let ?st1 = "st\<lparr>trace := trace st @ [Fetch (ai_request rt env waId txt)]\<rparr>"
  obtain r where ai: "getAIReply rt env net waId txt st = (Inr r, ?st1)"
    using getAIReply_result by blast
  show ?thesis
  proof (cases r)
    case None
    have "message_step gated rt env raw m st (st\<lparr>trace := trace st @ [Fetch (ai_request rt env waId txt)]\<rparr>)"
      using m free by (rule message_step_ai) (simp add: ai_effects_def)
    then show ?thesis
      using ai None by simp
  next
    case (Some reply)
    obtain r' where sent: "send waId reply ?st1
        = (r', ?st1\<lparr>trace := trace ?st1 @ [Fetch (wa_text_request env waId reply)]\<rparr>)"
      using send by blast
    have "message_step gated rt env raw m st
            (st\<lparr>trace := trace st @ [Fetch (ai_request rt env waId txt),
                                        Fetch (wa_text_request env waId reply)]\<rparr>)"
      using m free by (rule message_step_ai) (simp add: ai_effects_def)
    then show ?thesis
      using ai Some sent by simp
  qed
qed

lemma route_message_3cx_step:
  "message_step True rt env raw m st (snd (route_message_3cx rt env net raw m st))"
proof (cases "text_message m")
  case (Inl e)
  then show ?thesis
    by (simp add: route_message_3cx_def message_step_skip)
next
  case (Inr found)
  show ?thesis
  proof (cases found)
    case None
    then show ?thesis
      using Inr by (simp add: route_message_3cx_def message_step_skip)
  next
    case (Some pair)
    obtain waId body where pair: "pair = (waId, body)"
      by (cases pair)
    have m: "text_message m = Inr (Some (waId, body))"
      using Inr Some pair by simp
    show ?thesis
    proof (cases "handoffRegex_test rt env body")
      case True
      let ?st1 = "st\<lparr>handoff := Map_set (handoff st) waId True\<rparr>"
      let ?url = "THREE_CX_WEBHOOK_URL env"
      obtain bs es1 st3 forwarded where forward:
        "(if is_set ?url
          then (case injectSummaryIntoPayload rt raw ''this is the summary'' ?st1 of
                  (injectedRaw, st2) \<Rightarrow> forwardRawJSON net ?url injectedRaw [] st2)
          else (Inr Skipped, ?st1)) = (Inr forwarded, st3)"
        "st3 = ?st1\<lparr>objects := objects st @ bs, trace := trace st @ es1\<rparr>"
        "set es1 \<subseteq> handoff_effects rt env raw (length (objects st)) waId"
      proof (cases "is_set ?url")
        case False
        then show ?thesis
          using that [of Skipped ?st1 "[]" "[]"] by simp
      next
        case configured: True
        show ?thesis
        proof (cases rule: inject_cases [of rt raw "''this is the summary''" ?st1])
          case same
          obtain r where "forwardRawJSON net ?url raw [] ?st1
              = (Inr r, ?st1\<lparr>trace := trace ?st1 @ [Fetch (forward_request ?url raw [])]\<rparr>)"
            using forwardRawJSON_result [of net ?url raw "[]" ?st1] configured by auto
          then show ?thesis
            using that [of r _ "[Fetch (forward_request ?url raw [])]" "[]"] configured same
            by (simp add: handoff_effects_def)
        next
          case (copy b)
          let ?st2 = "?st1\<lparr>objects := objects ?st1 @ [b]\<rparr>"
          obtain r where "forwardRawJSON net ?url (length (objects ?st1)) [] ?st2
              = (Inr r, ?st2\<lparr>trace := trace ?st2
                   @ [Fetch (forward_request ?url (length (objects ?st1)) [])]\<rparr>)"
            using forwardRawJSON_result [of net ?url "length (objects ?st1)" "[]" ?st2] configured
            by auto
          then show ?thesis
            using that [of r _ "[Fetch (forward_request ?url (length (objects st)) [])]" "[b]"]
              configured copy
            by (simp add: handoff_effects_def)
        qed
      qed
      obtain r es2 where template:
        "sendTemplateFrom3cxNumber env net waId st3 = (r, st3\<lparr>trace := trace st3 @ es2\<rparr>)"
        "set es2 \<subseteq> {Fetch (three_cx_request env (template_payload env waId)),
                     Fetch (three_cx_request env (free_form_payload waId))}"
        by (rule sendTemplateFrom3cxNumber_cases)
      have final: "snd (route_message_3cx rt env net raw m st)
          = st\<lparr>handoff := Map_set (handoff st) waId True, objects := objects st @ bs,
               trace := trace st @ (es1 @ es2)\<rparr>"
        using m True forward(1,2) template(1)
        by (cases r) (simp_all add: route_message_3cx_def Let_def)
      have "set (es1 @ es2) \<subseteq> handoff_effects rt env raw (length (objects st)) waId"
        using forward(3) template(2) by (auto simp: handoff_effects_def)
      then show ?thesis
        unfolding final using m by (rule message_step_handoff [rotated])
    next
      case False
      show ?thesis
      proof (cases "Map_get (handoff st) waId \<noteq> Some True")
        case True
        have "message_step True rt env raw m st
           (snd (case getAIReply rt env net waId body st of
                   (Inr None, st1) \<Rightarrow> (Inr (), st1)
                 | (Inr (Some reply), st1) \<Rightarrow> sendWaTextFromMain env net waId reply st1
                 | (Inl e, st1) \<Rightarrow> (Inl e, st1)))"
          using m True by (intro ai_path_step) (simp_all add: sendWaTextFromMain_result)
        then show ?thesis
          using m False True by (simp add: route_message_3cx_def)
      next
        case in_handoff: False
        then show ?thesis
          using m False by (simp add: route_message_3cx_def message_step_skip)
      qed
    qed
  qed
qed

lemma route_message_summary_step:
  "message_step True rt env raw m st (snd (route_message_summary rt env net m st))"
proof (cases "text_message m")
  case (Inl e)
  then show ?thesis
    by (simp add: route_message_summary_def message_step_skip)
next
  case (Inr found)
  show ?thesis
  proof (cases found)
    case None
    then show ?thesis
      using Inr by (simp add: route_message_summary_def message_step_skip)
  next
    case (Some pair)
    obtain waId body where pair: "pair = (waId, body)"
      by (cases pair)
    have m: "text_message m = Inr (Some (waId, body))"
      using Inr Some pair by simp
    show ?thesis
    proof (cases "handoffRegex_test rt env body")
      case True
      let ?st1 = "st\<lparr>handoff := Map_set (handoff st) waId True\<rparr>"
      let ?first = "Fetch (wa_text_request env waId (JStr connecting_text))"
      let ?st2 = "?st1\<lparr>trace := trace ?st1 @ [?first]\<rparr>"
      obtain r1 where first: "sendWaText env net waId (JStr connecting_text) ?st1 = (r1, ?st2)"
        using sendWaText_result by blast
      have "\<exists>es. snd (route_message_summary rt env net m st)
                = st\<lparr>handoff := Map_set (handoff st) waId True, objects := objects st @ [],
                     trace := trace st @ es\<rparr>
              \<and> set es \<subseteq> handoff_effects rt env raw (length (objects st)) waId"
      proof (cases r1)
        case (Inl e)
        then have "snd (route_message_summary rt env net m st)
            = st\<lparr>handoff := Map_set (handoff st) waId True, objects := objects st @ [],
                 trace := trace st @ [?first]\<rparr>"
          using m True first by (simp add: route_message_summary_def Let_def)
        then show ?thesis
          by (intro exI [of _ "[?first]"]) (simp add: handoff_effects_def)
      next
        case (Inr u)
        obtain summary where summary:
          "getAISummary rt env net waId ?st2 =
             (Inr summary, if is_set (OPENAI_SUMMARY_ENDPOINT env)
                then ?st2\<lparr>trace := trace ?st2 @ [Fetch (summary_request rt env waId)]\<rparr>
                else ?st2)"
          using getAISummary_result by blast
        let ?msg = "JStr (''Summary so far:'' @ [CHR 0x0A] @ js_String rt summary)"
        show ?thesis
        proof (cases "is_set (OPENAI_SUMMARY_ENDPOINT env)")
          case True
          let ?st3 = "?st2\<lparr>trace := trace ?st2 @ [Fetch (summary_request rt env waId)]\<rparr>"
          obtain r2 where "sendWaText env net waId ?msg ?st3
              = (r2, ?st3\<lparr>trace := trace ?st3 @ [Fetch (wa_text_request env waId ?msg)]\<rparr>)"
            using sendWaText_result by blast
          then have "snd (route_message_summary rt env net m st)
            = st\<lparr>handoff := Map_set (handoff st) waId True, objects := objects st @ [],
                 trace := trace st @ [?first, Fetch (summary_request rt env waId),
                                      Fetch (wa_text_request env waId ?msg)]\<rparr>"
            using m \<open>handoffRegex_test rt env body\<close> first Inr summary True
            by (simp add: route_message_summary_def Let_def)
          then show ?thesis
            by (intro exI [of _ "[?first, Fetch (summary_request rt env waId),
                                      Fetch (wa_text_request env waId ?msg)]"])
               (simp add: handoff_effects_def)
        next
          case False
          obtain r2 where "sendWaText env net waId ?msg ?st2
              = (r2, ?st2\<lparr>trace := trace ?st2 @ [Fetch (wa_text_request env waId ?msg)]\<rparr>)"
            using sendWaText_result by blast
          then have "snd (route_message_summary rt env net m st)
            = st\<lparr>handoff := Map_set (handoff st) waId True, objects := objects st @ [],
                 trace := trace st @ [?first, Fetch (wa_text_request env waId ?msg)]\<rparr>"
            using m \<open>handoffRegex_test rt env body\<close> first Inr summary False
            by (simp add: route_message_summary_def Let_def)
          then show ?thesis
            by (intro exI [of _ "[?first, Fetch (wa_text_request env waId ?msg)]"])
               (simp add: handoff_effects_def)
        qed
      qed
      then obtain es where final: "snd (route_message_summary rt env net m st)
                = st\<lparr>handoff := Map_set (handoff st) waId True, objects := objects st @ [],
                     trace := trace st @ es\<rparr>"
        and allowed: "set es \<subseteq> handoff_effects rt env raw (length (objects st)) waId"
        by blast
      show ?thesis
        unfolding final using m allowed by (rule message_step_handoff)
    next
      case False
      show ?thesis
      proof (cases "Map_get (handoff st) waId \<noteq> Some True")
        case True
        have "message_step True rt env raw m st
           (snd (case getAIReply rt env net waId body st of
                   (Inr None, st1) \<Rightarrow> (Inr (), st1)
                 | (Inr (Some reply), st1) \<Rightarrow> sendWaText env net waId reply st1
                 | (Inl e, st1) \<Rightarrow> (Inl e, st1)))"
          using m True by (intro ai_path_step) (simp_all add: sendWaText_result)
        then show ?thesis
          using m False True by (simp add: route_message_summary_def)
      next
        case in_handoff: False
        then show ?thesis
          using m False by (simp add: route_message_summary_def message_step_skip)
      qed
    qed
  qed
qed

lemma route_message_n8n_step:
  "message_step False rt env raw m st (snd (route_message_n8n rt env net m st))"
proof (cases "text_message m")
  case (Inl e)
  then show ?thesis
    by (simp add: route_message_n8n_def message_step_skip)
next
  case (Inr found)
  show ?thesis
  proof (cases found)
    case None
    then show ?thesis
      using Inr by (simp add: route_message_n8n_def message_step_skip)
  next
    case (Some pair)
    obtain waId body where pair: "pair = (waId, body)"
      by (cases pair)
    have m: "text_message m = Inr (Some (waId, body))"
      using Inr Some pair by simp
    have "message_step False rt env raw m st
       (snd (case getAIReply rt env net waId body st of
               (Inr None, st1) \<Rightarrow> (Inr (), st1)
             | (Inr (Some reply), st1) \<Rightarrow> sendWaText env net waId reply st1
             | (Inl e, st1) \<Rightarrow> (Inl e, st1)))"
      using m by (intro ai_path_step) (simp_all add: sendWaText_result)
    then show ?thesis
      using m by (simp add: route_message_n8n_def)
  qed
qed

section \<open>What a handler does to the state\<close>

lemma routed_trans:
  "routed gated rt env raw ms b c \<Longrightarrow> routed gated rt env raw ms a b \<Longrightarrow>
   routed gated rt env raw ms a c"
  by (induction rule: routed.induct) (auto intro: routed.intros)

lemma routed_first:
  "m \<in> set ms \<Longrightarrow> message_step gated rt env raw m a b \<Longrightarrow>
   routed gated rt env raw ms b c \<Longrightarrow> routed gated rt env raw ms a c"
  by (meson routed_trans routed.intros)

lemma for_of_routed:
  assumes step: "\<And>m st. message_step gated rt env raw m st (snd (step m st))"
  shows "set xs \<subseteq> set ms \<Longrightarrow> routed gated rt env raw ms st (snd (for_of step xs st))"
proof (induction xs arbitrary: st)
  case Nil
  then show ?case by (simp add: routed_none)
next
  case (Cons m xs)
  obtain r st1 where first: "step m st = (r, st1)"
    by (cases "step m st")
  have one: "message_step gated rt env raw m st st1"
    using step [of m st] first by simp
  show ?case
  proof (cases r)
    case (Inl e)
    then have "snd (for_of step (m # xs) st) = st1"
      using first by simp
    then show ?thesis
      using one Cons.prems by (auto intro: routed_first routed_none)
  next
    case (Inr u)
    then have "snd (for_of step (m # xs) st) = snd (for_of step xs st1)"
      using first by simp
    moreover have "routed gated rt env raw ms st1 (snd (for_of step xs st1))"
      using Cons by simp
    ultimately show ?thesis
      using one Cons.prems by (auto intro: routed_first)
  qed
qed

lemma fan_out_result:
  "\<exists>rs. fan_out net targets raw st = (rs, st\<lparr>trace := trace st @ fan_out_effects targets raw\<rparr>)
        \<and> length rs = length targets \<and> list_all (\<lambda>r. \<exists>v. r = Inr v) rs"
proof (induction targets arbitrary: st)
  case Nil
  then show ?case by (simp add: fan_out_effects_def)
next
  case (Cons t targets)
  obtain target hs where t: "t = (target, hs)"
    by (cases t)
  let ?st1 = "if is_set target
              then st\<lparr>trace := trace st @ [Fetch (forward_request target raw hs)]\<rparr> else st"
  obtain r where first: "forwardRawJSON net target raw hs st = (Inr r, ?st1)"
    using forwardRawJSON_result by blast
  obtain rs where rest:
    "fan_out net targets raw ?st1 = (rs, ?st1\<lparr>trace := trace ?st1 @ fan_out_effects targets raw\<rparr>)"
    "length rs = length targets" "list_all (\<lambda>r. \<exists>v. r = Inr v) rs"
    using Cons [of ?st1] by blast
  show ?case
    using t first rest by (auto simp: fan_out_effects_def)
qed

lemma verified_handler:
  assumes step: "\<And>m st. message_step gated rt env raw m st (snd (step m st))"
    and st2: "st2 = st\<lparr>trace := trace st @ Respond 200 # forwards\<rparr>"
  shows "routed gated rt env raw (loop_messages rt raw st) st2
     (snd (case JSON_parse rt (toString rt (contents st2 raw)) of
                None \<Rightarrow> (Inr (), st2)
              | Some payload \<Rightarrow>
                  (case iterate (or_empty (messages_in payload)) of
                     Inl e \<Rightarrow> (Inl e, st2)
                   | Inr messages \<Rightarrow> for_of step messages st2)))"
proof -
  have same: "contents st2 raw = contents st raw"
    using st2 by (simp add: contents_def)
  show ?thesis
  proof (cases "JSON_parse rt (toString rt (contents st raw))")
    case None
    then show ?thesis
      using same by (simp add: routed_none)
  next
    case (Some payload)
    show ?thesis
    proof (cases "iterate (or_empty (messages_in payload))")
      case (Inl e)
      then show ?thesis
        using same Some by (simp add: routed_none)
    next
      case (Inr messages)
      have "routed gated rt env raw messages st2 (snd (for_of step messages st2))"
        using step by (rule for_of_routed) simp
      then show ?thesis
        using same Some Inr by (simp add: loop_messages_def routed_messages_def)
    qed
  qed
qed

lemma post_wa_n8n_run:
  assumes "verifySignature rt env (contents st raw) sig = Inr True"
  shows "routed False rt env raw (loop_messages rt raw st)
           (acknowledged [(CHATWOOT_WEBHOOK_URL env, chatwoot_headers env)] raw st)
           (snd (post_wa_n8n rt env net sig raw st))"
proof -
  let ?st1 = "respond 200 st"
  let ?st2 = "if is_set (CHATWOOT_WEBHOOK_URL env)
              then snd (forwardRawJSON net (CHATWOOT_WEBHOOK_URL env) raw (chatwoot_headers env) ?st1)
              else ?st1"
  obtain r where "forwardRawJSON net (CHATWOOT_WEBHOOK_URL env) raw (chatwoot_headers env) ?st1
      = (Inr r, if is_set (CHATWOOT_WEBHOOK_URL env)
                then ?st1\<lparr>trace := trace ?st1
                       @ [Fetch (forward_request (CHATWOOT_WEBHOOK_URL env) raw (chatwoot_headers env))]\<rparr>
                else ?st1)"
    using forwardRawJSON_result by blast
  then have st2: "?st2 = st\<lparr>trace := trace st @ Respond 200
        # fan_out_effects [(CHATWOOT_WEBHOOK_URL env, chatwoot_headers env)] raw\<rparr>"
    by (simp add: respond_def fan_out_effects_def)
  have run: "routed False rt env raw (loop_messages rt raw st) ?st2
     (snd (case JSON_parse rt (toString rt (contents ?st2 raw)) of
                None \<Rightarrow> (Inr (), ?st2)
              | Some payload \<Rightarrow>
                  (case iterate (or_empty (messages_in payload)) of
                     Inl e \<Rightarrow> (Inl e, ?st2)
                   | Inr messages \<Rightarrow> for_of (route_message_n8n rt env net) messages ?st2)))"
    by (rule verified_handler [OF route_message_n8n_step st2])
  have unfolded: "post_wa_n8n rt env net sig raw st =
      (case JSON_parse rt (toString rt (contents ?st2 raw)) of
                None \<Rightarrow> (Inr (), ?st2)
              | Some payload \<Rightarrow>
                  (case iterate (or_empty (messages_in payload)) of
                     Inl e \<Rightarrow> (Inl e, ?st2)
                   | Inr messages \<Rightarrow> for_of (route_message_n8n rt env net) messages ?st2))"
    unfolding post_wa_n8n_def Let_def assms by simp
  show ?thesis
    unfolding acknowledged_def st2 [symmetric] unfolded by (rule run)
qed

lemma post_wa_3cx_run:
  assumes "verifySignature rt env (contents st raw) sig = Inr True"
  shows "routed True rt env raw (loop_messages rt raw st)
           (acknowledged [(CHATWOOT_WEBHOOK_URL env, chatwoot_headers env)] raw st)
           (snd (post_wa_3cx rt env net sig raw st))"
proof -
  let ?st1 = "respond 200 st"
  let ?targets = "[(CHATWOOT_WEBHOOK_URL env, chatwoot_headers env)]"
  let ?st2 = "snd (fan_out net ?targets raw ?st1)"
  have st2: "?st2 = st\<lparr>trace := trace st @ Respond 200 # fan_out_effects ?targets raw\<rparr>"
    using fan_out_result [of net ?targets raw ?st1]
    by (auto simp: respond_def simp del: fan_out.simps)
  have run: "routed True rt env raw (loop_messages rt raw st) ?st2
     (snd (case JSON_parse rt (toString rt (contents ?st2 raw)) of
                None \<Rightarrow> (Inr (), ?st2)
              | Some payload \<Rightarrow>
                  (case iterate (or_empty (messages_in payload)) of
                     Inl e \<Rightarrow> (Inl e, ?st2)
                   | Inr messages \<Rightarrow> for_of (route_message_3cx rt env net raw) messages ?st2)))"
    by (rule verified_handler [OF route_message_3cx_step st2])
  have unfolded: "post_wa_3cx rt env net sig raw st =
      (case JSON_parse rt (toString rt (contents ?st2 raw)) of
                None \<Rightarrow> (Inr (), ?st2)
              | Some payload \<Rightarrow>
                  (case iterate (or_empty (messages_in payload)) of
                     Inl e \<Rightarrow> (Inl e, ?st2)
                   | Inr messages \<Rightarrow> for_of (route_message_3cx rt env net raw) messages ?st2))"
    unfolding post_wa_3cx_def Let_def assms by simp
  show ?thesis
    unfolding acknowledged_def st2 [symmetric] unfolded by (rule run)
qed

lemma post_wa_summary_run:
  assumes "verifySignature rt env (contents st raw) sig = Inr True"
  shows "routed True rt env raw (loop_messages rt raw st)
           (acknowledged [(THREE_CX_WEBHOOK_URL env, []),
                          (CHATWOOT_WEBHOOK_URL env, chatwoot_headers env)] raw st)
           (snd (post_wa_summary rt env net sig raw st))"
proof -
  let ?st1 = "respond 200 st"
  let ?targets = "[(THREE_CX_WEBHOOK_URL env, []), (CHATWOOT_WEBHOOK_URL env, chatwoot_headers env)]"
  let ?st2 = "snd (fan_out net ?targets raw ?st1)"
  have st2: "?st2 = st\<lparr>trace := trace st @ Respond 200 # fan_out_effects ?targets raw\<rparr>"
    using fan_out_result [of net ?targets raw ?st1]
    by (auto simp: respond_def simp del: fan_out.simps)
  have run: "routed True rt env raw (loop_messages rt raw st) ?st2
     (snd (case JSON_parse rt (toString rt (contents ?st2 raw)) of
                None \<Rightarrow> (Inr (), ?st2)
              | Some payload \<Rightarrow>
                  (case iterate (or_empty (messages_in payload)) of
                     Inl e \<Rightarrow> (Inl e, ?st2)
                   | Inr messages \<Rightarrow> for_of (route_message_summary rt env net) messages ?st2)))"
    by (rule verified_handler [OF route_message_summary_step st2])
  have unfolded: "post_wa_summary rt env net sig raw st =
      (case JSON_parse rt (toString rt (contents ?st2 raw)) of
                None \<Rightarrow> (Inr (), ?st2)
              | Some payload \<Rightarrow>
                  (case iterate (or_empty (messages_in payload)) of
                     Inl e \<Rightarrow> (Inl e, ?st2)
                   | Inr messages \<Rightarrow> for_of (route_message_summary rt env net) messages ?st2))"
    unfolding post_wa_summary_def Let_def assms by simp
  show ?thesis
    unfolding acknowledged_def st2 [symmetric] unfolded by (rule run)
qed

lemma unverified_handlers:
  assumes "verifySignature rt env (contents st raw) sig = Inr False"
  shows "post_wa_n8n rt env net sig raw st = (Inr (), respond 401 st)"
    and "post_wa_3cx rt env net sig raw st = (Inr (), respond 401 st)"
    and "post_wa_summary rt env net sig raw st = (Inr (), respond 401 st)"
  using assms by (simp_all add: post_wa_n8n_def post_wa_3cx_def post_wa_summary_def)

lemma throwing_handlers:
  assumes "verifySignature rt env (contents st raw) sig = Inl TypeError"
  shows "post_wa_n8n rt env net sig raw st = (Inl TypeError, st)"
    and "post_wa_3cx rt env net sig raw st = (Inl TypeError, st)"
    and "post_wa_summary rt env net sig raw st = (Inl TypeError, st)"
  using assms by (simp_all add: post_wa_n8n_def post_wa_3cx_def post_wa_summary_def)

lemma ai_effects_caused: "e \<in> ai_effects rt env waId txt \<Longrightarrow> caused_by rt env waId txt e"
  by (auto simp: ai_effects_def caused_by_def)

lemma handoff_effects_caused:
  "e \<in> handoff_effects rt env raw copy waId \<Longrightarrow> caused_by rt env waId txt e"
  by (auto simp: handoff_effects_def caused_by_def)

lemma caused_by_is_fetch: "caused_by rt env waId txt e \<Longrightarrow> is_fetch e"
  by (auto simp: caused_by_def)

lemma caused_by_buffer:
  "caused_by rt env waId txt (Fetch r) \<Longrightarrow> req_body r = BufferBody a \<Longrightarrow>
   r = forward_request (THREE_CX_WEBHOOK_URL env) a []"
  by (auto simp: caused_by_def ai_request_def wa_text_request_def summary_request_def
        three_cx_request_def forward_request_def)

lemma in_handoff_Map_set: "in_handoff st w \<Longrightarrow> in_handoff (st\<lparr>handoff := Map_set (handoff st) waId True\<rparr>) w"
  by (auto simp: in_handoff_def Map_set_def Map_get_def)

lemma in_handoff_new:
  "in_handoff (st\<lparr>handoff := Map_set (handoff st) waId True\<rparr>) w \<Longrightarrow> in_handoff st w \<or> w = waId"
  by (auto simp: in_handoff_def Map_set_def Map_get_def split: if_splits)

lemma in_handoff_frame [simp]:
  "in_handoff (st\<lparr>trace := t\<rparr>) w = in_handoff st w"
  "in_handoff (st\<lparr>objects := b\<rparr>) w = in_handoff st w"
  by (simp_all add: in_handoff_def)

lemma message_step_summary:
  assumes "message_step gated rt env raw m st st'"
  shows "\<exists>es bs. trace st' = trace st @ es \<and> objects st' = objects st @ bs
          \<and> (\<forall>e \<in> set es. \<exists>waId txt. text_message m = Inr (Some (waId, txt))
                                  \<and> caused_by rt env waId txt e)
          \<and> (\<forall>w. in_handoff st w \<longrightarrow> in_handoff st' w)
          \<and> (\<forall>w. in_handoff st' w \<longrightarrow>
                 in_handoff st w \<or> (\<exists>txt. text_message m = Inr (Some (w, txt))))"
proof -
  consider (skip) "st' = st"
    | (ai) waId body es where "text_message m = Inr (Some (waId, body))"
        "set es \<subseteq> ai_effects rt env waId body" "st' = st\<lparr>trace := trace st @ es\<rparr>"
    | (handoff) waId body es bs where "text_message m = Inr (Some (waId, body))"
        "set es \<subseteq> handoff_effects rt env raw (length (objects st)) waId"
        "st' = st\<lparr>handoff := Map_set (handoff st) waId True, objects := objects st @ bs,
                  trace := trace st @ es\<rparr>"
    using assms unfolding message_step_def by blast
  then show ?thesis
  proof cases
    case skip
    then show ?thesis
      by (intro exI [of _ "[]"]) simp
  next
    case ai
    have "\<forall>e \<in> set es. \<exists>waId txt. text_message m = Inr (Some (waId, txt)) \<and> caused_by rt env waId txt e"
      using ai(1,2) ai_effects_caused by blast
    then show ?thesis
      using ai(3) by (intro exI [of _ es] exI [of _ "[]"]) simp
  next
    case handoff
    have caused: "\<forall>e \<in> set es. \<exists>waId txt. text_message m = Inr (Some (waId, txt)) \<and> caused_by rt env waId txt e"
      using handoff(1,2) handoff_effects_caused by blast
    have kept: "\<forall>w. in_handoff st w \<longrightarrow> in_handoff st' w"
      using handoff(3) in_handoff_Map_set [of st _ waId] by (simp add: in_handoff_def)
    have new: "\<forall>w. in_handoff st' w \<longrightarrow> in_handoff st w \<or> (\<exists>txt. text_message m = Inr (Some (w, txt)))"
    proof (intro allI impI)
      fix w assume "in_handoff st' w"
      then have "in_handoff (st\<lparr>handoff := Map_set (handoff st) waId True\<rparr>) w"
        using handoff(3) by (simp add: in_handoff_def)
      then show "in_handoff st w \<or> (\<exists>txt. text_message m = Inr (Some (w, txt)))"
        using in_handoff_new handoff(1) by blast
    qed
    show ?thesis
      using handoff(3) caused kept new by (intro exI [of _ es] exI [of _ bs]) simp
  qed
qed

lemma routed_summary:
  assumes "routed gated rt env raw ms st st'"
  shows "\<exists>es bs. trace st' = trace st @ es \<and> objects st' = objects st @ bs
          \<and> (\<forall>e \<in> set es. \<exists>m \<in> set ms. \<exists>waId txt. text_message m = Inr (Some (waId, txt))
                                  \<and> caused_by rt env waId txt e)
          \<and> (\<forall>w. in_handoff st w \<longrightarrow> in_handoff st' w)
          \<and> (\<forall>w. in_handoff st' w \<longrightarrow>
                 in_handoff st w \<or> (\<exists>m \<in> set ms. \<exists>txt. text_message m = Inr (Some (w, txt))))"
  using assms
proof (induction rule: routed.induct)
  case (routed_none st)
  show ?case
    by (intro exI [of _ "[]"]) simp
next
  case (routed_more st st1 m st2)
  obtain es1 bs1 where first:
    "trace st1 = trace st @ es1" "objects st1 = objects st @ bs1"
    "\<forall>e \<in> set es1. \<exists>m \<in> set ms. \<exists>waId txt. text_message m = Inr (Some (waId, txt))
                                  \<and> caused_by rt env waId txt e"
    "\<forall>w. in_handoff st w \<longrightarrow> in_handoff st1 w"
    "\<forall>w. in_handoff st1 w \<longrightarrow>
                 in_handoff st w \<or> (\<exists>m \<in> set ms. \<exists>txt. text_message m = Inr (Some (w, txt)))"
    using routed_more.IH by blast
  obtain es2 bs2 where second:
    "trace st2 = trace st1 @ es2" "objects st2 = objects st1 @ bs2"
    "\<forall>e \<in> set es2. \<exists>waId txt. text_message m = Inr (Some (waId, txt))
                                  \<and> caused_by rt env waId txt e"
    "\<forall>w. in_handoff st1 w \<longrightarrow> in_handoff st2 w"
    "\<forall>w. in_handoff st2 w \<longrightarrow>
                 in_handoff st1 w \<or> (\<exists>txt. text_message m = Inr (Some (w, txt)))"
    using message_step_summary [OF routed_more.hyps(3)] by blast
  have caused: "\<forall>e \<in> set (es1 @ es2). \<exists>m \<in> set ms. \<exists>waId txt.
      text_message m = Inr (Some (waId, txt)) \<and> caused_by rt env waId txt e"
    using first(3) second(3) routed_more.hyps(2) by (auto simp: Bex_def)
  have kept: "\<forall>w. in_handoff st w \<longrightarrow> in_handoff st2 w"
    using first(4) second(4) by blast
  have new: "\<forall>w. in_handoff st2 w \<longrightarrow>
                 in_handoff st w \<or> (\<exists>m \<in> set ms. \<exists>txt. text_message m = Inr (Some (w, txt)))"
    using first(5) second(5) routed_more.hyps(2) by blast
  show ?case
    using first(1,2) second(1,2) caused kept new
    by (intro exI [of _ "es1 @ es2"] exI [of _ "bs1 @ bs2"]) simp
qed

lemma fan_out_effects_fetch: "list_all is_fetch (fan_out_effects targets raw)"
  by (induction targets) (auto simp: fan_out_effects_def)

lemma acknowledged_frame [simp]:
  "trace (acknowledged targets raw st) = trace st @ Respond 200 # fan_out_effects targets raw"
  "objects (acknowledged targets raw st) = objects st"
  "in_handoff (acknowledged targets raw st) w = in_handoff st w"
  by (simp_all add: acknowledged_def)

section \<open>Fan-out\<close>

lemma forwardRawJSON_settles:
  "is_set target \<Longrightarrow>
   forwardRawJSON net target raw hs st
     = (Inr (settle (net st (forward_request target raw hs))),
        st\<lparr>trace := trace st @ [Fetch (forward_request target raw hs)]\<rparr>)"
  by (cases "net st (forward_request target raw hs)")
     (auto simp: forwardRawJSON_def js_fetch_def settle_def)

lemma forwardRawJSON_skips:
  "\<not> is_set target \<Longrightarrow> forwardRawJSON net target raw hs st = (Inr Skipped, st)"
  by (simp add: forwardRawJSON_def)

lemma fan_out_effects_Cons:
  "fan_out_effects ((target, hs) # targets) raw
     = (if is_set target then [Fetch (forward_request target raw hs)] else [])
       @ fan_out_effects targets raw"
  by (simp add: fan_out_effects_def)

lemma fan_out_each:
  "i < length targets \<Longrightarrow>
   fst (fan_out net targets raw st) ! i
     = fst (forwardRawJSON net (fst (targets ! i)) raw (snd (targets ! i))
              (st\<lparr>trace := trace st @ fan_out_effects (take i targets) raw\<rparr>))"
proof (induction targets arbitrary: i st)
  case Nil
  then show ?case by simp
next
  case (Cons t targets)
  obtain target hs where t: "t = (target, hs)"
    by (cases t)
  let ?st1 = "if is_set target
              then st\<lparr>trace := trace st @ [Fetch (forward_request target raw hs)]\<rparr> else st"
  obtain r where first: "forwardRawJSON net target raw hs st = (Inr r, ?st1)"
    using forwardRawJSON_result by blast
  obtain rs st2 where rest: "fan_out net targets raw ?st1 = (rs, st2)"
    by (cases "fan_out net targets raw ?st1")
  show ?case
  proof (cases i)
    case 0
    then show ?thesis
      using t first rest by (simp add: fan_out_effects_def)
  next
    case (Suc j)
    then have "j < length targets"
      using Cons.prems by simp
    then have "fst (fan_out net targets raw ?st1) ! j
        = fst (forwardRawJSON net (fst (targets ! j)) raw (snd (targets ! j))
              (?st1\<lparr>trace := trace ?st1 @ fan_out_effects (take j targets) raw\<rparr>))"
      by (rule Cons.IH)
    then show ?thesis
      using t first rest Suc by (simp add: fan_out_effects_Cons)
  qed
qed

text \<open>
  C6. \<open>forwardRawJSON\<close> without a target does nothing and returns the result skipped.
  With a target it starts one request that carries the Buffer and never throws: a status
  that is not ok and a rejected \<^verbatim>\<open>fetch\<close> become results of that call. The fan-out over
  any list of targets starts the request of every configured target, whatever the
  network answers to the others; it returns one result per target, and the result for a
  target is the one \<open>forwardRawJSON\<close> gives for that target alone, so a target whose sink
  accepts is delivered to when another fails. The state changes by these requests only:
  no status is written, and the acknowledgment in the trace stays as it is.
\<close>

theorem fan_out_isolates_failures:
  "(\<not> is_set target \<longrightarrow> forwardRawJSON net target raw hs st = (Inr Skipped, st))
   \<and> (is_set target \<longrightarrow>
        forwardRawJSON net target raw hs st
          = (Inr (case net st (forward_request target raw hs) of
                    Response status body \<Rightarrow> if ok status then Delivered else Refused status
                  | Unreachable msg \<Rightarrow> Failed msg),
             st\<lparr>trace := trace st @ [Fetch (forward_request target raw hs)]\<rparr>))
   \<and> (\<exists>rs. fan_out net targets raw st
               = (rs, st\<lparr>trace := trace st @ fan_out_effects targets raw\<rparr>)
          \<and> length rs = length targets
          \<and> list_all is_fetch (fan_out_effects targets raw)
          \<and> (\<forall>i. i < length targets \<longrightarrow>
                rs ! i = fst (forwardRawJSON net (fst (targets ! i)) raw (snd (targets ! i))
                               (st\<lparr>trace := trace st @ fan_out_effects (take i targets) raw\<rparr>))))"
proof -
  obtain rs where rs: "fan_out net targets raw st
               = (rs, st\<lparr>trace := trace st @ fan_out_effects targets raw\<rparr>)"
      "length rs = length targets"
    using fan_out_result by blast
  have "\<forall>i. i < length targets \<longrightarrow>
                rs ! i = fst (forwardRawJSON net (fst (targets ! i)) raw (snd (targets ! i))
                               (st\<lparr>trace := trace st @ fan_out_effects (take i targets) raw\<rparr>))"
    using fan_out_each [of _ targets net raw st] rs(1) by simp
  then show ?thesis
    using rs forwardRawJSON_skips forwardRawJSON_settles [of target net raw hs st]
      fan_out_effects_fetch [of targets raw]
    by (auto simp: settle_def)
qed

lemma example_fan_out:
  "fst (fan_out bridge_down example_targets 0 (fresh two_messages)) = [Inr (Refused 500), Inr Delivered]"
  by code_simp

theorem fan_out_isolates_failures_witness:
  "forwardRawJSON bridge_down None 0 [] (fresh two_messages) = (Inr Skipped, fresh two_messages)
   \<and> fst (fan_out bridge_down example_targets 0 (fresh two_messages))
       = [Inr (Refused 500), Inr Delivered]
   \<and> snd (fan_out bridge_down example_targets 0 (fresh two_messages))
       = (fresh two_messages)\<lparr>trace := trace (fresh two_messages)
            @ fan_out_effects example_targets 0\<rparr>"
proof -
  have unset: "\<not> is_set None"
    by (simp add: is_set_def)
  show ?thesis
    using fan_out_isolates_failures
      [of None bridge_down 0 "[]" "fresh two_messages" example_targets] unset example_fan_out
    by auto
qed

section \<open>The acknowledgment comes first\<close>

lemma routed_fetches:
  assumes "routed gated rt env raw ms (acknowledged targets raw st) st'"
  shows "\<exists>es. trace st' = trace st @ Respond 200 # es \<and> list_all is_fetch es"
proof -
  obtain es where es: "trace st' = trace (acknowledged targets raw st) @ es"
    "\<forall>e \<in> set es. \<exists>m \<in> set ms. \<exists>waId txt. text_message m = Inr (Some (waId, txt))
                                  \<and> caused_by rt env waId txt e"
    using routed_summary [OF assms] by blast
  have "list_all is_fetch es"
    using es(2) caused_by_is_fetch by (fastforce simp: list_all_iff)
  then have "list_all is_fetch (fan_out_effects targets raw @ es)"
    using fan_out_effects_fetch by simp
  then show ?thesis
    using es(1) by (intro exI [of _ "fan_out_effects targets raw @ es"]) simp
qed

text \<open>
  C1. For an event whose signature verifies, and for every network (every way the
  downstream calls can answer or fail), whether the handler ends normally or with an
  exception: the first effect of each of the three handlers is the status 200, and every
  effect after it is an outbound request. So no outbound call starts before the
  acknowledgment, and no other status is written.
\<close>

theorem acknowledgment_before_outbound_calls:
  "verifySignature rt env (contents st raw) sig = Inr True \<Longrightarrow>
   (\<exists>es. trace (snd (post_wa_n8n rt env net sig raw st)) = trace st @ Respond 200 # es
          \<and> list_all is_fetch es)
   \<and> (\<exists>es. trace (snd (post_wa_3cx rt env net sig raw st)) = trace st @ Respond 200 # es
          \<and> list_all is_fetch es)
   \<and> (\<exists>es. trace (snd (post_wa_summary rt env net sig raw st)) = trace st @ Respond 200 # es
          \<and> list_all is_fetch es)"
  using routed_fetches [OF post_wa_n8n_run] routed_fetches [OF post_wa_3cx_run]
    routed_fetches [OF post_wa_summary_run]
  by blast

lemma two_messages_verified:
  "verifySignature lite example_env (contents (fresh two_messages) 0) (signed two_messages) = Inr True"
  by code_simp

theorem acknowledgment_before_outbound_calls_witness:
  "(\<exists>es. trace (snd (post_wa_n8n lite example_env all_down (signed two_messages) 0
                      (fresh two_messages))) = Respond 200 # es \<and> list_all is_fetch es)
   \<and> (\<exists>es. trace (snd (post_wa_3cx lite example_env all_down (signed two_messages) 0
                      (fresh two_messages))) = Respond 200 # es \<and> list_all is_fetch es)
   \<and> (\<exists>es. trace (snd (post_wa_summary lite example_env all_down (signed two_messages) 0
                      (fresh two_messages))) = Respond 200 # es \<and> list_all is_fetch es)"
  using acknowledgment_before_outbound_calls [OF two_messages_verified, of all_down]
  by (simp add: fresh_def)

section \<open>Handoff is permanent\<close>

lemma handoff_effects_no_ai: "Fetch (ai_request rt env w body) \<notin> handoff_effects rt env raw copy waId"
  by (auto simp: handoff_effects_def ai_request_def forward_request_def three_cx_request_def
        summary_request_def wa_text_request_def template_payload_def free_form_payload_def)

lemma ai_effects_other: "w \<noteq> waId \<Longrightarrow> Fetch (ai_request rt env w body) \<notin> ai_effects rt env waId txt"
  by (auto simp: ai_effects_def ai_request_def wa_text_request_def)

lemma message_step_handoff_kept:
  assumes "message_step True rt env raw m st st'" "in_handoff st w"
  shows "\<exists>es. trace st' = trace st @ es \<and> (\<forall>body. Fetch (ai_request rt env w body) \<notin> set es)"
proof -
  consider (skip) "st' = st"
    | (ai) waId body es where "Map_get (handoff st) waId \<noteq> Some True"
        "set es \<subseteq> ai_effects rt env waId body" "st' = st\<lparr>trace := trace st @ es\<rparr>"
    | (handoff) waId es bs where
        "set es \<subseteq> handoff_effects rt env raw (length (objects st)) waId"
        "st' = st\<lparr>handoff := Map_set (handoff st) waId True, objects := objects st @ bs,
                  trace := trace st @ es\<rparr>"
    using assms(1) unfolding message_step_def by blast
  then show ?thesis
  proof cases
    case skip
    then show ?thesis
      by (intro exI [of _ "[]"]) simp
  next
    case ai
    have "w \<noteq> waId"
      using ai(1) assms(2) by (auto simp: in_handoff_def)
    then have "\<forall>body. Fetch (ai_request rt env w body) \<notin> set es"
      using ai(2) ai_effects_other by blast
    then show ?thesis
      using ai(3) by (intro exI [of _ es]) simp
  next
    case handoff
    have "\<forall>body. Fetch (ai_request rt env w body) \<notin> set es"
      using handoff(1) handoff_effects_no_ai by blast
    then show ?thesis
      using handoff(2) by (intro exI [of _ es]) simp
  qed
qed

lemma routed_handoff_kept:
  assumes "routed True rt env raw ms st st'" "in_handoff st w"
  shows "in_handoff st' w
     \<and> (\<exists>es. trace st' = trace st @ es \<and> (\<forall>body. Fetch (ai_request rt env w body) \<notin> set es))"
  using assms
proof (induction rule: routed.induct)
  case (routed_none st)
  then show ?case
    by (intro conjI exI [of _ "[]"]) simp_all
next
  case (routed_more st st1 m st2)
  then obtain es1 where first: "in_handoff st1 w" "trace st1 = trace st @ es1"
      "\<forall>body. Fetch (ai_request rt env w body) \<notin> set es1"
    by blast
  obtain es2 where second: "trace st2 = trace st1 @ es2"
      "\<forall>body. Fetch (ai_request rt env w body) \<notin> set es2"
    using message_step_handoff_kept [OF routed_more.hyps(3) first(1)] by blast
  have "in_handoff st2 w"
    using message_step_summary [OF routed_more.hyps(3)] first(1) by blast
  then show ?case
    using first second by (intro conjI exI [of _ "es1 @ es2"]) simp_all
qed

lemma fan_out_effects_no_ai: "Fetch (ai_request rt env w body) \<notin> set (fan_out_effects targets raw)"
  by (auto simp: fan_out_effects_def ai_request_def forward_request_def)

lemma handler_handoff_kept:
  assumes run: "\<And>st raw sig. verifySignature rt env (contents st raw) sig = Inr True \<Longrightarrow>
      routed True rt env raw (loop_messages rt raw st) (acknowledged targets raw st)
        (snd (handler sig raw st))"
    and refused: "\<And>st raw sig. verifySignature rt env (contents st raw) sig = Inr False \<Longrightarrow>
      handler sig raw st = (Inr (), respond 401 st)"
    and threw: "\<And>st raw sig. verifySignature rt env (contents st raw) sig = Inl TypeError \<Longrightarrow>
      handler sig raw st = (Inl TypeError, st)"
    and flag: "in_handoff st w"
  shows "in_handoff (snd (handler sig raw st)) w
     \<and> (\<exists>es. trace (snd (handler sig raw st)) = trace st @ es
            \<and> (\<forall>body. Fetch (ai_request rt env w body) \<notin> set es))"
proof (cases rule: verifySignature_cases [of "contents st raw" rt env sig])
  case (accepted data)
  have "in_handoff (acknowledged targets raw st) w"
    using flag by simp
  then obtain es where es: "in_handoff (snd (handler sig raw st)) w"
    "trace (snd (handler sig raw st)) = trace (acknowledged targets raw st) @ es"
    "\<forall>body. Fetch (ai_request rt env w body) \<notin> set es"
    using routed_handoff_kept [OF run [OF accepted(2)]] by blast
  have "\<forall>body. Fetch (ai_request rt env w body) \<notin> set (Respond 200 # fan_out_effects targets raw @ es)"
    using es(3) fan_out_effects_no_ai by simp
  then show ?thesis
    using es(1,2) by (intro conjI exI [of _ "Respond 200 # fan_out_effects targets raw @ es"]) simp_all
next
  case refused
  then show ?thesis
    using assms(2) [OF refused] flag
    by (intro conjI exI [of _ "[Respond 401]"]) (simp_all add: respond_def in_handoff_def)
next
  case threw
  then show ?thesis
    using assms(3) [OF threw(2)] flag
    by (intro conjI exI [of _ "[]"]) simp_all
qed

lemma serve_handoff_kept:
  assumes handler: "\<And>st raw sig. in_handoff st w \<Longrightarrow>
      in_handoff (snd (handler sig raw st)) w
      \<and> (\<exists>es. trace (snd (handler sig raw st)) = trace st @ es
            \<and> (\<forall>body. Fetch (ai_request rt env w body) \<notin> set es))"
  shows "in_handoff st w \<Longrightarrow>
     in_handoff (serve handler events st) w
     \<and> (\<exists>es. trace (serve handler events st) = trace st @ es
            \<and> (\<forall>body. Fetch (ai_request rt env w body) \<notin> set es))"
proof (induction events arbitrary: st)
  case Nil
  then show ?case
    by (intro conjI exI [of _ "[]"]) simp_all
next
  case (Cons event events)
  obtain sig rawBody where event: "event = (sig, rawBody)"
    by (cases event)
  let ?st0 = "st\<lparr>objects := objects st @ [rawBody]\<rparr>"
  let ?st1 = "snd (handler sig (length (objects st)) ?st0)"
  have "in_handoff ?st0 w"
    using Cons.prems by simp
  then obtain es1 where first: "in_handoff ?st1 w" "trace ?st1 = trace ?st0 @ es1"
    "\<forall>body. Fetch (ai_request rt env w body) \<notin> set es1"
    using handler [of ?st0 sig "length (objects st)"] by blast
  obtain es2 where rest: "in_handoff (serve handler events ?st1) w"
    "trace (serve handler events ?st1) = trace ?st1 @ es2"
    "\<forall>body. Fetch (ai_request rt env w body) \<notin> set es2"
    using Cons.IH [OF first(1)] by blast
  show ?case
    using event first rest by (intro conjI exI [of _ "es1 @ es2"]) simp_all
qed

lemma for_of_handoff_kept:
  assumes step: "\<And>m st. message_step True rt env raw m st (snd (step m st))"
    and flag: "in_handoff st w"
  shows "in_handoff (snd (for_of step ms st)) w
     \<and> (\<exists>es. trace (snd (for_of step ms st)) = trace st @ es
            \<and> (\<forall>body. Fetch (ai_request rt env w body) \<notin> set es))"
proof -
  have "routed True rt env raw ms st (snd (for_of step ms st))"
    using step by (rule for_of_routed) simp
  then show ?thesis
    using flag by (rule routed_handoff_kept)
qed

text \<open>
  C2. Let the handoff flag of the conversation \<open>w\<close> be set. Then in both servers of
  part\_002, for every network and whatever the texts of the messages are: the loop over
  any further messages of the event keeps the flag and starts no request to the AI
  backend for \<open>w\<close>; and serving any sequence of further events (verified or not) keeps
  the flag and starts no request to the AI backend for \<open>w\<close>.
\<close>

theorem handoff_is_permanent:
  "in_handoff st w \<Longrightarrow>
   (in_handoff (snd (for_of (route_message_3cx rt env net raw) ms st)) w
      \<and> (\<exists>es. trace (snd (for_of (route_message_3cx rt env net raw) ms st)) = trace st @ es
             \<and> (\<forall>body. Fetch (ai_request rt env w body) \<notin> set es)))
   \<and> (in_handoff (snd (for_of (route_message_summary rt env net) ms st)) w
      \<and> (\<exists>es. trace (snd (for_of (route_message_summary rt env net) ms st)) = trace st @ es
             \<and> (\<forall>body. Fetch (ai_request rt env w body) \<notin> set es)))
   \<and> (in_handoff (serve (post_wa_3cx rt env net) events st) w
      \<and> (\<exists>es. trace (serve (post_wa_3cx rt env net) events st) = trace st @ es
             \<and> (\<forall>body. Fetch (ai_request rt env w body) \<notin> set es)))
   \<and> (in_handoff (serve (post_wa_summary rt env net) events st) w
      \<and> (\<exists>es. trace (serve (post_wa_summary rt env net) events st) = trace st @ es
             \<and> (\<forall>body. Fetch (ai_request rt env w body) \<notin> set es)))"
proof -
  assume flag: "in_handoff st w"
  have loop_3cx: "in_handoff (snd (for_of (route_message_3cx rt env net raw) ms st)) w
      \<and> (\<exists>es. trace (snd (for_of (route_message_3cx rt env net raw) ms st)) = trace st @ es
             \<and> (\<forall>body. Fetch (ai_request rt env w body) \<notin> set es))"
    using route_message_3cx_step flag by (rule for_of_handoff_kept)
  have loop_summary: "in_handoff (snd (for_of (route_message_summary rt env net) ms st)) w
      \<and> (\<exists>es. trace (snd (for_of (route_message_summary rt env net) ms st)) = trace st @ es
             \<and> (\<forall>body. Fetch (ai_request rt env w body) \<notin> set es))"
    using route_message_summary_step [where raw = 0] flag by (rule for_of_handoff_kept)
  have events_3cx: "in_handoff (serve (post_wa_3cx rt env net) events st) w
      \<and> (\<exists>es. trace (serve (post_wa_3cx rt env net) events st) = trace st @ es
             \<and> (\<forall>body. Fetch (ai_request rt env w body) \<notin> set es))"
    by (rule serve_handoff_kept
          [OF handler_handoff_kept [OF post_wa_3cx_run unverified_handlers(2) throwing_handlers(2)]
              flag])
  have events_summary: "in_handoff (serve (post_wa_summary rt env net) events st) w
      \<and> (\<exists>es. trace (serve (post_wa_summary rt env net) events st) = trace st @ es
             \<and> (\<forall>body. Fetch (ai_request rt env w body) \<notin> set es))"
    by (rule serve_handoff_kept
          [OF handler_handoff_kept
                [OF post_wa_summary_run unverified_handlers(3) throwing_handlers(3)]
              flag])
  show ?thesis
    using loop_3cx loop_summary events_3cx events_summary by blast
qed

lemma after_handoff_flag: "in_handoff after_handoff (JStr ''111'')"
  by code_simp

theorem handoff_is_permanent_witness:
  "in_handoff after_handoff (JStr ''111'')
   \<and> in_handoff (serve (post_wa_3cx lite example_env all_ok)
         [(signed two_messages, Buffer two_messages), (signed human_event, Buffer human_event)] after_handoff)
        (JStr ''111'')
   \<and> (\<exists>es. trace (serve (post_wa_3cx lite example_env all_ok)
         [(signed two_messages, Buffer two_messages), (signed human_event, Buffer human_event)] after_handoff)
          = trace after_handoff @ es
        \<and> (\<forall>body. Fetch (ai_request lite example_env (JStr ''111'') body) \<notin> set es))"
  using handoff_is_permanent [OF after_handoff_flag, of lite example_env all_ok]
    after_handoff_flag
  by blast

section \<open>The bytes the observers get\<close>

lemma contents_append: "a < length (objects st) \<Longrightarrow> objects st' = objects st @ bs \<Longrightarrow>
  contents st' a = contents st a"
  by (simp add: contents_def nth_append)

lemma inject_frame:
  "case injectSummaryIntoPayload rt rawBuffer s st of
     (r, st') \<Rightarrow> handoff st' = handoff st \<and> trace st' = trace st
        \<and> (\<exists>bs. objects st' = objects st @ bs)"
  by (cases rule: inject_cases [where rt = rt and raw = rawBuffer and s = s and st = st]) auto

text \<open>
  C9. The injection changes no object that exists: it returns its argument or a new
  Buffer. In the first server of part\_002, for a verified event in the Buffer \<open>raw\<close>:
  after the handler, \<open>raw\<close> holds the bytes it held when the event was received; the
  request to the Chatwoot sink (when one is configured) comes right after the
  acknowledgment and its body is the Buffer \<open>raw\<close> itself; and any later request whose
  body is a Buffer is the forward to the 3CX sink, the only one that can carry the
  annotated copy.
\<close>

theorem observers_get_original_bytes:
  "verifySignature rt env (contents st raw) sig = Inr True \<Longrightarrow> raw < length (objects st) \<Longrightarrow>
   (\<forall>s st0. case injectSummaryIntoPayload rt raw s st0 of
        (r, st1) \<Rightarrow> \<forall>a. a < length (objects st0) \<longrightarrow> contents st1 a = contents st0 a)
   \<and> contents (snd (post_wa_3cx rt env net sig raw st)) raw = contents st raw
   \<and> (\<exists>es. trace (snd (post_wa_3cx rt env net sig raw st))
            = trace st @ Respond 200
                # (if is_set (CHATWOOT_WEBHOOK_URL env)
                   then [Fetch \<lparr>req_url = interpolate (CHATWOOT_WEBHOOK_URL env),
                                req_headers = (''Content-Type'', ''application/json'')
                                              # chatwoot_headers env,
                                req_body = BufferBody raw\<rparr>]
                   else []) @ es
          \<and> (\<forall>r a. Fetch r \<in> set es \<and> req_body r = BufferBody a
                 \<longrightarrow> r = \<lparr>req_url = interpolate (THREE_CX_WEBHOOK_URL env),
                          req_headers = [(''Content-Type'', ''application/json'')],
                          req_body = BufferBody a\<rparr>))"
proof -
  assume verified: "verifySignature rt env (contents st raw) sig = Inr True"
    and allocated: "raw < length (objects st)"
  let ?st' = "snd (post_wa_3cx rt env net sig raw st)"
  let ?targets = "[(CHATWOOT_WEBHOOK_URL env, chatwoot_headers env)]"
  have inject: "\<forall>s st0. case injectSummaryIntoPayload rt raw s st0 of
        (r, st1) \<Rightarrow> \<forall>a. a < length (objects st0) \<longrightarrow> contents st1 a = contents st0 a"
  proof (intro allI)
    fix s st0
    show "case injectSummaryIntoPayload rt raw s st0 of
        (r, st1) \<Rightarrow> \<forall>a. a < length (objects st0) \<longrightarrow> contents st1 a = contents st0 a"
      by (cases rule: inject_cases [where rt = rt and raw = raw and s = s and st = st0])
         (auto simp: contents_def nth_append)
  qed
  obtain es bs where run: "trace ?st' = trace (acknowledged ?targets raw st) @ es"
    "objects ?st' = objects (acknowledged ?targets raw st) @ bs"
    "\<forall>e \<in> set es. \<exists>m \<in> set (loop_messages rt raw st). \<exists>waId txt.
        text_message m = Inr (Some (waId, txt)) \<and> caused_by rt env waId txt e"
    using routed_summary [OF post_wa_3cx_run [OF verified, of net]] by blast
  have "objects ?st' = objects st @ bs"
    using run(2) by simp
  with allocated have same: "contents ?st' raw = contents st raw"
    by (rule contents_append)
  have carried: "\<forall>r a. Fetch r \<in> set es \<and> req_body r = BufferBody a
                 \<longrightarrow> r = \<lparr>req_url = interpolate (THREE_CX_WEBHOOK_URL env),
                          req_headers = [(''Content-Type'', ''application/json'')],
                          req_body = BufferBody a\<rparr>"
    using run(3) caused_by_buffer by (fastforce simp: forward_request_def)
  have "trace ?st' = trace st @ Respond 200
                # (if is_set (CHATWOOT_WEBHOOK_URL env)
                   then [Fetch \<lparr>req_url = interpolate (CHATWOOT_WEBHOOK_URL env),
                                req_headers = (''Content-Type'', ''application/json'')
                                              # chatwoot_headers env,
                                req_body = BufferBody raw\<rparr>]
                   else []) @ es"
    using run(1) by (simp add: fan_out_effects_def forward_request_def)
  then show ?thesis
    using inject same carried by blast
qed

lemma second_event_verified:
  "verifySignature lite example_env (contents second_event 1) (signed human_event) = Inr True"
  by code_simp

theorem observers_get_original_bytes_witness:
  \<open>contents (snd (post_wa_3cx lite example_env all_ok (signed human_event) 1 second_event)) 1
     = Buffer human_event
   \<and> (\<exists>es. trace (snd (post_wa_3cx lite example_env all_ok (signed human_event) 1 second_event))
            = Respond 200
               # Fetch \<lparr>req_url = ''http://chatwoot/hook'',
                         req_headers = [(''Content-Type'', ''application/json''),
                                        (''X-Chatwoot-Webhook-Token'', ''cw-token'')],
                         req_body = BufferBody 1\<rparr> # es
          \<and> (\<forall>r a. Fetch r \<in> set es \<and> req_body r = BufferBody a
                 \<longrightarrow> r = \<lparr>req_url = ''http://3cx/hook'',
                          req_headers = [(''Content-Type'', ''application/json'')],
                          req_body = BufferBody a\<rparr>))
   \<and> trace (snd (post_wa_3cx lite example_env all_ok (signed human_event) 1 second_event))
       = [Respond 200,
          Fetch \<lparr>req_url = ''http://chatwoot/hook'',
                 req_headers = [(''Content-Type'', ''application/json''),
                                (''X-Chatwoot-Webhook-Token'', ''cw-token'')],
                 req_body = BufferBody 1\<rparr>,
          Fetch \<lparr>req_url = ''http://3cx/hook'',
                 req_headers = [(''Content-Type'', ''application/json'')],
                 req_body = BufferBody 2\<rparr>,
          Fetch (three_cx_request example_env (free_form_payload (JStr ''111'')))]
   \<and> JSON_parse lite (toString lite (contents
         (snd (post_wa_3cx lite example_env all_ok (signed human_event) 1 second_event)) 2))
     = Some (event_of [text_msg ''111''
         ''I need a human\<newline>\<newline>---\<newline>[Summary for agents]\<newline>this is the summary''])\<close>
proof -
  have allocated: "1 < length (objects second_event)"
    by (simp add: second_event_def)
  have configured: "is_set (CHATWOOT_WEBHOOK_URL example_env)"
    "interpolate (CHATWOOT_WEBHOOK_URL example_env) = ''http://chatwoot/hook''"
    "interpolate (THREE_CX_WEBHOOK_URL example_env) = ''http://3cx/hook''"
    "chatwoot_headers example_env = [(''X-Chatwoot-Webhook-Token'', ''cw-token'')]"
    by (simp_all add: example_env_def is_set_def interpolate_def chatwoot_headers_def)
  have original: "contents second_event (Suc 0) = Buffer human_event"
    by (simp add: second_event_def contents_def)
  have run:
    "trace (snd (post_wa_3cx lite example_env all_ok (signed human_event) 1 second_event))
       = [Respond 200,
          Fetch \<lparr>req_url = ''http://chatwoot/hook'',
                 req_headers = [(''Content-Type'', ''application/json''),
                                (''X-Chatwoot-Webhook-Token'', ''cw-token'')],
                 req_body = BufferBody 1\<rparr>,
          Fetch \<lparr>req_url = ''http://3cx/hook'',
                 req_headers = [(''Content-Type'', ''application/json'')],
                 req_body = BufferBody 2\<rparr>,
          Fetch (three_cx_request example_env (free_form_payload (JStr ''111'')))]"
    by code_simp
  have annotated:
    \<open>JSON_parse lite (toString lite (contents
         (snd (post_wa_3cx lite example_env all_ok (signed human_event) 1 second_event)) 2))
     = Some (event_of [text_msg ''111''
         ''I need a human\<newline>\<newline>---\<newline>[Summary for agents]\<newline>this is the summary''])\<close>
    by code_simp
  have empty: "trace second_event = []"
    by (simp add: second_event_def)
  have general:
    "contents (snd (post_wa_3cx lite example_env all_ok (signed human_event) 1 second_event)) 1
       = Buffer human_event
     \<and> (\<exists>es. trace (snd (post_wa_3cx lite example_env all_ok (signed human_event) 1 second_event))
            = Respond 200
               # Fetch \<lparr>req_url = ''http://chatwoot/hook'',
                         req_headers = [(''Content-Type'', ''application/json''),
                                        (''X-Chatwoot-Webhook-Token'', ''cw-token'')],
                         req_body = BufferBody 1\<rparr> # es
          \<and> (\<forall>r a. Fetch r \<in> set es \<and> req_body r = BufferBody a
                 \<longrightarrow> r = \<lparr>req_url = ''http://3cx/hook'',
                          req_headers = [(''Content-Type'', ''application/json'')],
                          req_body = BufferBody a\<rparr>))"
    using observers_get_original_bytes [OF second_event_verified allocated, of all_ok]
    by (simp add: configured original empty)
  show ?thesis
    using general run annotated by blast
qed

section \<open>Only the first change of the first entry is routed\<close>

lemma alike_trace [simp]:
  "alike (st\<lparr>trace := trace st @ es\<rparr>) (st'\<lparr>trace := trace st' @ es\<rparr>) = alike st st'"
  by (auto simp: alike_def)

lemma alike_handoff:
  "alike st st' \<Longrightarrow>
   alike (st\<lparr>handoff := Map_set (handoff st) w True\<rparr>) (st'\<lparr>handoff := Map_set (handoff st') w True\<rparr>)"
  by (auto simp: alike_def)

lemma alike_objects:
  "alike st st' \<Longrightarrow> alike (st\<lparr>objects := objects st @ [b]\<rparr>) (st'\<lparr>objects := objects st' @ [b']\<rparr>)"
  by (auto simp: alike_def)

lemma parses_frame [simp]:
  "parses rt raw (st\<lparr>trace := t\<rparr>) = parses rt raw st"
  "parses rt raw (st\<lparr>handoff := h\<rparr>) = parses rt raw st"
  by (simp_all add: parses_def contents_def)

lemma js_fetch_both:
  assumes "same_answers net net'" "alike st st'" "carries_json r"
  shows "\<exists>res. js_fetch net r st = (res, st\<lparr>trace := trace st @ [Fetch r]\<rparr>)
             \<and> js_fetch net' r st' = (res, st'\<lparr>trace := trace st' @ [Fetch r]\<rparr>)"
proof -
  have "net st r = net' st' r"
    using assms unfolding same_answers_def by blast
  then show ?thesis
    by (cases "net' st' r") (auto simp: js_fetch_def Let_def)
qed

lemma carries_json_requests [simp]:
  "carries_json (ai_request rt env w t)"
  "carries_json (wa_text_request env w msg)"
  "carries_json (summary_request rt env w)"
  "carries_json (three_cx_request env payload)"
  by (simp_all add: carries_json_def ai_request_def wa_text_request_def summary_request_def
        three_cx_request_def)

lemma getAIReply_both:
  assumes "same_answers net net'" "alike st st'"
  shows "\<exists>r. getAIReply rt env net w t st
               = (Inr r, st\<lparr>trace := trace st @ [Fetch (ai_request rt env w t)]\<rparr>)
           \<and> getAIReply rt env net' w t st'
               = (Inr r, st'\<lparr>trace := trace st' @ [Fetch (ai_request rt env w t)]\<rparr>)"
proof -
  obtain res where "js_fetch net (ai_request rt env w t) st
        = (res, st\<lparr>trace := trace st @ [Fetch (ai_request rt env w t)]\<rparr>)"
      "js_fetch net' (ai_request rt env w t) st'
        = (res, st'\<lparr>trace := trace st' @ [Fetch (ai_request rt env w t)]\<rparr>)"
    using js_fetch_both [OF assms, of "ai_request rt env w t"] by auto
  then show ?thesis
    by (auto simp: getAIReply_def split: option.splits sum.splits)
qed

lemma sendWaText_both:
  assumes "same_answers net net'" "alike st st'"
  shows "\<exists>r. sendWaText env net w msg st
               = (r, st\<lparr>trace := trace st @ [Fetch (wa_text_request env w msg)]\<rparr>)
           \<and> sendWaText env net' w msg st'
               = (r, st'\<lparr>trace := trace st' @ [Fetch (wa_text_request env w msg)]\<rparr>)"
proof -
  obtain res where "js_fetch net (wa_text_request env w msg) st
        = (res, st\<lparr>trace := trace st @ [Fetch (wa_text_request env w msg)]\<rparr>)"
      "js_fetch net' (wa_text_request env w msg) st'
        = (res, st'\<lparr>trace := trace st' @ [Fetch (wa_text_request env w msg)]\<rparr>)"
    using js_fetch_both [OF assms, of "wa_text_request env w msg"] by auto
  then show ?thesis
    by (auto simp: sendWaText_def split: sum.splits)
qed

lemma sendWaTextFromMain_both:
  assumes "same_answers net net'" "alike st st'"
  shows "\<exists>r. sendWaTextFromMain env net w msg st
               = (r, st\<lparr>trace := trace st @ [Fetch (wa_text_request env w msg)]\<rparr>)
           \<and> sendWaTextFromMain env net' w msg st'
               = (r, st'\<lparr>trace := trace st' @ [Fetch (wa_text_request env w msg)]\<rparr>)"
  using sendWaText_both [OF assms, of env w msg]
  by (simp add: sendWaText_def sendWaTextFromMain_def)

lemma getAISummary_both:
  assumes "same_answers net net'" "alike st st'"
  shows "\<exists>r es. getAISummary rt env net w st = (Inr r, st\<lparr>trace := trace st @ es\<rparr>)
           \<and> getAISummary rt env net' w st' = (Inr r, st'\<lparr>trace := trace st' @ es\<rparr>)"
proof (cases "is_set (OPENAI_SUMMARY_ENDPOINT env)")
  case False
  then show ?thesis
    by (intro exI [of _ "JStr ''Summary not available.''"] exI [of _ "[]"])
       (simp add: getAISummary_def)
next
  case True
  obtain res where "js_fetch net (summary_request rt env w) st
        = (res, st\<lparr>trace := trace st @ [Fetch (summary_request rt env w)]\<rparr>)"
      "js_fetch net' (summary_request rt env w) st'
        = (res, st'\<lparr>trace := trace st' @ [Fetch (summary_request rt env w)]\<rparr>)"
    using js_fetch_both [OF assms, of "summary_request rt env w"] by auto
  then have "\<exists>r. getAISummary rt env net w st
               = (Inr r, st\<lparr>trace := trace st @ [Fetch (summary_request rt env w)]\<rparr>)
           \<and> getAISummary rt env net' w st'
               = (Inr r, st'\<lparr>trace := trace st' @ [Fetch (summary_request rt env w)]\<rparr>)"
    using True by (auto simp: getAISummary_def split: option.splits sum.splits)
  then show ?thesis
    by blast
qed

lemma send_free_form_both:
  assumes "same_answers net net'" "alike st st'"
  shows "\<exists>r. send_free_form env net to st
               = (r, st\<lparr>trace := trace st @ [Fetch (three_cx_request env (free_form_payload to))]\<rparr>)
           \<and> send_free_form env net' to st'
               = (r, st'\<lparr>trace := trace st' @ [Fetch (three_cx_request env (free_form_payload to))]\<rparr>)"
proof -
  obtain res where "js_fetch net (three_cx_request env (free_form_payload to)) st
        = (res, st\<lparr>trace := trace st @ [Fetch (three_cx_request env (free_form_payload to))]\<rparr>)"
      "js_fetch net' (three_cx_request env (free_form_payload to)) st'
        = (res, st'\<lparr>trace := trace st' @ [Fetch (three_cx_request env (free_form_payload to))]\<rparr>)"
    using js_fetch_both [OF assms, of "three_cx_request env (free_form_payload to)"] by auto
  then show ?thesis
    by (auto simp: send_free_form_def split: sum.splits)
qed

lemma sendTemplateFrom3cxNumber_both:
  assumes "same_answers net net'" "alike st st'"
  shows "\<exists>r es. sendTemplateFrom3cxNumber env net to st = (r, st\<lparr>trace := trace st @ es\<rparr>)
           \<and> sendTemplateFrom3cxNumber env net' to st' = (r, st'\<lparr>trace := trace st' @ es\<rparr>)"
proof (cases "\<not> is_set (THREE_CX_META_PHONE_NUMBER_ID env) \<or> \<not> is_set (THREE_CX_META_PERM_TOKEN env)")
  case True
  then show ?thesis
    by (intro exI [of _ "Inr False"] exI [of _ "[]"]) (auto simp: sendTemplateFrom3cxNumber_def)
next
  case configured: False
  show ?thesis
  proof (cases "is_set (HANDOFF_TEMPLATE_NAME env)")
    case False
    then show ?thesis
      using send_free_form_both [OF assms, of env to] configured
      by (auto simp: sendTemplateFrom3cxNumber_def)
  next
    case True
    let ?t = "Fetch (three_cx_request env (template_payload env to))"
    obtain res where first: "js_fetch net (three_cx_request env (template_payload env to)) st
          = (res, st\<lparr>trace := trace st @ [?t]\<rparr>)"
        "js_fetch net' (three_cx_request env (template_payload env to)) st'
          = (res, st'\<lparr>trace := trace st' @ [?t]\<rparr>)"
      using js_fetch_both [OF assms, of "three_cx_request env (template_payload env to)"] by auto
    have next_alike: "alike (st\<lparr>trace := trace st @ [?t]\<rparr>) (st'\<lparr>trace := trace st' @ [?t]\<rparr>)"
      using assms(2) by simp
    obtain r where second:
      "send_free_form env net to (st\<lparr>trace := trace st @ [?t]\<rparr>)
         = (r, st\<lparr>trace := trace st @ [?t, Fetch (three_cx_request env (free_form_payload to))]\<rparr>)"
      "send_free_form env net' to (st'\<lparr>trace := trace st' @ [?t]\<rparr>)
         = (r, st'\<lparr>trace := trace st' @ [?t, Fetch (three_cx_request env (free_form_payload to))]\<rparr>)"
      using send_free_form_both [OF assms(1) next_alike, of env to] by auto
    show ?thesis
    proof (cases res)
      case (Inl e)
      then show ?thesis
        using first configured True
        by (intro exI [of _ "Inl e"] exI [of _ "[?t]"]) (simp add: sendTemplateFrom3cxNumber_def)
    next
      case (Inr answer)
      obtain status body where answer: "answer = (status, body)"
        by (cases answer)
      show ?thesis
      proof (cases "ok status")
        case True
        then show ?thesis
          using first configured \<open>is_set (HANDOFF_TEMPLATE_NAME env)\<close> Inr answer
          by (intro exI [of _ "Inr True"] exI [of _ "[?t]"])
             (simp add: sendTemplateFrom3cxNumber_def)
      next
        case False
        then show ?thesis
          using first second configured \<open>is_set (HANDOFF_TEMPLATE_NAME env)\<close> Inr answer
          by (intro exI [of _ r]
                exI [of _ "[?t, Fetch (three_cx_request env (free_form_payload to))]"])
             (simp add: sendTemplateFrom3cxNumber_def)
      qed
    qed
  qed
qed

lemma inject_both:
  assumes "alike st st'" "parses rt raw st" "parses rt raw st'"
  shows "\<exists>b b'. injectSummaryIntoPayload rt raw s st
                 = (length (objects st), st\<lparr>objects := objects st @ [b]\<rparr>)
             \<and> injectSummaryIntoPayload rt raw s st'
                 = (length (objects st), st'\<lparr>objects := objects st' @ [b']\<rparr>)"
  using assms
  by (auto simp: injectSummaryIntoPayload_def Buffer_from_def parses_def alike_def)

text \<open>The loop.\<close>

lemma for_of_both:
  assumes step: "\<And>m st st'. I st st' \<Longrightarrow>
      fst (step m st) = fst (step' m st') \<and> I (snd (step m st)) (snd (step' m st'))"
  shows "I st st' \<Longrightarrow>
     fst (for_of step ms st) = fst (for_of step' ms st')
     \<and> I (snd (for_of step ms st)) (snd (for_of step' ms st'))"
proof (induction ms arbitrary: st st')
  case Nil
  then show ?case by simp
next
  case (Cons m ms)
  obtain r st1 where first: "step m st = (r, st1)"
    by (cases "step m st")
  obtain r' st1' where first': "step' m st' = (r', st1')"
    by (cases "step' m st'")
  have same: "r = r'" "I st1 st1'"
    using step [OF Cons.prems, of m] first first' by simp_all
  show ?case
  proof (cases r)
    case (Inl e)
    then show ?thesis
      using first first' same by simp
  next
    case (Inr u)
    then show ?thesis
      using first first' same Cons.IH [OF same(2)] by simp
  qed
qed

text \<open>The AI path, shared by the three loop bodies.\<close>

lemma ai_path_both:
  assumes same: "same_answers net net'" and alike: "alike st st'"
    and send: "\<And>reply st1 st1'. alike st1 st1' \<Longrightarrow>
        \<exists>r. send net reply st1
               = (r, st1\<lparr>trace := trace st1 @ [Fetch (wa_text_request env waId reply)]\<rparr>)
           \<and> send net' reply st1'
               = (r, st1'\<lparr>trace := trace st1' @ [Fetch (wa_text_request env waId reply)]\<rparr>)"
  shows "\<exists>r es.
      (case getAIReply rt env net waId wtext st of
         (Inr None, st1) \<Rightarrow> (Inr (), st1)
       | (Inr (Some reply), st1) \<Rightarrow> send net reply st1
       | (Inl e, st1) \<Rightarrow> (Inl e, st1)) = (r, st\<lparr>trace := trace st @ es\<rparr>)
      \<and> (case getAIReply rt env net' waId wtext st' of
         (Inr None, st1) \<Rightarrow> (Inr (), st1)
       | (Inr (Some reply), st1) \<Rightarrow> send net' reply st1
       | (Inl e, st1) \<Rightarrow> (Inl e, st1)) = (r, st'\<lparr>trace := trace st' @ es\<rparr>)"
proof -
  let ?a = "Fetch (ai_request rt env waId wtext)"
  obtain r where ai: "getAIReply rt env net waId wtext st = (Inr r, st\<lparr>trace := trace st @ [?a]\<rparr>)"
    "getAIReply rt env net' waId wtext st' = (Inr r, st'\<lparr>trace := trace st' @ [?a]\<rparr>)"
    using getAIReply_both [OF same alike] by blast
  show ?thesis
  proof (cases r)
    case None
    then show ?thesis
      using ai by (intro exI [of _ "Inr ()"] exI [of _ "[?a]"]) simp
  next
    case (Some reply)
    have "alike (st\<lparr>trace := trace st @ [?a]\<rparr>) (st'\<lparr>trace := trace st' @ [?a]\<rparr>)"
      using alike by simp
    then obtain r' where
      "send net reply (st\<lparr>trace := trace st @ [?a]\<rparr>)
         = (r', st\<lparr>trace := trace st @ [?a, Fetch (wa_text_request env waId reply)]\<rparr>)"
      "send net' reply (st'\<lparr>trace := trace st' @ [?a]\<rparr>)
         = (r', st'\<lparr>trace := trace st' @ [?a, Fetch (wa_text_request env waId reply)]\<rparr>)"
      using send [of "st\<lparr>trace := trace st @ [?a]\<rparr>" "st'\<lparr>trace := trace st' @ [?a]\<rparr>" reply]
      by auto
    then show ?thesis
      using ai Some
      by (intro exI [of _ r'] exI [of _ "[?a, Fetch (wa_text_request env waId reply)]"]) simp
  qed
qed


text \<open>The loop bodies.\<close>

lemma route_message_n8n_both:
  assumes same: "same_answers net net'" and alike: "alike st st'"
  shows "fst (route_message_n8n rt env net m st) = fst (route_message_n8n rt env net' m st')
     \<and> alike (snd (route_message_n8n rt env net m st)) (snd (route_message_n8n rt env net' m st'))"
proof (cases "text_message m")
  case (Inl e)
  then show ?thesis
    using alike by (simp add: route_message_n8n_def)
next
  case (Inr found)
  show ?thesis
  proof (cases found)
    case None
    then show ?thesis
      using Inr alike by (simp add: route_message_n8n_def)
  next
    case (Some pair)
    obtain waId wtext where pair: "pair = (waId, wtext)"
      by (cases pair)
    obtain r es where
      "(case getAIReply rt env net waId wtext st of
         (Inr None, st1) \<Rightarrow> (Inr (), st1)
       | (Inr (Some reply), st1) \<Rightarrow> sendWaText env net waId reply st1
       | (Inl e, st1) \<Rightarrow> (Inl e, st1)) = (r, st\<lparr>trace := trace st @ es\<rparr>)"
      "(case getAIReply rt env net' waId wtext st' of
         (Inr None, st1) \<Rightarrow> (Inr (), st1)
       | (Inr (Some reply), st1) \<Rightarrow> sendWaText env net' waId reply st1
       | (Inl e, st1) \<Rightarrow> (Inl e, st1)) = (r, st'\<lparr>trace := trace st' @ es\<rparr>)"
      using ai_path_both [OF same alike, where send = "\<lambda>net. sendWaText env net waId"
          and env = env and waId = waId and rt = rt and wtext = wtext]
        sendWaText_both [OF same]
      by blast
    then show ?thesis
      using Inr Some pair alike by (simp add: route_message_n8n_def)
  qed
qed

lemma route_message_summary_both:
  assumes same: "same_answers net net'" and alike: "alike st st'"
  shows "fst (route_message_summary rt env net m st) = fst (route_message_summary rt env net' m st')
     \<and> alike (snd (route_message_summary rt env net m st))
          (snd (route_message_summary rt env net' m st'))"
proof (cases "text_message m")
  case (Inl e)
  then show ?thesis
    using alike by (simp add: route_message_summary_def)
next
  case (Inr found)
  show ?thesis
  proof (cases found)
    case None
    then show ?thesis
      using Inr alike by (simp add: route_message_summary_def)
  next
    case (Some pair)
    obtain waId wtext where pair: "pair = (waId, wtext)"
      by (cases pair)
    have m: "text_message m = Inr (Some (waId, wtext))"
      using Inr Some pair by simp
    have flags: "handoff st = handoff st'"
      using alike by (simp add: alike_def)
    show ?thesis
    proof (cases "handoffRegex_test rt env wtext")
      case True
      let ?st1 = "st\<lparr>handoff := Map_set (handoff st) waId True\<rparr>"
      let ?st1' = "st'\<lparr>handoff := Map_set (handoff st') waId True\<rparr>"
      let ?c = "Fetch (wa_text_request env waId (JStr connecting_text))"
      have alike1: "alike ?st1 ?st1'"
        using alike by (rule alike_handoff)
      obtain r1 where first:
        "sendWaText env net waId (JStr connecting_text) ?st1 = (r1, ?st1\<lparr>trace := trace ?st1 @ [?c]\<rparr>)"
        "sendWaText env net' waId (JStr connecting_text) ?st1' = (r1, ?st1'\<lparr>trace := trace ?st1' @ [?c]\<rparr>)"
        using sendWaText_both [OF same alike1] by blast
      let ?st2 = "?st1\<lparr>trace := trace ?st1 @ [?c]\<rparr>"
      let ?st2' = "?st1'\<lparr>trace := trace ?st1' @ [?c]\<rparr>"
      have alike2: "alike ?st2 ?st2'"
        using alike1 by (simp only: alike_trace)
      show ?thesis
      proof (cases r1)
        case (Inl e)
        then show ?thesis
          using m True first alike2 by (simp add: route_message_summary_def)
      next
        case (Inr u)
        obtain summary es where second:
          "getAISummary rt env net waId ?st2 = (Inr summary, ?st2\<lparr>trace := trace ?st2 @ es\<rparr>)"
          "getAISummary rt env net' waId ?st2' = (Inr summary, ?st2'\<lparr>trace := trace ?st2' @ es\<rparr>)"
          using getAISummary_both [OF same alike2] by blast
        let ?st3 = "?st2\<lparr>trace := trace ?st2 @ es\<rparr>"
        let ?st3' = "?st2'\<lparr>trace := trace ?st2' @ es\<rparr>"
        let ?msg = "JStr (''Summary so far:'' @ [CHR 0x0A] @ js_String rt summary)"
        have alike3: "alike ?st3 ?st3'"
          using alike2 by (simp only: alike_trace)
        obtain r3 where third:
          "sendWaText env net waId ?msg ?st3
             = (r3, ?st3\<lparr>trace := trace ?st3 @ [Fetch (wa_text_request env waId ?msg)]\<rparr>)"
          "sendWaText env net' waId ?msg ?st3'
             = (r3, ?st3'\<lparr>trace := trace ?st3' @ [Fetch (wa_text_request env waId ?msg)]\<rparr>)"
          using sendWaText_both [OF same alike3] by blast
        have "alike (?st3\<lparr>trace := trace ?st3 @ [Fetch (wa_text_request env waId ?msg)]\<rparr>)
                (?st3'\<lparr>trace := trace ?st3' @ [Fetch (wa_text_request env waId ?msg)]\<rparr>)"
          using alike3 by (simp only: alike_trace)
        then show ?thesis
          using m True first Inr second third
          by (simp add: route_message_summary_def)
      qed
    next
      case False
      show ?thesis
      proof (cases "Map_get (handoff st) waId \<noteq> Some True")
        case free: True
        obtain r es where
          "(case getAIReply rt env net waId wtext st of
             (Inr None, st1) \<Rightarrow> (Inr (), st1)
           | (Inr (Some reply), st1) \<Rightarrow> sendWaText env net waId reply st1
           | (Inl e, st1) \<Rightarrow> (Inl e, st1)) = (r, st\<lparr>trace := trace st @ es\<rparr>)"
          "(case getAIReply rt env net' waId wtext st' of
             (Inr None, st1) \<Rightarrow> (Inr (), st1)
           | (Inr (Some reply), st1) \<Rightarrow> sendWaText env net' waId reply st1
           | (Inl e, st1) \<Rightarrow> (Inl e, st1)) = (r, st'\<lparr>trace := trace st' @ es\<rparr>)"
          using ai_path_both [OF same alike, where send = "\<lambda>net. sendWaText env net waId"
              and env = env and waId = waId and rt = rt and wtext = wtext]
            sendWaText_both [OF same]
          by blast
        then show ?thesis
          using m False free flags alike by (simp add: route_message_summary_def)
      next
        case False
        then show ?thesis
          using m \<open>\<not> handoffRegex_test rt env wtext\<close> flags alike
          by (simp add: route_message_summary_def)
      qed
    qed
  qed
qed


lemma route_message_3cx_both:
  assumes same: "same_answers net net'" and alike: "alike st st'"
    and parsed: "parses rt raw st" "parses rt raw st'"
  shows "fst (route_message_3cx rt env net raw m st) = fst (route_message_3cx rt env net' raw m st')
     \<and> alike (snd (route_message_3cx rt env net raw m st))
          (snd (route_message_3cx rt env net' raw m st'))
     \<and> parses rt raw (snd (route_message_3cx rt env net raw m st))
     \<and> parses rt raw (snd (route_message_3cx rt env net' raw m st'))"
proof (cases "text_message m")
  case (Inl e)
  then show ?thesis
    using alike parsed by (simp add: route_message_3cx_def)
next
  case (Inr found)
  show ?thesis
  proof (cases found)
    case None
    then show ?thesis
      using Inr alike parsed by (simp add: route_message_3cx_def)
  next
    case (Some pair)
    obtain waId wtext where pair: "pair = (waId, wtext)"
      by (cases pair)
    have m: "text_message m = Inr (Some (waId, wtext))"
      using Inr Some pair by simp
    have flags: "handoff st = handoff st'"
      using alike by (simp add: alike_def)
    show ?thesis
    proof (cases "handoffRegex_test rt env wtext")
      case True
      let ?st1 = "st\<lparr>handoff := Map_set (handoff st) waId True\<rparr>"
      let ?st1' = "st'\<lparr>handoff := Map_set (handoff st') waId True\<rparr>"
      let ?url = "THREE_CX_WEBHOOK_URL env"
      have alike1: "alike ?st1 ?st1'"
        using alike by (rule alike_handoff)
      obtain forwarded forwarded' st3 st3' where forward:
        "(if is_set ?url
          then (case injectSummaryIntoPayload rt raw ''this is the summary'' ?st1 of
                  (injectedRaw, st2) \<Rightarrow> forwardRawJSON net ?url injectedRaw [] st2)
          else (Inr Skipped, ?st1)) = (Inr forwarded, st3)"
        "(if is_set ?url
          then (case injectSummaryIntoPayload rt raw ''this is the summary'' ?st1' of
                  (injectedRaw, st2) \<Rightarrow> forwardRawJSON net' ?url injectedRaw [] st2)
          else (Inr Skipped, ?st1')) = (Inr forwarded', st3')"
        "alike st3 st3'" "parses rt raw st3" "parses rt raw st3'"
      proof (cases "is_set ?url")
        case False
        then show ?thesis
          using that [of Skipped ?st1 Skipped ?st1'] alike1 parsed by simp
      next
        case configured: True
        obtain b b' where copies:
          "injectSummaryIntoPayload rt raw ''this is the summary'' ?st1
             = (length (objects ?st1), ?st1\<lparr>objects := objects ?st1 @ [b]\<rparr>)"
          "injectSummaryIntoPayload rt raw ''this is the summary'' ?st1'
             = (length (objects ?st1), ?st1'\<lparr>objects := objects ?st1' @ [b']\<rparr>)"
          using inject_both [OF alike1, of rt raw "''this is the summary''"] parsed by auto
        let ?st2 = "?st1\<lparr>objects := objects ?st1 @ [b]\<rparr>"
        let ?st2' = "?st1'\<lparr>objects := objects ?st1' @ [b']\<rparr>"
        let ?f = "Fetch (forward_request ?url (length (objects ?st1)) [])"
        obtain r where first: "forwardRawJSON net ?url (length (objects ?st1)) [] ?st2
              = (Inr r, ?st2\<lparr>trace := trace ?st2 @ [?f]\<rparr>)"
          using forwardRawJSON_result [of net ?url "length (objects ?st1)" "[]" ?st2] configured
          by auto
        obtain r' where second: "forwardRawJSON net' ?url (length (objects ?st1)) [] ?st2'
              = (Inr r', ?st2'\<lparr>trace := trace ?st2' @ [?f]\<rparr>)"
          using forwardRawJSON_result [of net' ?url "length (objects ?st1)" "[]" ?st2'] configured
          by auto
        have "alike ?st2 ?st2'"
          using alike1 by (rule alike_objects)
        then have alike3: "alike (?st2\<lparr>trace := trace ?st2 @ [?f]\<rparr>) (?st2'\<lparr>trace := trace ?st2' @ [?f]\<rparr>)"
          by (simp only: alike_trace)
        have "parses rt raw ?st2" "parses rt raw ?st2'"
          using parsed by (auto simp: parses_def contents_def nth_append)
        then have parsed3: "parses rt raw (?st2\<lparr>trace := trace ?st2 @ [?f]\<rparr>)"
          "parses rt raw (?st2'\<lparr>trace := trace ?st2' @ [?f]\<rparr>)"
          by (simp_all only: parses_frame)
        show ?thesis
          using that [OF _ _ alike3 parsed3, of r r'] configured copies first second
          by simp
      qed
      obtain r es where template:
        "sendTemplateFrom3cxNumber env net waId st3 = (r, st3\<lparr>trace := trace st3 @ es\<rparr>)"
        "sendTemplateFrom3cxNumber env net' waId st3' = (r, st3'\<lparr>trace := trace st3' @ es\<rparr>)"
        using sendTemplateFrom3cxNumber_both [OF same forward(3)] by blast
      have run: "route_message_3cx rt env net raw m st
            = (case r of Inr sent \<Rightarrow> Inr () | Inl e \<Rightarrow> Inl e, st3\<lparr>trace := trace st3 @ es\<rparr>)"
        using m True forward(1) template(1)
        by (cases r) (simp_all add: route_message_3cx_def Let_def)
      have run': "route_message_3cx rt env net' raw m st'
            = (case r of Inr sent \<Rightarrow> Inr () | Inl e \<Rightarrow> Inl e, st3'\<lparr>trace := trace st3' @ es\<rparr>)"
        using m True forward(2) template(2)
        by (cases r) (simp_all add: route_message_3cx_def Let_def)
      show ?thesis
        unfolding run run' using forward(3,4,5) by simp
    next
      case False
      show ?thesis
      proof (cases "Map_get (handoff st) waId \<noteq> Some True")
        case free: True
        obtain r es where
          "(case getAIReply rt env net waId wtext st of
             (Inr None, st1) \<Rightarrow> (Inr (), st1)
           | (Inr (Some reply), st1) \<Rightarrow> sendWaTextFromMain env net waId reply st1
           | (Inl e, st1) \<Rightarrow> (Inl e, st1)) = (r, st\<lparr>trace := trace st @ es\<rparr>)"
          "(case getAIReply rt env net' waId wtext st' of
             (Inr None, st1) \<Rightarrow> (Inr (), st1)
           | (Inr (Some reply), st1) \<Rightarrow> sendWaTextFromMain env net' waId reply st1
           | (Inl e, st1) \<Rightarrow> (Inl e, st1)) = (r, st'\<lparr>trace := trace st' @ es\<rparr>)"
          using ai_path_both [OF same alike, where send = "\<lambda>net. sendWaTextFromMain env net waId"
              and env = env and waId = waId and rt = rt and wtext = wtext]
            sendWaTextFromMain_both [OF same]
          by blast
        then show ?thesis
          using m False free flags alike parsed by (simp add: route_message_3cx_def)
      next
        case False
        then show ?thesis
          using m \<open>\<not> handoffRegex_test rt env wtext\<close> flags alike parsed
          by (simp add: route_message_3cx_def)
      qed
    qed
  qed
qed


text \<open>The handlers, once the signature has verified.\<close>

lemma contents_acknowledged [simp]: "contents (acknowledged targets raw st) a = contents st a"
  by (simp add: contents_def acknowledged_def)

lemma post_wa_n8n_verified:
  assumes "verifySignature rt env (contents st raw) sig = Inr True"
  shows "post_wa_n8n rt env net sig raw st =
      (case JSON_parse rt (toString rt (contents st raw)) of
         None \<Rightarrow> (Inr (), acknowledged [(CHATWOOT_WEBHOOK_URL env, chatwoot_headers env)] raw st)
       | Some payload \<Rightarrow>
           (case iterate (or_empty (messages_in payload)) of
              Inl e \<Rightarrow> (Inl e, acknowledged [(CHATWOOT_WEBHOOK_URL env, chatwoot_headers env)] raw st)
            | Inr messages \<Rightarrow> for_of (route_message_n8n rt env net) messages
                (acknowledged [(CHATWOOT_WEBHOOK_URL env, chatwoot_headers env)] raw st)))"
proof -
  let ?st1 = "respond 200 st"
  let ?st2 = "if is_set (CHATWOOT_WEBHOOK_URL env)
              then snd (forwardRawJSON net (CHATWOOT_WEBHOOK_URL env) raw (chatwoot_headers env) ?st1)
              else ?st1"
  obtain r where "forwardRawJSON net (CHATWOOT_WEBHOOK_URL env) raw (chatwoot_headers env) ?st1
      = (Inr r, if is_set (CHATWOOT_WEBHOOK_URL env)
                then ?st1\<lparr>trace := trace ?st1
                       @ [Fetch (forward_request (CHATWOOT_WEBHOOK_URL env) raw (chatwoot_headers env))]\<rparr>
                else ?st1)"
    using forwardRawJSON_result by blast
  then have st2: "?st2 = acknowledged [(CHATWOOT_WEBHOOK_URL env, chatwoot_headers env)] raw st"
    by (simp add: respond_def fan_out_effects_def acknowledged_def)
  have "post_wa_n8n rt env net sig raw st =
      (case JSON_parse rt (toString rt (contents ?st2 raw)) of
                None \<Rightarrow> (Inr (), ?st2)
              | Some payload \<Rightarrow>
                  (case iterate (or_empty (messages_in payload)) of
                     Inl e \<Rightarrow> (Inl e, ?st2)
                   | Inr messages \<Rightarrow> for_of (route_message_n8n rt env net) messages ?st2))"
    unfolding post_wa_n8n_def Let_def assms by simp
  then show ?thesis
    unfolding st2 by simp
qed

lemma post_wa_3cx_verified:
  assumes "verifySignature rt env (contents st raw) sig = Inr True"
  shows "post_wa_3cx rt env net sig raw st =
      (case JSON_parse rt (toString rt (contents st raw)) of
         None \<Rightarrow> (Inr (), acknowledged [(CHATWOOT_WEBHOOK_URL env, chatwoot_headers env)] raw st)
       | Some payload \<Rightarrow>
           (case iterate (or_empty (messages_in payload)) of
              Inl e \<Rightarrow> (Inl e, acknowledged [(CHATWOOT_WEBHOOK_URL env, chatwoot_headers env)] raw st)
            | Inr messages \<Rightarrow> for_of (route_message_3cx rt env net raw) messages
                (acknowledged [(CHATWOOT_WEBHOOK_URL env, chatwoot_headers env)] raw st)))"
proof -
  let ?st1 = "respond 200 st"
  let ?targets = "[(CHATWOOT_WEBHOOK_URL env, chatwoot_headers env)]"
  let ?st2 = "snd (fan_out net ?targets raw ?st1)"
  have st2: "?st2 = acknowledged ?targets raw st"
    using fan_out_result [of net ?targets raw ?st1]
    by (auto simp: respond_def acknowledged_def simp del: fan_out.simps)
  have "post_wa_3cx rt env net sig raw st =
      (case JSON_parse rt (toString rt (contents ?st2 raw)) of
                None \<Rightarrow> (Inr (), ?st2)
              | Some payload \<Rightarrow>
                  (case iterate (or_empty (messages_in payload)) of
                     Inl e \<Rightarrow> (Inl e, ?st2)
                   | Inr messages \<Rightarrow> for_of (route_message_3cx rt env net raw) messages ?st2))"
    unfolding post_wa_3cx_def Let_def assms by simp
  then show ?thesis
    unfolding st2 by simp
qed

lemma post_wa_summary_verified:
  assumes "verifySignature rt env (contents st raw) sig = Inr True"
  shows "post_wa_summary rt env net sig raw st =
      (case JSON_parse rt (toString rt (contents st raw)) of
         None \<Rightarrow> (Inr (), acknowledged [(THREE_CX_WEBHOOK_URL env, []),
                      (CHATWOOT_WEBHOOK_URL env, chatwoot_headers env)] raw st)
       | Some payload \<Rightarrow>
           (case iterate (or_empty (messages_in payload)) of
              Inl e \<Rightarrow> (Inl e, acknowledged [(THREE_CX_WEBHOOK_URL env, []),
                      (CHATWOOT_WEBHOOK_URL env, chatwoot_headers env)] raw st)
            | Inr messages \<Rightarrow> for_of (route_message_summary rt env net) messages
                (acknowledged [(THREE_CX_WEBHOOK_URL env, []),
                      (CHATWOOT_WEBHOOK_URL env, chatwoot_headers env)] raw st)))"
proof -
  let ?st1 = "respond 200 st"
  let ?targets = "[(THREE_CX_WEBHOOK_URL env, []), (CHATWOOT_WEBHOOK_URL env, chatwoot_headers env)]"
  let ?st2 = "snd (fan_out net ?targets raw ?st1)"
  have st2: "?st2 = acknowledged ?targets raw st"
    using fan_out_result [of net ?targets raw ?st1]
    by (auto simp: respond_def acknowledged_def simp del: fan_out.simps)
  have "post_wa_summary rt env net sig raw st =
      (case JSON_parse rt (toString rt (contents ?st2 raw)) of
                None \<Rightarrow> (Inr (), ?st2)
              | Some payload \<Rightarrow>
                  (case iterate (or_empty (messages_in payload)) of
                     Inl e \<Rightarrow> (Inl e, ?st2)
                   | Inr messages \<Rightarrow> for_of (route_message_summary rt env net) messages ?st2))"
    unfolding post_wa_summary_def Let_def assms by simp
  then show ?thesis
    unfolding st2 by simp
qed

lemma alike_acknowledged:
  "alike st st' \<Longrightarrow> alike (acknowledged targets raw st) (acknowledged targets raw st')"
  by (simp add: alike_def acknowledged_def)

lemma parses_acknowledged [simp]: "parses rt raw (acknowledged targets a st) = parses rt raw st"
  by (simp add: acknowledged_def)

lemma messages_in_first_change:
  "property payload ''entry'' = Some (JArr (e # later_entries)) \<Longrightarrow>
   property e ''changes'' = Some (JArr (c # later_changes)) \<Longrightarrow>
   messages_in payload = opt_prop (opt_prop (Some c) ''value'') ''messages''"
  by (simp add: messages_in_def opt_prop_Some opt_index0_Some)

lemma loops_alike:
  assumes same: "same_answers net net'" and alike: "alike st st'"
    and parsed: "parses rt raw st" "parses rt raw st'"
  shows "fst (for_of (route_message_n8n rt env net) ms st)
           = fst (for_of (route_message_n8n rt env net') ms st')
         \<and> alike (snd (for_of (route_message_n8n rt env net) ms st))
             (snd (for_of (route_message_n8n rt env net') ms st'))"
    and "fst (for_of (route_message_3cx rt env net raw) ms st)
           = fst (for_of (route_message_3cx rt env net' raw) ms st')
         \<and> alike (snd (for_of (route_message_3cx rt env net raw) ms st))
             (snd (for_of (route_message_3cx rt env net' raw) ms st'))"
    and "fst (for_of (route_message_summary rt env net) ms st)
           = fst (for_of (route_message_summary rt env net') ms st')
         \<and> alike (snd (for_of (route_message_summary rt env net) ms st))
             (snd (for_of (route_message_summary rt env net') ms st'))"
proof -
  show "fst (for_of (route_message_n8n rt env net) ms st)
           = fst (for_of (route_message_n8n rt env net') ms st')
         \<and> alike (snd (for_of (route_message_n8n rt env net) ms st))
             (snd (for_of (route_message_n8n rt env net') ms st'))"
    using alike by (rule for_of_both [where I = alike, rotated]) (rule route_message_n8n_both [OF same])
  show "fst (for_of (route_message_summary rt env net) ms st)
           = fst (for_of (route_message_summary rt env net') ms st')
         \<and> alike (snd (for_of (route_message_summary rt env net) ms st))
             (snd (for_of (route_message_summary rt env net') ms st'))"
    using alike
    by (rule for_of_both [where I = alike, rotated]) (rule route_message_summary_both [OF same])
  have "fst (for_of (route_message_3cx rt env net raw) ms st)
           = fst (for_of (route_message_3cx rt env net' raw) ms st')
         \<and> (alike (snd (for_of (route_message_3cx rt env net raw) ms st))
                (snd (for_of (route_message_3cx rt env net' raw) ms st'))
            \<and> parses rt raw (snd (for_of (route_message_3cx rt env net raw) ms st))
            \<and> parses rt raw (snd (for_of (route_message_3cx rt env net' raw) ms st')))"
  proof (rule for_of_both
      [where I = "\<lambda>a b. alike a b \<and> parses rt raw a \<and> parses rt raw b"])
    show "alike st st' \<and> parses rt raw st \<and> parses rt raw st'"
      using alike parsed by simp
  next
    fix m a b
    assume "alike a b \<and> parses rt raw a \<and> parses rt raw b"
    then show "fst (route_message_3cx rt env net raw m a) = fst (route_message_3cx rt env net' raw m b)
       \<and> (alike (snd (route_message_3cx rt env net raw m a)) (snd (route_message_3cx rt env net' raw m b))
          \<and> parses rt raw (snd (route_message_3cx rt env net raw m a))
          \<and> parses rt raw (snd (route_message_3cx rt env net' raw m b)))"
      using route_message_3cx_both [OF same, of a b rt raw env m] by blast
  qed
  then show "fst (for_of (route_message_3cx rt env net raw) ms st)
           = fst (for_of (route_message_3cx rt env net' raw) ms st')
         \<and> alike (snd (for_of (route_message_3cx rt env net raw) ms st))
             (snd (for_of (route_message_3cx rt env net' raw) ms st'))"
    by blast
qed

text \<open>
  C10. Take two verified events that parse, whose payloads have the same value of
  \<^verbatim>\<open>payload?.entry?.[0]?.changes?.[0]?.value?.messages\<close> and may differ in everything
  else, in two processes whose states are alike, against networks that give the same
  answers. Then each of the three handlers ends in the same way for both (normally, or
  with the same exception), and leaves states that are alike: the same acknowledgment and
  the same outbound requests in the same order (each request to the AI backend and to
  the summary backend, each message, template and forward), and the same handoff flags.
  That value is the messages of the first change of the first entry, whatever the later
  changes and the later entries hold. So the messages of a later change or a later entry
  start no request and set no flag: nothing the handler does depends on them.
\<close>

theorem only_first_change_is_routed:
  assumes same: "same_answers net net'"
    and alike: "alike st st'"
    and allocated: "raw < length (objects st)"
    and verified: "verifySignature rt env (contents st raw) sig = Inr True"
      "verifySignature rt env (contents st' raw) sig' = Inr True"
    and parsed: "JSON_parse rt (toString rt (contents st raw)) = Some payload"
      "JSON_parse rt (toString rt (contents st' raw)) = Some payload'"
    and first_change: "messages_in payload = messages_in payload'"
  shows "(fst (post_wa_n8n rt env net sig raw st) = fst (post_wa_n8n rt env net' sig' raw st')
          \<and> alike (snd (post_wa_n8n rt env net sig raw st))
                (snd (post_wa_n8n rt env net' sig' raw st')))
     \<and> (fst (post_wa_3cx rt env net sig raw st) = fst (post_wa_3cx rt env net' sig' raw st')
          \<and> alike (snd (post_wa_3cx rt env net sig raw st))
                (snd (post_wa_3cx rt env net' sig' raw st')))
     \<and> (fst (post_wa_summary rt env net sig raw st) = fst (post_wa_summary rt env net' sig' raw st')
          \<and> alike (snd (post_wa_summary rt env net sig raw st))
                (snd (post_wa_summary rt env net' sig' raw st')))
     \<and> (\<forall>e later_entries c later_changes.
           property payload ''entry'' = Some (JArr (e # later_entries))
           \<and> property e ''changes'' = Some (JArr (c # later_changes))
           \<longrightarrow> messages_in payload = opt_prop (opt_prop (Some c) ''value'') ''messages'')"
proof -
  have allocated': "raw < length (objects st')"
    using alike allocated by (simp add: alike_def)
  have ready: "parses rt raw (acknowledged targets raw st)"
    "parses rt raw (acknowledged targets raw st')" for targets
    using allocated allocated' parsed by (simp_all add: parses_def)
  have start: "alike (acknowledged targets raw st) (acknowledged targets raw st')" for targets
    using alike by (rule alike_acknowledged)
  note loops = loops_alike [OF same start ready]
  have handlers:
    "(fst (post_wa_n8n rt env net sig raw st) = fst (post_wa_n8n rt env net' sig' raw st')
          \<and> alike (snd (post_wa_n8n rt env net sig raw st))
                (snd (post_wa_n8n rt env net' sig' raw st')))
     \<and> (fst (post_wa_3cx rt env net sig raw st) = fst (post_wa_3cx rt env net' sig' raw st')
          \<and> alike (snd (post_wa_3cx rt env net sig raw st))
                (snd (post_wa_3cx rt env net' sig' raw st')))
     \<and> (fst (post_wa_summary rt env net sig raw st) = fst (post_wa_summary rt env net' sig' raw st')
          \<and> alike (snd (post_wa_summary rt env net sig raw st))
                (snd (post_wa_summary rt env net' sig' raw st')))"
  proof (cases "iterate (or_empty (messages_in payload))")
    case (Inl e)
    then show ?thesis
      using verified parsed first_change start
      by (simp add: post_wa_n8n_verified post_wa_3cx_verified post_wa_summary_verified)
  next
    case (Inr ms)
    then show ?thesis
      using verified parsed first_change loops
      by (simp add: post_wa_n8n_verified post_wa_3cx_verified post_wa_summary_verified)
  qed
  have "\<forall>e later_entries c later_changes.
           property payload ''entry'' = Some (JArr (e # later_entries))
           \<and> property e ''changes'' = Some (JArr (c # later_changes))
           \<longrightarrow> messages_in payload = opt_prop (opt_prop (Some c) ''value'') ''messages''"
    using messages_in_first_change by blast
  with handlers show ?thesis
    by blast
qed


lemma later_entries_verified:
  "verifySignature lite example_env (contents (fresh later_entries_event) 0)
     (signed later_entries_event) = Inr True"
  by code_simp

lemma first_change_verified:
  "verifySignature lite example_env (contents (fresh first_change_event) 0)
     (signed first_change_event) = Inr True"
  by code_simp

lemma later_entries_parsed:
  "JSON_parse lite (toString lite (contents (fresh later_entries_event) 0))
     = Some later_entries_payload"
  by code_simp

lemma first_change_parsed:
  "JSON_parse lite (toString lite (contents (fresh first_change_event) 0))
     = Some (event_of [text_msg ''111'' ''hi''])"
  by code_simp

lemma later_entries_messages:
  "messages_in later_entries_payload = messages_in (event_of [text_msg ''111'' ''hi''])"
  by code_simp

theorem only_first_change_is_routed_witness:
  "fst (post_wa_n8n lite example_env all_ok (signed later_entries_event) 0 (fresh later_entries_event))
     = fst (post_wa_n8n lite example_env all_ok (signed first_change_event) 0 (fresh first_change_event))
   \<and> alike (snd (post_wa_n8n lite example_env all_ok (signed later_entries_event) 0
                   (fresh later_entries_event)))
        (snd (post_wa_n8n lite example_env all_ok (signed first_change_event) 0
                   (fresh first_change_event)))
   \<and> fst (post_wa_3cx lite example_env all_ok (signed later_entries_event) 0 (fresh later_entries_event))
     = fst (post_wa_3cx lite example_env all_ok (signed first_change_event) 0 (fresh first_change_event))
   \<and> alike (snd (post_wa_3cx lite example_env all_ok (signed later_entries_event) 0
                   (fresh later_entries_event)))
        (snd (post_wa_3cx lite example_env all_ok (signed first_change_event) 0
                   (fresh first_change_event)))
   \<and> fst (post_wa_summary lite example_env all_ok (signed later_entries_event) 0
             (fresh later_entries_event))
     = fst (post_wa_summary lite example_env all_ok (signed first_change_event) 0
             (fresh first_change_event))
   \<and> alike (snd (post_wa_summary lite example_env all_ok (signed later_entries_event) 0
                   (fresh later_entries_event)))
        (snd (post_wa_summary lite example_env all_ok (signed first_change_event) 0
                   (fresh first_change_event)))
   \<and> trace (snd (post_wa_3cx lite example_env all_ok (signed later_entries_event) 0
              (fresh later_entries_event)))
      = [Respond 200,
         Fetch \<lparr>req_url = ''http://chatwoot/hook'',
                req_headers = [(''Content-Type'', ''application/json''),
                               (''X-Chatwoot-Webhook-Token'', ''cw-token'')],
                req_body = BufferBody 0\<rparr>,
         Fetch (ai_request lite example_env (JStr ''111'') ''hi''),
         Fetch (wa_text_request example_env (JStr ''111'') (JStr ''ok''))]
   \<and> \<not> in_handoff (snd (post_wa_3cx lite example_env all_ok (signed later_entries_event) 0
                         (fresh later_entries_event))) (JStr ''888'')
   \<and> \<not> in_handoff (snd (post_wa_3cx lite example_env all_ok (signed later_entries_event) 0
                         (fresh later_entries_event))) (JStr ''999'')"
proof -
  have same: "same_answers all_ok all_ok"
    by (simp add: same_answers_def all_ok_def)
  have start: "alike (fresh later_entries_event) (fresh first_change_event)"
    by (simp add: alike_def fresh_def)
  have allocated: "0 < length (objects (fresh later_entries_event))"
    by (simp add: fresh_def)
  have run: "trace (snd (post_wa_3cx lite example_env all_ok (signed later_entries_event) 0
              (fresh later_entries_event)))
      = [Respond 200,
         Fetch \<lparr>req_url = ''http://chatwoot/hook'',
                req_headers = [(''Content-Type'', ''application/json''),
                               (''X-Chatwoot-Webhook-Token'', ''cw-token'')],
                req_body = BufferBody 0\<rparr>,
         Fetch (ai_request lite example_env (JStr ''111'') ''hi''),
         Fetch (wa_text_request example_env (JStr ''111'') (JStr ''ok''))]"
    by code_simp
  have flags:
    "\<not> in_handoff (snd (post_wa_3cx lite example_env all_ok (signed later_entries_event) 0
                         (fresh later_entries_event))) (JStr ''888'')"
    "\<not> in_handoff (snd (post_wa_3cx lite example_env all_ok (signed later_entries_event) 0
                         (fresh later_entries_event))) (JStr ''999'')"
    by code_simp+
  show ?thesis
    using only_first_change_is_routed
      [OF same start allocated later_entries_verified first_change_verified
          later_entries_parsed first_change_parsed later_entries_messages]
      run flags
    by blast
qed

end
